theory Spec2Isabelle
  imports Complex_Main "HOL-Library.Monad_Syntax"
begin

section \<open>Closed-form pulley tooth profile: the ordered solution list\<close>

text \<open>
  The notebook solves the tangent-arc systems once with a computer algebra system and keeps
  the result as an ordered list \<open>final_sol\<close> of pairs (name, expression), each expression
  over the parameters and over names that come earlier in the list.  The embedding has one
  function per name.

  The list is evaluated entry by entry, and nothing is ever raised.  The computer algebra
  system evaluates over the complex numbers: the square root of a negative real is
  imaginary, and an expression that multiplies it by zero is real again.  A division by
  zero gives an infinity or a not-a-number.  So the value of an expression is a
  \<open>complex option\<close>, where \<open>None\<close> is the infinity or not-a-number of a division by zero,
  and a name is a \<open>real option\<close>: \<open>Some x\<close> when its value is the real number \<open>x\<close>.
  Steps 1 and 2 are embedded in this way.  The expressions of step 2 and of the later
  entries are embedded at real values of the names they refer to: a later name is
  \<open>Some x\<close> only when every name it refers to is a real number and its own value is the
  real number \<open>x\<close>.  The numbers are the exact ones that the expressions denote, not
  their floating-point approximations.
\<close>

text \<open>A value as a real number, when it is one.\<close>

definition real_value :: "complex option \<Rightarrow> real option" where
  "real_value v =
     (case v of None \<Rightarrow> None | Some z \<Rightarrow> if Im z = 0 then Some (Re z) else None)"

subsection \<open>Parameters and substitutions\<close>

text \<open>The parameter symbols, in the order of the list \<open>params\<close>.\<close>

record params =
  RAB :: real
  RBC :: real
  RCD :: real
  b :: real
  h :: real
  PLD :: real
  t :: real
  PD :: real
  P :: real

text \<open>\<open>L_sub = PD / 2 - PLD - h + RAB\<close>, substituted for the symbol \<open>L\<close>.\<close>

definition L_sub :: "params \<Rightarrow> real" where
  "L_sub p = PD p / 2 - PLD p - h p + RAB p"

text \<open>
  \<open>PD_sub = P * t / pi\<close>: the variant of the notebook in which \<open>PD\<close> is not a parameter
  of its own substitutes this for \<open>PD\<close> in every expression.
\<close>

definition PD_sub :: "params \<Rightarrow> real" where
  "PD_sub p = P p * t p / pi"

definition subs_PD :: "params \<Rightarrow> params" where
  "subs_PD p = p\<lparr>PD := PD_sub p\<rparr>"

subsection \<open>Step 1: the hand-picked solution \<open>res_1[1]\<close>\<close>

text \<open>The argument of the square root that every expression of step 1 shares.\<close>

definition radicand_1 :: "params \<Rightarrow> real" where
  "radicand_1 p =
     (let RAB = RAB p; RBC = RBC p; L = L_sub p; s = sin (b p / PD p)
      in RAB ^ 2 - 2 * RAB * RBC + RBC ^ 2 + 4 * L ^ 2 * s ^ 4 - 4 * L ^ 2 * s ^ 2)"

text \<open>
  The expressions as the notebook prints them, with \<open>L\<close> for the substituted
  \<open>PD/2 - PLD + RAB - h\<close>, \<open>s\<close> and \<open>c\<close> for \<open>sin(b/PD)\<close> and \<open>cos(b/PD)\<close>, and \<open>w\<close> for the
  shared square root.  First over the real numbers, which is what they are where the
  argument of the square root is not negative.
\<close>

definition AX_expr :: "params \<Rightarrow> real" where
  "AX_expr p =
     (let RAB = RAB p; RBC = RBC p; L = L_sub p; s = sin (b p / PD p); c = cos (b p / PD p);
          w = sqrt (radicand_1 p)
      in (- 2 * RAB ^ 2 * L * s ^ 2 + RAB ^ 2 * L + RAB ^ 2 * w - 2 * RAB * RBC * L * s ^ 2
          + RAB * RBC * L + RAB * RBC * w + 256 * L ^ 3 * s ^ 18 - 1152 * L ^ 3 * s ^ 16
          + 2112 * L ^ 3 * s ^ 14 + 256 * L ^ 3 * s ^ 12 * c ^ 6 - 2016 * L ^ 3 * s ^ 12
          - 384 * L ^ 3 * s ^ 10 * c ^ 6 + 1056 * L ^ 3 * s ^ 10 + 192 * L ^ 3 * s ^ 8 * c ^ 6
          - 288 * L ^ 3 * s ^ 8 - 32 * L ^ 3 * s ^ 6 * c ^ 6 + 32 * L ^ 3 * s ^ 6)
         * sin (2 * b p / PD p) / (RAB ^ 2 - RBC ^ 2))"

definition AY_expr :: "params \<Rightarrow> real" where
  "AY_expr p =
     (let RAB = RAB p; RBC = RBC p; L = L_sub p; s = sin (b p / PD p); c = cos (b p / PD p);
          w = sqrt (radicand_1 p)
      in (4 * RAB ^ 2 * L * s ^ 4 - 4 * RAB ^ 2 * L * s ^ 2 + RAB ^ 2 * L
          - 2 * RAB ^ 2 * w * s ^ 2 + RAB ^ 2 * w + 4 * RAB * RBC * L * s ^ 4
          - 4 * RAB * RBC * L * s ^ 2 - 2 * RAB * RBC * w * s ^ 2 + RAB * RBC * w
          - RBC ^ 2 * L - 512 * L ^ 3 * s ^ 20 + 2560 * L ^ 3 * s ^ 18 - 5248 * L ^ 3 * s ^ 16
          - 512 * L ^ 3 * s ^ 14 * c ^ 6 + 5632 * L ^ 3 * s ^ 14 + 1024 * L ^ 3 * s ^ 12 * c ^ 6
          - 3328 * L ^ 3 * s ^ 12 - 640 * L ^ 3 * s ^ 10 * c ^ 6 + 1024 * L ^ 3 * s ^ 10
          + 128 * L ^ 3 * s ^ 8 * c ^ 6 - 128 * L ^ 3 * s ^ 8)
         / (RAB ^ 2 - RBC ^ 2))"

definition BX_expr :: "params \<Rightarrow> real" where
  "BX_expr p =
     (let RAB = RAB p; RBC = RBC p; L = L_sub p; s = sin (b p / PD p); c = cos (b p / PD p);
          w = sqrt (radicand_1 p)
      in (2 * RAB ^ 2 * L * s ^ 2 - RAB ^ 2 * L - RAB ^ 2 * w + 2 * RAB * RBC * L * s ^ 2
          - RAB * RBC * L - RAB * RBC * w - 256 * L ^ 3 * s ^ 18 + 1152 * L ^ 3 * s ^ 16
          - 2112 * L ^ 3 * s ^ 14 - 256 * L ^ 3 * s ^ 12 * c ^ 6 + 2016 * L ^ 3 * s ^ 12
          + 384 * L ^ 3 * s ^ 10 * c ^ 6 - 1056 * L ^ 3 * s ^ 10 - 192 * L ^ 3 * s ^ 8 * c ^ 6
          + 288 * L ^ 3 * s ^ 8 + 32 * L ^ 3 * s ^ 6 * c ^ 6 - 32 * L ^ 3 * s ^ 6)
         * sin (2 * b p / PD p) / (RAB ^ 2 - RBC ^ 2))"

definition BY_expr :: "params \<Rightarrow> real" where
  "BY_expr p =
     (let RAB = RAB p; RBC = RBC p; L = L_sub p; s = sin (b p / PD p); c = cos (b p / PD p);
          w = sqrt (radicand_1 p)
      in (4 * RAB ^ 2 * L * s ^ 4 - 4 * RAB ^ 2 * L * s ^ 2 + RAB ^ 2 * L
          - 2 * RAB ^ 2 * w * s ^ 2 + RAB ^ 2 * w + 4 * RAB * RBC * L * s ^ 4
          - 4 * RAB * RBC * L * s ^ 2 - 2 * RAB * RBC * w * s ^ 2 + RAB * RBC * w
          - RBC ^ 2 * L - 512 * L ^ 3 * s ^ 20 + 2560 * L ^ 3 * s ^ 18 - 5248 * L ^ 3 * s ^ 16
          - 512 * L ^ 3 * s ^ 14 * c ^ 6 + 5632 * L ^ 3 * s ^ 14 + 1024 * L ^ 3 * s ^ 12 * c ^ 6
          - 3328 * L ^ 3 * s ^ 12 - 640 * L ^ 3 * s ^ 10 * c ^ 6 + 1024 * L ^ 3 * s ^ 10
          + 128 * L ^ 3 * s ^ 8 * c ^ 6 - 128 * L ^ 3 * s ^ 8)
         / (RAB ^ 2 - RBC ^ 2))"

definition BCX_expr :: "params \<Rightarrow> real" where
  "BCX_expr p =
     (let L = L_sub p; s = sin (b p / PD p); w = sqrt (radicand_1 p)
      in (- PD p / 2 + PLD p - RAB p + h p + 2 * L * s ^ 2 - w) * sin (2 * b p / PD p))"

definition BCY_expr :: "params \<Rightarrow> real" where
  "BCY_expr p =
     (let L = L_sub p; s = sin (b p / PD p); w = sqrt (radicand_1 p)
      in (PD p / 2 - PLD p + RAB p - h p - 2 * L * s ^ 2 + w) * cos (2 * b p / PD p))"

definition RBXY_expr :: "params \<Rightarrow> real" where
  "RBXY_expr p =
     (let L = L_sub p; s = sin (b p / PD p); w = sqrt (radicand_1 p)
      in PD p / 2 - PLD p + RAB p - h p - 2 * L * s ^ 2 + w)"

text \<open>
  The same expressions as they are evaluated, over the complex numbers: the parameters
  and the sines and cosines of the real angle are real, the shared square root need not be.
\<close>

definition AX_cplx :: "params \<Rightarrow> complex" where
  "AX_cplx p =
     (let RAB = complex_of_real (RAB p); RBC = complex_of_real (RBC p);
          L = complex_of_real (L_sub p); s = complex_of_real (sin (b p / PD p));
          c = complex_of_real (cos (b p / PD p)); w = csqrt (complex_of_real (radicand_1 p))
      in (- 2 * RAB ^ 2 * L * s ^ 2 + RAB ^ 2 * L + RAB ^ 2 * w - 2 * RAB * RBC * L * s ^ 2
          + RAB * RBC * L + RAB * RBC * w + 256 * L ^ 3 * s ^ 18 - 1152 * L ^ 3 * s ^ 16
          + 2112 * L ^ 3 * s ^ 14 + 256 * L ^ 3 * s ^ 12 * c ^ 6 - 2016 * L ^ 3 * s ^ 12
          - 384 * L ^ 3 * s ^ 10 * c ^ 6 + 1056 * L ^ 3 * s ^ 10 + 192 * L ^ 3 * s ^ 8 * c ^ 6
          - 288 * L ^ 3 * s ^ 8 - 32 * L ^ 3 * s ^ 6 * c ^ 6 + 32 * L ^ 3 * s ^ 6)
         * complex_of_real (sin (2 * b p / PD p)) / (RAB ^ 2 - RBC ^ 2))"

definition AY_cplx :: "params \<Rightarrow> complex" where
  "AY_cplx p =
     (let RAB = complex_of_real (RAB p); RBC = complex_of_real (RBC p);
          L = complex_of_real (L_sub p); s = complex_of_real (sin (b p / PD p));
          c = complex_of_real (cos (b p / PD p)); w = csqrt (complex_of_real (radicand_1 p))
      in (4 * RAB ^ 2 * L * s ^ 4 - 4 * RAB ^ 2 * L * s ^ 2 + RAB ^ 2 * L
          - 2 * RAB ^ 2 * w * s ^ 2 + RAB ^ 2 * w + 4 * RAB * RBC * L * s ^ 4
          - 4 * RAB * RBC * L * s ^ 2 - 2 * RAB * RBC * w * s ^ 2 + RAB * RBC * w
          - RBC ^ 2 * L - 512 * L ^ 3 * s ^ 20 + 2560 * L ^ 3 * s ^ 18 - 5248 * L ^ 3 * s ^ 16
          - 512 * L ^ 3 * s ^ 14 * c ^ 6 + 5632 * L ^ 3 * s ^ 14 + 1024 * L ^ 3 * s ^ 12 * c ^ 6
          - 3328 * L ^ 3 * s ^ 12 - 640 * L ^ 3 * s ^ 10 * c ^ 6 + 1024 * L ^ 3 * s ^ 10
          + 128 * L ^ 3 * s ^ 8 * c ^ 6 - 128 * L ^ 3 * s ^ 8)
         / (RAB ^ 2 - RBC ^ 2))"

definition BX_cplx :: "params \<Rightarrow> complex" where
  "BX_cplx p =
     (let RAB = complex_of_real (RAB p); RBC = complex_of_real (RBC p);
          L = complex_of_real (L_sub p); s = complex_of_real (sin (b p / PD p));
          c = complex_of_real (cos (b p / PD p)); w = csqrt (complex_of_real (radicand_1 p))
      in (2 * RAB ^ 2 * L * s ^ 2 - RAB ^ 2 * L - RAB ^ 2 * w + 2 * RAB * RBC * L * s ^ 2
          - RAB * RBC * L - RAB * RBC * w - 256 * L ^ 3 * s ^ 18 + 1152 * L ^ 3 * s ^ 16
          - 2112 * L ^ 3 * s ^ 14 - 256 * L ^ 3 * s ^ 12 * c ^ 6 + 2016 * L ^ 3 * s ^ 12
          + 384 * L ^ 3 * s ^ 10 * c ^ 6 - 1056 * L ^ 3 * s ^ 10 - 192 * L ^ 3 * s ^ 8 * c ^ 6
          + 288 * L ^ 3 * s ^ 8 + 32 * L ^ 3 * s ^ 6 * c ^ 6 - 32 * L ^ 3 * s ^ 6)
         * complex_of_real (sin (2 * b p / PD p)) / (RAB ^ 2 - RBC ^ 2))"

definition BY_cplx :: "params \<Rightarrow> complex" where
  "BY_cplx p =
     (let RAB = complex_of_real (RAB p); RBC = complex_of_real (RBC p);
          L = complex_of_real (L_sub p); s = complex_of_real (sin (b p / PD p));
          c = complex_of_real (cos (b p / PD p)); w = csqrt (complex_of_real (radicand_1 p))
      in (4 * RAB ^ 2 * L * s ^ 4 - 4 * RAB ^ 2 * L * s ^ 2 + RAB ^ 2 * L
          - 2 * RAB ^ 2 * w * s ^ 2 + RAB ^ 2 * w + 4 * RAB * RBC * L * s ^ 4
          - 4 * RAB * RBC * L * s ^ 2 - 2 * RAB * RBC * w * s ^ 2 + RAB * RBC * w
          - RBC ^ 2 * L - 512 * L ^ 3 * s ^ 20 + 2560 * L ^ 3 * s ^ 18 - 5248 * L ^ 3 * s ^ 16
          - 512 * L ^ 3 * s ^ 14 * c ^ 6 + 5632 * L ^ 3 * s ^ 14 + 1024 * L ^ 3 * s ^ 12 * c ^ 6
          - 3328 * L ^ 3 * s ^ 12 - 640 * L ^ 3 * s ^ 10 * c ^ 6 + 1024 * L ^ 3 * s ^ 10
          + 128 * L ^ 3 * s ^ 8 * c ^ 6 - 128 * L ^ 3 * s ^ 8)
         / (RAB ^ 2 - RBC ^ 2))"

definition BCX_cplx :: "params \<Rightarrow> complex" where
  "BCX_cplx p =
     (let L = complex_of_real (L_sub p); s = complex_of_real (sin (b p / PD p));
          s2 = complex_of_real (sin (2 * b p / PD p));
          w = csqrt (complex_of_real (radicand_1 p));
          PD = complex_of_real (PD p); PLD = complex_of_real (PLD p);
          RAB = complex_of_real (RAB p); h = complex_of_real (h p)
      in (- PD / 2 + PLD - RAB + h + 2 * L * s ^ 2 - w) * s2)"

definition BCY_cplx :: "params \<Rightarrow> complex" where
  "BCY_cplx p =
     (let L = complex_of_real (L_sub p); s = complex_of_real (sin (b p / PD p));
          c2 = complex_of_real (cos (2 * b p / PD p));
          w = csqrt (complex_of_real (radicand_1 p));
          PD = complex_of_real (PD p); PLD = complex_of_real (PLD p);
          RAB = complex_of_real (RAB p); h = complex_of_real (h p)
      in (PD / 2 - PLD + RAB - h - 2 * L * s ^ 2 + w) * c2)"

definition RBXY_cplx :: "params \<Rightarrow> complex" where
  "RBXY_cplx p =
     (let L = complex_of_real (L_sub p); s = complex_of_real (sin (b p / PD p));
          w = csqrt (complex_of_real (radicand_1 p));
          PD = complex_of_real (PD p); PLD = complex_of_real (PLD p);
          RAB = complex_of_real (RAB p); h = complex_of_real (h p)
      in PD / 2 - PLD + RAB - h - 2 * L * s ^ 2 + w)"

text \<open>
  The values of step 1.  Every expression but those of \<open>ABX\<close> and \<open>ABY\<close> divides by \<open>PD\<close>;
  those of \<open>AX\<close>, \<open>AY\<close>, \<open>BX\<close> and \<open>BY\<close> also divide by \<open>RAB^2 - RBC^2\<close>.
\<close>

definition AX_val :: "params \<Rightarrow> complex option" where
  "AX_val p = (if PD p = 0 \<or> RAB p ^ 2 - RBC p ^ 2 = 0 then None else Some (AX_cplx p))"

definition AY_val :: "params \<Rightarrow> complex option" where
  "AY_val p = (if PD p = 0 \<or> RAB p ^ 2 - RBC p ^ 2 = 0 then None else Some (AY_cplx p))"

definition BX_val :: "params \<Rightarrow> complex option" where
  "BX_val p = (if PD p = 0 \<or> RAB p ^ 2 - RBC p ^ 2 = 0 then None else Some (BX_cplx p))"

definition BY_val :: "params \<Rightarrow> complex option" where
  "BY_val p = (if PD p = 0 \<or> RAB p ^ 2 - RBC p ^ 2 = 0 then None else Some (BY_cplx p))"

definition ABX_val :: "params \<Rightarrow> complex option" where
  "ABX_val p = Some 0"

definition ABY_val :: "params \<Rightarrow> complex option" where
  "ABY_val p = Some (complex_of_real (PD p) / 2 - complex_of_real (PLD p)
                     + complex_of_real (RAB p) - complex_of_real (h p))"

definition BCX_val :: "params \<Rightarrow> complex option" where
  "BCX_val p = (if PD p = 0 then None else Some (BCX_cplx p))"

definition BCY_val :: "params \<Rightarrow> complex option" where
  "BCY_val p = (if PD p = 0 then None else Some (BCY_cplx p))"

definition RBXY_val :: "params \<Rightarrow> complex option" where
  "RBXY_val p = (if PD p = 0 then None else Some (RBXY_cplx p))"

text \<open>The solution of step 1 as the list of its nine values, in the order printed.\<close>

definition res_1_sol :: "params \<Rightarrow> complex option list" where
  "res_1_sol p =
     [AX_val p, AY_val p, BX_val p, BY_val p, ABX_val p, ABY_val p, BCX_val p, BCY_val p,
      RBXY_val p]"

text \<open>The names of step 1: the values that are real numbers.\<close>

definition AX :: "params \<Rightarrow> real option" where
  "AX p = real_value (AX_val p)"

definition AY :: "params \<Rightarrow> real option" where
  "AY p = real_value (AY_val p)"

definition BX :: "params \<Rightarrow> real option" where
  "BX p = real_value (BX_val p)"

definition BY :: "params \<Rightarrow> real option" where
  "BY p = real_value (BY_val p)"

definition ABX :: "params \<Rightarrow> real option" where
  "ABX p = real_value (ABX_val p)"

definition ABY :: "params \<Rightarrow> real option" where
  "ABY p = real_value (ABY_val p)"

definition BCX :: "params \<Rightarrow> real option" where
  "BCX p = real_value (BCX_val p)"

definition BCY :: "params \<Rightarrow> real option" where
  "BCY p = real_value (BCY_val p)"

definition RBXY :: "params \<Rightarrow> real option" where
  "RBXY p = real_value (RBXY_val p)"

subsection \<open>Step 2: the hand-picked solution \<open>res_2[0]\<close>\<close>

text \<open>
  The two expressions of step 2 are over the names \<open>BCX\<close> and \<open>BCY\<close> of step 1.  They share
  one square root; its argument, and the expressions over the real numbers:
\<close>

definition radicand_2 :: "params \<Rightarrow> real \<Rightarrow> real \<Rightarrow> real" where
  "radicand_2 p bcx bcy =
     (let PD = PD p; PLD = PLD p; RBC = RBC p; RCD = RCD p; BCX = bcx; BCY = bcy
      in - (4 * BCX ^ 2 + 4 * BCY ^ 2 - PD ^ 2 + 4 * PD * PLD - 4 * PD * RBC - 4 * PLD ^ 2
            + 8 * PLD * RBC - 4 * RBC ^ 2)
         * (4 * BCX ^ 2 + 4 * BCY ^ 2 - PD ^ 2 + 4 * PD * PLD + 4 * PD * RBC + 8 * PD * RCD
            - 4 * PLD ^ 2 - 8 * PLD * RBC - 16 * PLD * RCD - 4 * RBC ^ 2 - 16 * RBC * RCD
            - 16 * RCD ^ 2))"

definition CDY_expr :: "params \<Rightarrow> real \<Rightarrow> real \<Rightarrow> real" where
  "CDY_expr p bcx bcy =
     (let PD = PD p; PLD = PLD p; RBC = RBC p; RCD = RCD p; BCX = bcx; BCY = bcy
      in - BCX * sqrt (radicand_2 p bcx bcy) / (8 * (BCX ^ 2 + BCY ^ 2))
         + BCY * (4 * BCX ^ 2 + 4 * BCY ^ 2 + PD ^ 2 - 4 * PD * PLD - 4 * PD * RCD
                  + 4 * PLD ^ 2 + 8 * PLD * RCD - 4 * RBC ^ 2 - 8 * RBC * RCD)
           / (8 * (BCX ^ 2 + BCY ^ 2)))"

text \<open>The expression of \<open>CDX\<close> holds the whole expression of \<open>CDY\<close> as a factor.\<close>

definition CDX_expr :: "params \<Rightarrow> real \<Rightarrow> real \<Rightarrow> real" where
  "CDX_expr p bcx bcy =
     (let PD = PD p; PLD = PLD p; RBC = RBC p; RCD = RCD p; BCX = bcx; BCY = bcy
      in (4 * BCX ^ 2 + 4 * BCY ^ 2 - 8 * BCY * CDY_expr p bcx bcy + PD ^ 2 - 4 * PD * PLD
          - 4 * PD * RCD + 4 * PLD ^ 2 + 8 * PLD * RCD - 4 * RBC ^ 2 - 8 * RBC * RCD)
         / (8 * BCX))"

text \<open>The same two expressions as they are evaluated, over the complex numbers.\<close>

definition CDY_cplx :: "params \<Rightarrow> real \<Rightarrow> real \<Rightarrow> complex" where
  "CDY_cplx p bcx bcy =
     (let PD = complex_of_real (PD p); PLD = complex_of_real (PLD p);
          RBC = complex_of_real (RBC p); RCD = complex_of_real (RCD p);
          BCX = complex_of_real bcx; BCY = complex_of_real bcy
      in - BCX * csqrt (complex_of_real (radicand_2 p bcx bcy)) / (8 * (BCX ^ 2 + BCY ^ 2))
         + BCY * (4 * BCX ^ 2 + 4 * BCY ^ 2 + PD ^ 2 - 4 * PD * PLD - 4 * PD * RCD
                  + 4 * PLD ^ 2 + 8 * PLD * RCD - 4 * RBC ^ 2 - 8 * RBC * RCD)
           / (8 * (BCX ^ 2 + BCY ^ 2)))"

definition CDX_cplx :: "params \<Rightarrow> real \<Rightarrow> real \<Rightarrow> complex" where
  "CDX_cplx p bcx bcy =
     (let PD = complex_of_real (PD p); PLD = complex_of_real (PLD p);
          RBC = complex_of_real (RBC p); RCD = complex_of_real (RCD p);
          BCX = complex_of_real bcx; BCY = complex_of_real bcy
      in (4 * BCX ^ 2 + 4 * BCY ^ 2 - 8 * BCY * CDY_cplx p bcx bcy + PD ^ 2 - 4 * PD * PLD
          - 4 * PD * RCD + 4 * PLD ^ 2 + 8 * PLD * RCD - 4 * RBC ^ 2 - 8 * RBC * RCD)
         / (8 * BCX))"

text \<open>
  The values of step 2 at real \<open>BCX\<close> and \<open>BCY\<close>.  Both expressions divide by
  \<open>8 (BCX^2 + BCY^2)\<close>, that of \<open>CDX\<close> also by \<open>8 BCX\<close>.
\<close>

definition CDX_val :: "params \<Rightarrow> real \<Rightarrow> real \<Rightarrow> complex option" where
  "CDX_val p bcx bcy =
     (if 8 * bcx = 0 \<or> 8 * (bcx ^ 2 + bcy ^ 2) = 0 then None
      else Some (CDX_cplx p bcx bcy))"

definition CDY_val :: "params \<Rightarrow> real \<Rightarrow> real \<Rightarrow> complex option" where
  "CDY_val p bcx bcy =
     (if 8 * (bcx ^ 2 + bcy ^ 2) = 0 then None else Some (CDY_cplx p bcx bcy))"

definition CDX_of :: "params \<Rightarrow> real \<Rightarrow> real \<Rightarrow> real option" where
  "CDX_of p bcx bcy = real_value (CDX_val p bcx bcy)"

definition CDY_of :: "params \<Rightarrow> real \<Rightarrow> real \<Rightarrow> real option" where
  "CDY_of p bcx bcy = real_value (CDY_val p bcx bcy)"

definition CDX :: "params \<Rightarrow> real option" where
  "CDX p = do { bcx \<leftarrow> BCX p; bcy \<leftarrow> BCY p; CDX_of p bcx bcy }"

definition CDY :: "params \<Rightarrow> real option" where
  "CDY p = do { bcx \<leftarrow> BCX p; bcy \<leftarrow> BCY p; CDY_of p bcx bcy }"

subsection \<open>The points appended to the solution: \<open>C\<close>, \<open>D\<close> and the auxiliaries\<close>

text \<open>\<open>CX = CDX - RCD / (RCD + RBC) * (CDX - BCX)\<close>, and the same for \<open>CY\<close>.\<close>

definition CX_of :: "params \<Rightarrow> real \<Rightarrow> real \<Rightarrow> real option" where
  "CX_of p cdx bcx =
     (if RCD p + RBC p = 0 then None
      else Some (cdx - RCD p / (RCD p + RBC p) * (cdx - bcx)))"

definition CY_of :: "params \<Rightarrow> real \<Rightarrow> real \<Rightarrow> real option" where
  "CY_of p cdy bcy =
     (if RCD p + RBC p = 0 then None
      else Some (cdy - RCD p / (RCD p + RBC p) * (cdy - bcy)))"

definition CX :: "params \<Rightarrow> real option" where
  "CX p = do { cdx \<leftarrow> CDX p; bcx \<leftarrow> BCX p; CX_of p cdx bcx }"

definition CY :: "params \<Rightarrow> real option" where
  "CY p = do { cdy \<leftarrow> CDY p; bcy \<leftarrow> BCY p; CY_of p cdy bcy }"

text \<open>\<open>CDR\<close>, the distance of \<open>CD\<close> from the origin.\<close>

definition CDR_of :: "real \<Rightarrow> real \<Rightarrow> real" where
  "CDR_of cdx cdy = sqrt (cdx ^ 2 + cdy ^ 2)"

definition CDR :: "params \<Rightarrow> real option" where
  "CDR p = do { cdx \<leftarrow> CDX p; cdy \<leftarrow> CDY p; Some (CDR_of cdx cdy) }"

text \<open>\<open>DX = CDX * (CDR + RCD) / CDR\<close>, and the same for \<open>DY\<close>.\<close>

definition DX_of :: "params \<Rightarrow> real \<Rightarrow> real \<Rightarrow> real option" where
  "DX_of p cdx cdr = (if cdr = 0 then None else Some (cdx * (cdr + RCD p) / cdr))"

definition DY_of :: "params \<Rightarrow> real \<Rightarrow> real \<Rightarrow> real option" where
  "DY_of p cdy cdr = (if cdr = 0 then None else Some (cdy * (cdr + RCD p) / cdr))"

definition DX :: "params \<Rightarrow> real option" where
  "DX p = do { cdx \<leftarrow> CDX p; cdr \<leftarrow> CDR p; DX_of p cdx cdr }"

definition DY :: "params \<Rightarrow> real option" where
  "DY p = do { cdy \<leftarrow> CDY p; cdr \<leftarrow> CDR p; DY_of p cdy cdr }"

subsection \<open>Step 3: the bisector angle and the reflection\<close>

text \<open>
  The angle as the cell writes it, over the names \<open>BX\<close> and \<open>BY\<close>:
  \<open>(-asin(BX/sqrt(BX^2+BY^2)) + (asin(BX/sqrt(BX^2+BY^2)) - 2*P/PD))/2\<close>.
\<close>

definition TANG_of :: "params \<Rightarrow> real \<Rightarrow> real \<Rightarrow> real option" where
  "TANG_of p bx byy =
     (if sqrt (bx ^ 2 + byy ^ 2) = 0 \<or> 1 < \<bar>bx / sqrt (bx ^ 2 + byy ^ 2)\<bar> \<or> PD p = 0
      then None
      else Some ((- arcsin (bx / sqrt (bx ^ 2 + byy ^ 2))
                  + (arcsin (bx / sqrt (bx ^ 2 + byy ^ 2)) - 2 * P p / PD p)) / 2))"

text \<open>
  The angle as the solution list holds it: the sum is flattened when it is built, the two
  arc sines are gone, and the entry printed is \<open>-P/PD\<close>.
\<close>

definition TANG :: "params \<Rightarrow> real option" where
  "TANG p = (if PD p = 0 then None else Some (- P p / PD p))"

text \<open>
  \<open>reflect_point\<close>: the radius \<open>R\<close>, the new angle from the y axis, and the new point.
\<close>

definition reflect_point :: "real \<Rightarrow> real \<Rightarrow> real \<Rightarrow> (real \<times> real) option" where
  "reflect_point x y theta =
     (if sqrt (x ^ 2 + y ^ 2) = 0 \<or> 1 < \<bar>x / sqrt (x ^ 2 + y ^ 2)\<bar> then None
      else (let R = sqrt (x ^ 2 + y ^ 2);
                theta_new = 2 * theta + arcsin (x / sqrt (x ^ 2 + y ^ 2));
                x_new = - R * sin theta_new;
                y_new = R * cos theta_new
            in Some (x_new, y_new)))"

text \<open>
  The five reflected points, each over the names of its source point and \<open>TANG\<close>.  The
  name \<open>EX\<close> is a keyword of the logic's syntax, so that entry is \<open>EX_val\<close> here.
\<close>

definition reflected :: "real option \<Rightarrow> real option \<Rightarrow> real option \<Rightarrow> (real \<times> real) option" where
  "reflected xo yo ang = do { x \<leftarrow> xo; y \<leftarrow> yo; theta \<leftarrow> ang; reflect_point x y theta }"

definition EX_val :: "params \<Rightarrow> real option" where
  "EX_val p = map_option fst (reflected (DX p) (DY p) (TANG p))"

definition EY :: "params \<Rightarrow> real option" where
  "EY p = map_option snd (reflected (DX p) (DY p) (TANG p))"

definition FX :: "params \<Rightarrow> real option" where
  "FX p = map_option fst (reflected (CX p) (CY p) (TANG p))"

definition FY :: "params \<Rightarrow> real option" where
  "FY p = map_option snd (reflected (CX p) (CY p) (TANG p))"

definition EFX :: "params \<Rightarrow> real option" where
  "EFX p = map_option fst (reflected (CDX p) (CDY p) (TANG p))"

definition EFY :: "params \<Rightarrow> real option" where
  "EFY p = map_option snd (reflected (CDX p) (CDY p) (TANG p))"

definition GX :: "params \<Rightarrow> real option" where
  "GX p = map_option fst (reflected (BX p) (BY p) (TANG p))"

definition GY :: "params \<Rightarrow> real option" where
  "GY p = map_option snd (reflected (BX p) (BY p) (TANG p))"

definition FGX :: "params \<Rightarrow> real option" where
  "FGX p = map_option fst (reflected (BCX p) (BCY p) (TANG p))"

definition FGY :: "params \<Rightarrow> real option" where
  "FGY p = map_option snd (reflected (BCX p) (BCY p) (TANG p))"


subsection \<open>Notions used to state the properties\<close>

text \<open>
  The specification's words for the discriminant of step 1: \<open>S = sin(b/PD)^2\<close> and
  \<open>Delta = RAB^2 - 2 RAB RBC + RBC^2 + 4 L^2 S^2 - 4 L^2 S\<close>.
\<close>

definition S_spec :: "params \<Rightarrow> real" where
  "S_spec p = (sin (b p / PD p)) ^ 2"

definition Delta_spec :: "params \<Rightarrow> real" where
  "Delta_spec p =
     (let L = L_sub p; S = S_spec p
      in RAB p ^ 2 - 2 * RAB p * RBC p + RBC p ^ 2 + 4 * L ^ 2 * S ^ 2 - 4 * L ^ 2 * S)"

text \<open>The Euclidean distance of two points of the plane.\<close>

definition dist2 :: "real \<Rightarrow> real \<Rightarrow> real \<Rightarrow> real \<Rightarrow> real" where
  "dist2 x1 y1 x2 y2 = sqrt ((x1 - x2) ^ 2 + (y1 - y2) ^ 2)"

text \<open>Reflecting a point, and then its image, over the same angle.\<close>

definition reflect_twice :: "real \<Rightarrow> real \<Rightarrow> real \<Rightarrow> (real \<times> real) option" where
  "reflect_twice x y theta = do { (x', y') \<leftarrow> reflect_point x y theta; reflect_point x' y' theta }"

text \<open>The polynomial that both expressions of step 2 share.\<close>

definition K_2 :: "params \<Rightarrow> real \<Rightarrow> real \<Rightarrow> real" where
  "K_2 p x y = 4 * x ^ 2 + 4 * y ^ 2 + PD p ^ 2 - 4 * PD p * PLD p - 4 * PD p * RCD p
                  + 4 * PLD p ^ 2 + 8 * PLD p * RCD p - 4 * RBC p ^ 2 - 8 * RBC p * RCD p"

text \<open>
  Parameter sets at which the expressions evaluate to rationals: \<open>b/PD\<close> is a quarter of
  \<open>pi\<close>, \<open>L\<close> is zero, and the two circles of step 2 meet in a 3-4-5 triangle.  In the
  second one the pitch line lies so deep that \<open>PD/2 - PLD - RCD\<close> is negative.
\<close>

definition fixture_345 :: params where
  "fixture_345 =
     \<lparr>RAB = 6, RBC = 1, RCD = 2, b = 4 * pi, h = 12, PLD = 2, t = 4, PD = 16, P = 4 * pi\<rparr>"

definition fixture_deep :: params where
  "fixture_deep =
     \<lparr>RAB = 6, RBC = 1, RCD = 2, b = 4 * pi, h = 4, PLD = 10, t = 4, PD = 16, P = 4 * pi\<rparr>"

text \<open>
  Parameter sets on the edges: equal radii; a negative discriminant; a flank radius \<open>RBXY\<close>
  below zero; and \<open>b = 0\<close>.
\<close>

definition fixture_equal :: params where
  "fixture_equal =
     \<lparr>RAB = 1, RBC = 1, RCD = 2, b = 16 * pi, h = 6, PLD = 2, t = 4, PD = 16, P = 4 * pi\<rparr>"

definition fixture_no_root :: params where
  "fixture_no_root =
     \<lparr>RAB = 1, RBC = 2, RCD = 2, b = 4 * pi, h = 5, PLD = 2, t = 4, PD = 16, P = 4 * pi\<rparr>"

definition fixture_neg :: params where
  "fixture_neg =
     \<lparr>RAB = 1, RBC = 2, RCD = 1, b = 20 * pi, h = 10, PLD = 2, t = 2, PD = 40, P = 20 * pi\<rparr>"

definition fixture_b0 :: params where
  "fixture_b0 =
     \<lparr>RAB = 1, RBC = 2, RCD = 1, b = 0, h = 1, PLD = 1, t = 4, PD = 4, P = pi\<rparr>"


text \<open>
  The reference evaluation: the values the notebook substitutes for its parameters, with
  \<open>PD = 6.36619772368\<close> a parameter of its own.
\<close>

definition reference :: params where
  "reference =
     \<lparr>RAB = 0.555, RBC = 1, RCD = 0.15, b = 0.4, h = 0.75, PLD = 0.254, t = 10,
      PD = 6.36619772368, P = 2\<rparr>"

text \<open>A named value lies in an interval; a named value agrees with a decimal to within \<open>5e-10\<close>.\<close>

definition enclosed :: "real option \<Rightarrow> real \<Rightarrow> real \<Rightarrow> bool" where
  "enclosed v lo hi = (case v of None \<Rightarrow> False | Some x \<Rightarrow> lo \<le> x \<and> x \<le> hi)"

definition agrees :: "real option \<Rightarrow> real \<Rightarrow> bool" where
  "agrees v c = (case v of None \<Rightarrow> False | Some x \<Rightarrow> \<bar>x - c\<bar> \<le> 5 / 10 ^ 10)"

section \<open>Properties of the solution\<close>

subsection \<open>Algebra of step 1\<close>

lemma BX_num_eq:
  fixes ra rb l s c w :: "'a::idom"
  assumes "c ^ 2 = 1 - s ^ 2"
  shows "2 * ra ^ 2 * l * s ^ 2 - ra ^ 2 * l - ra ^ 2 * w + 2 * ra * rb * l * s ^ 2
          - ra * rb * l - ra * rb * w - 256 * l ^ 3 * s ^ 18 + 1152 * l ^ 3 * s ^ 16
          - 2112 * l ^ 3 * s ^ 14 - 256 * l ^ 3 * s ^ 12 * c ^ 6 + 2016 * l ^ 3 * s ^ 12
          + 384 * l ^ 3 * s ^ 10 * c ^ 6 - 1056 * l ^ 3 * s ^ 10 - 192 * l ^ 3 * s ^ 8 * c ^ 6
          + 288 * l ^ 3 * s ^ 8 + 32 * l ^ 3 * s ^ 6 * c ^ 6 - 32 * l ^ 3 * s ^ 6
       = ra * (ra + rb) * (- l + 2 * l * s ^ 2 - w)"
  using assms by algebra

lemma BY_num_eq:
  fixes ra rb l s c w :: "'a::idom"
  assumes "c ^ 2 = 1 - s ^ 2"
  shows "4 * ra ^ 2 * l * s ^ 4 - 4 * ra ^ 2 * l * s ^ 2 + ra ^ 2 * l
          - 2 * ra ^ 2 * w * s ^ 2 + ra ^ 2 * w + 4 * ra * rb * l * s ^ 4
          - 4 * ra * rb * l * s ^ 2 - 2 * ra * rb * w * s ^ 2 + ra * rb * w
          - rb ^ 2 * l - 512 * l ^ 3 * s ^ 20 + 2560 * l ^ 3 * s ^ 18 - 5248 * l ^ 3 * s ^ 16
          - 512 * l ^ 3 * s ^ 14 * c ^ 6 + 5632 * l ^ 3 * s ^ 14 + 1024 * l ^ 3 * s ^ 12 * c ^ 6
          - 3328 * l ^ 3 * s ^ 12 - 640 * l ^ 3 * s ^ 10 * c ^ 6 + 1024 * l ^ 3 * s ^ 10
          + 128 * l ^ 3 * s ^ 8 * c ^ 6 - 128 * l ^ 3 * s ^ 8
       = (ra + rb) * (ra * ((l - 2 * l * s ^ 2 + w) * (1 - 2 * s ^ 2)) - rb * l)"
  using assms by algebra

lemma stage1_circle:
  fixes ra rb l s sn cs w :: real
  assumes "w ^ 2 = ra ^ 2 - 2 * ra * rb + rb ^ 2 + 4 * l ^ 2 * s ^ 4 - 4 * l ^ 2 * s ^ 2"
    and "sn ^ 2 + cs ^ 2 = 1" and "cs = 1 - 2 * s ^ 2"
  shows "((- l + 2 * l * s ^ 2 - w) * sn) ^ 2 + ((l - 2 * l * s ^ 2 + w) * cs - l) ^ 2
         = (ra - rb) ^ 2"
  using assms by algebra

lemma RAB_RBC_factor: "RAB p ^ 2 - RBC p ^ 2 = (RAB p + RBC p) * (RAB p - RBC p)"
  by (simp add: algebra_simps power2_eq_square)

lemma BX_expr_simp:
  assumes "RAB p ^ 2 - RBC p ^ 2 \<noteq> 0"
  shows "BX_expr p = RAB p * BCX_expr p / (RAB p - RBC p)"
proof -
  have nz: "RAB p + RBC p \<noteq> 0"
    using assms RAB_RBC_factor [of p] by auto
  have L: "- PD p / 2 + PLD p - RAB p + h p = - L_sub p"
    by (simp add: L_sub_def)
  show ?thesis
    unfolding BX_expr_def BCX_expr_def Let_def BX_num_eq [OF cos_squared_eq] L RAB_RBC_factor
    using nz by simp
qed

lemma BY_expr_simp:
  assumes "RAB p ^ 2 - RBC p ^ 2 \<noteq> 0"
  shows "BY_expr p = (RAB p * BCY_expr p - RBC p * L_sub p) / (RAB p - RBC p)"
proof -
  have nz: "RAB p + RBC p \<noteq> 0"
    using assms RAB_RBC_factor [of p] by auto
  have L: "PD p / 2 - PLD p + RAB p - h p = L_sub p"
    by (simp add: L_sub_def)
  have c2: "cos (2 * b p / PD p) = 1 - 2 * sin (b p / PD p) ^ 2"
    using cos_double_sin [of "b p / PD p"] by simp
  show ?thesis
    unfolding BY_expr_def BCY_expr_def Let_def BY_num_eq [OF cos_squared_eq] L RAB_RBC_factor c2
    using nz by simp
qed

lemma BC_AB_circle:
  assumes "0 \<le> radicand_1 p"
  shows "BCX_expr p ^ 2 + (BCY_expr p - L_sub p) ^ 2 = (RAB p - RBC p) ^ 2"
proof -
  have L: "- PD p / 2 + PLD p - RAB p + h p = - L_sub p"
    "PD p / 2 - PLD p + RAB p - h p = L_sub p"
    by (simp_all add: L_sub_def)
  have w: "sqrt (radicand_1 p) ^ 2 = RAB p ^ 2 - 2 * RAB p * RBC p + RBC p ^ 2
      + 4 * L_sub p ^ 2 * sin (b p / PD p) ^ 4 - 4 * L_sub p ^ 2 * sin (b p / PD p) ^ 2"
    using assms by (simp add: radicand_1_def Let_def)
  have sc: "sin (2 * b p / PD p) ^ 2 + cos (2 * b p / PD p) ^ 2 = 1"
    by simp
  have c2: "cos (2 * b p / PD p) = 1 - 2 * sin (b p / PD p) ^ 2"
    using cos_double_sin [of "b p / PD p"] by simp
  show ?thesis
    unfolding BCX_expr_def BCY_expr_def Let_def L
    by (rule stage1_circle [OF w sc c2])
qed

lemma B_AB_sq:
  assumes "RAB p ^ 2 - RBC p ^ 2 \<noteq> 0" and "0 \<le> radicand_1 p"
  shows "(BX_expr p - 0) ^ 2 + (BY_expr p - L_sub p) ^ 2 = RAB p ^ 2"
proof -
  have nz: "RAB p - RBC p \<noteq> 0"
    using assms(1) RAB_RBC_factor [of p] by auto
  have y: "BY_expr p - L_sub p = RAB p * (BCY_expr p - L_sub p) / (RAB p - RBC p)"
    using nz by (simp add: BY_expr_simp [OF assms(1)] field_simps)
  have "(BX_expr p - 0) ^ 2 + (BY_expr p - L_sub p) ^ 2
      = RAB p ^ 2 * (BCX_expr p ^ 2 + (BCY_expr p - L_sub p) ^ 2) / (RAB p - RBC p) ^ 2"
    unfolding y BX_expr_simp [OF assms(1)]
    by (simp add: power_mult_distrib power_divide add_divide_distrib distrib_left)
  also have "\<dots> = RAB p ^ 2"
    using nz by (simp add: BC_AB_circle [OF assms(2)])
  finally show ?thesis .
qed

lemma B_BC_sq:
  assumes "RAB p ^ 2 - RBC p ^ 2 \<noteq> 0" and "0 \<le> radicand_1 p"
  shows "(BX_expr p - BCX_expr p) ^ 2 + (BY_expr p - BCY_expr p) ^ 2 = RBC p ^ 2"
proof -
  have nz: "RAB p - RBC p \<noteq> 0"
    using assms(1) RAB_RBC_factor [of p] by auto
  have x: "BX_expr p - BCX_expr p = RBC p * BCX_expr p / (RAB p - RBC p)"
    using nz by (simp add: BX_expr_simp [OF assms(1)] field_simps)
  have y: "BY_expr p - BCY_expr p = RBC p * (BCY_expr p - L_sub p) / (RAB p - RBC p)"
    using nz by (simp add: BY_expr_simp [OF assms(1)] field_simps)
  have "(BX_expr p - BCX_expr p) ^ 2 + (BY_expr p - BCY_expr p) ^ 2
      = RBC p ^ 2 * (BCX_expr p ^ 2 + (BCY_expr p - L_sub p) ^ 2) / (RAB p - RBC p) ^ 2"
    unfolding x y
    by (simp add: power_mult_distrib power_divide add_divide_distrib distrib_left)
  also have "\<dots> = RBC p ^ 2"
    using nz by (simp add: BC_AB_circle [OF assms(2)])
  finally show ?thesis .
qed

lemma radicand_1_Delta: "radicand_1 p = Delta_spec p"
  by (simp add: radicand_1_def Delta_spec_def S_spec_def Let_def power_mult [symmetric])

lemma neg_quotient: "(n1::real) = - n2 \<Longrightarrow> n1 * k / d = - (n2 * k / d)"
  by simp

lemma AX_BX_expr: "AX_expr p = - BX_expr p"
  unfolding AX_expr_def BX_expr_def Let_def
  by (rule neg_quotient) (simp add: algebra_simps)

lemma AY_BY_expr: "AY_expr p = BY_expr p"
  by (simp add: AY_expr_def BY_expr_def)

subsection \<open>Algebra of step 2\<close>

lemma cdx_generic:
  fixes x y k q n :: real
  assumes "x \<noteq> 0" and "n \<noteq> 0" and n: "n = 8 * (x ^ 2 + y ^ 2)"
  shows "(k - 8 * y * ((y * k - x * q) / n)) / (8 * x) = (x * k + y * q) / n"
proof -
  have "(k - 8 * y * ((y * k - x * q) / n)) * n = k * n - 8 * y * (y * k - x * q)"
    using assms(2) by (simp add: left_diff_distrib)
  also have "\<dots> = (x * k + y * q) * (8 * x)"
    unfolding n by (simp add: algebra_simps power2_eq_square)
  finally show ?thesis
    using assms(1,2) by (simp add: frac_eq_eq)
qed

lemma sq_frac_combine:
  fixes a c n :: real
  shows "(a / n) ^ 2 + (c / n) ^ 2 = (a ^ 2 + c ^ 2) / n ^ 2"
  by (simp add: power_divide add_divide_distrib)

lemma norm_generic:
  fixes x y k q n e :: real
  assumes "n \<noteq> 0" and n: "n = 8 * (x ^ 2 + y ^ 2)"
    and kq: "k ^ 2 + q ^ 2 = 16 * (x ^ 2 + y ^ 2) * e ^ 2"
  shows "((x * k + y * q) / n) ^ 2 + ((y * k - x * q) / n) ^ 2 = (e / 2) ^ 2"
proof -
  have "(x * k + y * q) ^ 2 + (y * k - x * q) ^ 2 = (x ^ 2 + y ^ 2) * (k ^ 2 + q ^ 2)"
    by algebra
  also have "\<dots> = n ^ 2 * (e / 2) ^ 2"
    unfolding kq n by (simp add: power2_eq_square field_simps)
  finally have "((x * k + y * q) ^ 2 + (y * k - x * q) ^ 2) / n ^ 2 = (e / 2) ^ 2"
    using assms(1) by simp
  then show ?thesis
    unfolding sq_frac_combine .
qed

lemma frac_combine:
  fixes x y a c n :: real
  shows "x * (a / n) + y * (c / n) = (x * a + y * c) / n"
  by (simp add: add_divide_distrib)

lemma dot_generic:
  fixes x y k q n :: real
  assumes "n \<noteq> 0" and n: "n = 8 * (x ^ 2 + y ^ 2)"
  shows "x * ((x * k + y * q) / n) + y * ((y * k - x * q) / n) = k / 8"
proof -
  have "x * (x * k + y * q) + y * (y * k - x * q) = k * (n / 8)"
    unfolding n by (simp add: algebra_simps power2_eq_square)
  then have "(x * (x * k + y * q) + y * (y * k - x * q)) / n = k / 8"
    using assms(1) by simp
  then show ?thesis
    unfolding frac_combine .
qed

lemma dist_generic:
  fixes u v x y :: real
  shows "(u - x) ^ 2 + (v - y) ^ 2 = (u ^ 2 + v ^ 2) - 2 * (x * u + y * v) + (x ^ 2 + y ^ 2)"
  by algebra

lemma K_generic:
  fixes pd pld rbc rcd x y :: real
  shows "(pd / 2 - pld - rcd) ^ 2
         - 2 * ((4 * x ^ 2 + 4 * y ^ 2 + pd ^ 2 - 4 * pd * pld - 4 * pd * rcd
                  + 4 * pld ^ 2 + 8 * pld * rcd - 4 * rbc ^ 2 - 8 * rbc * rcd) / 8)
         + (x ^ 2 + y ^ 2) = (rbc + rcd) ^ 2"
  by (simp add: power2_eq_square field_simps)

lemma stage2_K:
  fixes pd pld rbc rcd x y q :: real
  assumes "q ^ 2 = - (4 * x ^ 2 + 4 * y ^ 2 - pd ^ 2 + 4 * pd * pld - 4 * pd * rbc - 4 * pld ^ 2
            + 8 * pld * rbc - 4 * rbc ^ 2)
         * (4 * x ^ 2 + 4 * y ^ 2 - pd ^ 2 + 4 * pd * pld + 4 * pd * rbc + 8 * pd * rcd
            - 4 * pld ^ 2 - 8 * pld * rbc - 16 * pld * rcd - 4 * rbc ^ 2 - 16 * rbc * rcd
            - 16 * rcd ^ 2)"
  shows "(4 * x ^ 2 + 4 * y ^ 2 + pd ^ 2 - 4 * pd * pld - 4 * pd * rcd
                  + 4 * pld ^ 2 + 8 * pld * rcd - 4 * rbc ^ 2 - 8 * rbc * rcd) ^ 2 + q ^ 2
         = 16 * (x ^ 2 + y ^ 2) * (pd - 2 * pld - 2 * rcd) ^ 2"
  using assms by algebra

lemma CDY_expr_simp:
  "CDY_expr p x y = (y * K_2 p x y - x * sqrt (radicand_2 p x y)) / (8 * (x ^ 2 + y ^ 2))"
  unfolding CDY_expr_def Let_def K_2_def
  by (simp add: diff_divide_distrib)

lemma denom_2_nz:
  fixes x y :: real
  assumes "x \<noteq> 0"
  shows "8 * (x ^ 2 + y ^ 2) \<noteq> 0"
proof -
  have "0 < x ^ 2" using assms by simp
  moreover have "0 \<le> y ^ 2" by simp
  ultimately have "0 < x ^ 2 + y ^ 2" by (rule add_pos_nonneg)
  then show ?thesis by simp
qed

lemma CDX_expr_simp:
  assumes "x \<noteq> 0"
  shows "CDX_expr p x y = (x * K_2 p x y + y * sqrt (radicand_2 p x y)) / (8 * (x ^ 2 + y ^ 2))"
proof -
  have "CDX_expr p x y = (K_2 p x y - 8 * y * CDY_expr p x y) / (8 * x)"
    unfolding CDX_expr_def Let_def K_2_def by simp
  also have "\<dots> = (x * K_2 p x y + y * sqrt (radicand_2 p x y)) / (8 * (x ^ 2 + y ^ 2))"
    unfolding CDY_expr_simp
    by (rule cdx_generic [OF assms denom_2_nz [OF assms] refl])
  finally show ?thesis .
qed

lemma K_2_sq:
  assumes "0 \<le> radicand_2 p x y"
  shows "K_2 p x y ^ 2 + sqrt (radicand_2 p x y) ^ 2
         = 16 * (x ^ 2 + y ^ 2) * (PD p - 2 * PLD p - 2 * RCD p) ^ 2"
proof -
  have q: "sqrt (radicand_2 p x y) ^ 2 = radicand_2 p x y"
    using assms by simp
  show ?thesis
    unfolding K_2_def
    by (rule stage2_K) (simp add: q, simp add: radicand_2_def Let_def)
qed

lemma CD_norm_sq:
  assumes "x \<noteq> 0" and "0 \<le> radicand_2 p x y"
  shows "CDX_expr p x y ^ 2 + CDY_expr p x y ^ 2 = (PD p / 2 - PLD p - RCD p) ^ 2"
proof -
  have "CDX_expr p x y ^ 2 + CDY_expr p x y ^ 2 = ((PD p - 2 * PLD p - 2 * RCD p) / 2) ^ 2"
    unfolding CDX_expr_simp [OF assms(1)] CDY_expr_simp
    by (rule norm_generic [OF denom_2_nz [OF assms(1)] refl K_2_sq [OF assms(2)]])
  also have "(PD p - 2 * PLD p - 2 * RCD p) / 2 = PD p / 2 - PLD p - RCD p"
    by (simp add: diff_divide_distrib)
  finally show ?thesis .
qed

lemma CD_dot_BC:
  assumes "x \<noteq> 0"
  shows "x * CDX_expr p x y + y * CDY_expr p x y = K_2 p x y / 8"
  unfolding CDX_expr_simp [OF assms(1)] CDY_expr_simp
  by (rule dot_generic [OF denom_2_nz [OF assms] refl])

lemma CD_BC_sq:
  assumes "x \<noteq> 0" and "0 \<le> radicand_2 p x y"
  shows "(CDX_expr p x y - x) ^ 2 + (CDY_expr p x y - y) ^ 2 = (RBC p + RCD p) ^ 2"
  unfolding dist_generic CD_norm_sq [OF assms] CD_dot_BC [OF assms(1)] K_2_def
  by (rule K_generic)

subsection \<open>The reflection without its arc sine\<close>

lemma abs_le_radius:
  fixes x y :: real
  shows "\<bar>x\<bar> \<le> sqrt (x ^ 2 + y ^ 2)"
proof -
  have "sqrt (x ^ 2) \<le> sqrt (x ^ 2 + y ^ 2)"
    by (rule real_sqrt_le_mono) simp
  then show ?thesis by simp
qed

lemma radius_pos:
  fixes x y :: real
  assumes "0 < x ^ 2 + y ^ 2"
  shows "0 < sqrt (x ^ 2 + y ^ 2)"
  using assms by simp

lemma ratio_in_range:
  fixes x y :: real
  assumes "0 < x ^ 2 + y ^ 2"
  shows "\<bar>x / sqrt (x ^ 2 + y ^ 2)\<bar> \<le> 1"
  using abs_le_radius [of x y] radius_pos [OF assms] by simp

lemma reflect_point_defined:
  assumes "0 < x ^ 2 + y ^ 2"
  shows "reflect_point x y theta =
     Some (- sqrt (x ^ 2 + y ^ 2) * sin (2 * theta + arcsin (x / sqrt (x ^ 2 + y ^ 2))),
           sqrt (x ^ 2 + y ^ 2) * cos (2 * theta + arcsin (x / sqrt (x ^ 2 + y ^ 2))))"
proof -
  have "sqrt (x ^ 2 + y ^ 2) \<noteq> 0"
    using radius_pos [OF assms] by linarith
  moreover have "\<not> 1 < \<bar>x / sqrt (x ^ 2 + y ^ 2)\<bar>"
    using ratio_in_range [OF assms] by simp
  ultimately show ?thesis
    unfolding reflect_point_def Let_def by simp
qed

lemma polar_norm:
  fixes r phi :: real
  shows "(- r * sin phi) ^ 2 + (r * cos phi) ^ 2 = r ^ 2"
proof -
  have "(- r * sin phi) ^ 2 + (r * cos phi) ^ 2 = r ^ 2 * (sin phi ^ 2 + cos phi ^ 2)"
    by algebra
  also have "\<dots> = r ^ 2"
    by simp
  finally show ?thesis .
qed

lemma one_minus_ratio_sq:
  fixes x r :: real
  assumes "0 < r"
  shows "1 - (x / r) ^ 2 = (r ^ 2 - x ^ 2) / r ^ 2"
  using assms by (simp add: power_divide diff_divide_distrib)

lemma cos_arcsin_ratio:
  fixes x y :: real
  assumes "0 < x ^ 2 + y ^ 2"
  shows "sqrt (x ^ 2 + y ^ 2) * cos (arcsin (x / sqrt (x ^ 2 + y ^ 2))) = \<bar>y\<bar>"
proof -
  let ?r = "sqrt (x ^ 2 + y ^ 2)"
  have r: "0 < ?r" using assms by simp
  have r2: "?r ^ 2 = x ^ 2 + y ^ 2" using assms by simp
  have u: "\<bar>x / ?r\<bar> \<le> 1" by (rule ratio_in_range [OF assms])
  have "cos (arcsin (x / ?r)) = sqrt (1 - (x / ?r) ^ 2)"
    using u by (intro cos_arcsin; linarith)
  also have "1 - (x / ?r) ^ 2 = (?r ^ 2 - x ^ 2) / ?r ^ 2"
    by (rule one_minus_ratio_sq [OF r])
  also have "\<dots> = y ^ 2 / ?r ^ 2"
    unfolding r2 by simp
  also have "sqrt (y ^ 2 / ?r ^ 2) = \<bar>y\<bar> / ?r"
    using r by (simp add: real_sqrt_divide)
  finally show ?thesis using r by simp
qed

lemma sin_arcsin_ratio:
  fixes x y :: real
  assumes "0 < x ^ 2 + y ^ 2"
  shows "sqrt (x ^ 2 + y ^ 2) * sin (arcsin (x / sqrt (x ^ 2 + y ^ 2))) = x"
proof -
  let ?r = "sqrt (x ^ 2 + y ^ 2)"
  have r: "0 < ?r" using assms by simp
  have u: "\<bar>x / ?r\<bar> \<le> 1" by (rule ratio_in_range [OF assms])
  have "sin (arcsin (x / ?r)) = x / ?r"
    using u by (intro sin_arcsin; linarith)
  then show ?thesis using r by simp
qed

text \<open>The reflected point is a rotation of \<open>(x, |y|)\<close>: the arc sine forgets the sign of \<open>y\<close>.\<close>

lemma reflect_point_rotation:
  assumes "0 < x ^ 2 + y ^ 2"
  shows "reflect_point x y theta =
     Some (- (\<bar>y\<bar> * sin (2 * theta) + x * cos (2 * theta)),
           \<bar>y\<bar> * cos (2 * theta) - x * sin (2 * theta))"
proof -
  let ?r = "sqrt (x ^ 2 + y ^ 2)" and ?a = "arcsin (x / sqrt (x ^ 2 + y ^ 2))"
  have c: "?r * cos ?a = \<bar>y\<bar>" by (rule cos_arcsin_ratio [OF assms])
  have s: "?r * sin ?a = x" by (rule sin_arcsin_ratio [OF assms])
  have "?r * sin (2 * theta + ?a) = sin (2 * theta) * (?r * cos ?a) + cos (2 * theta) * (?r * sin ?a)"
    by (simp add: sin_add algebra_simps)
  then have 1: "?r * sin (2 * theta + ?a) = \<bar>y\<bar> * sin (2 * theta) + x * cos (2 * theta)"
    unfolding c s by (simp add: mult.commute)
  have "?r * cos (2 * theta + ?a) = cos (2 * theta) * (?r * cos ?a) - sin (2 * theta) * (?r * sin ?a)"
    by (simp add: cos_add algebra_simps)
  then have 2: "?r * cos (2 * theta + ?a) = \<bar>y\<bar> * cos (2 * theta) - x * sin (2 * theta)"
    unfolding c s by (simp add: mult.commute)
  show ?thesis
    unfolding reflect_point_defined [OF assms] using 1 2 by simp
qed

lemma rotation_back:
  fixes x y s c :: real
  assumes "s ^ 2 + c ^ 2 = 1"
  shows "- ((y * c - x * s) * s + (- (y * s + x * c)) * c) = x"
    and "(y * c - x * s) * c - (- (y * s + x * c)) * s = y"
  using assms by algebra+

text \<open>A reflected point is at the distance of its source from the origin.\<close>

lemma reflect_point_Some_pos:
  assumes "reflect_point x y theta = Some q"
  shows "0 < x ^ 2 + y ^ 2"
proof (rule ccontr)
  assume "\<not> 0 < x ^ 2 + y ^ 2"
  then have "x ^ 2 + y ^ 2 = 0"
    using sum_power2_ge_zero [of x y] by linarith
  then have "reflect_point x y theta = None"
    unfolding reflect_point_def by (simp only: real_sqrt_zero simp_thms if_True)
  then show False
    using assms by simp
qed

lemma reflect_point_norm:
  assumes "reflect_point x y theta = Some (x', y')"
  shows "x' ^ 2 + y' ^ 2 = x ^ 2 + y ^ 2"
proof -
  have pos: "0 < x ^ 2 + y ^ 2"
    by (rule reflect_point_Some_pos [OF assms])
  then have r2: "sqrt (x ^ 2 + y ^ 2) ^ 2 = x ^ 2 + y ^ 2"
    by simp
  have "x' = - sqrt (x ^ 2 + y ^ 2) * sin (2 * theta + arcsin (x / sqrt (x ^ 2 + y ^ 2)))"
    "y' = sqrt (x ^ 2 + y ^ 2) * cos (2 * theta + arcsin (x / sqrt (x ^ 2 + y ^ 2)))"
    using assms unfolding reflect_point_defined [OF pos] by simp_all
  then have "x' ^ 2 + y' ^ 2 = sqrt (x ^ 2 + y ^ 2) ^ 2"
    by (simp only: polar_norm)
  then show ?thesis
    unfolding r2 .
qed

lemma reflected_norm:
  assumes "xo = Some x" and "yo = Some y"
    and "map_option fst (reflected xo yo ang) = Some x'"
    and "map_option snd (reflected xo yo ang) = Some y'"
  shows "x' ^ 2 + y' ^ 2 = x ^ 2 + y ^ 2"
proof -
  obtain theta where ang: "ang = Some theta"
    using assms(3) unfolding assms(1,2) reflected_def by (cases ang) simp_all
  have "reflect_point x y theta = Some (x', y')"
    using assms(3,4) unfolding assms(1,2) ang reflected_def by auto
  then show ?thesis
    by (rule reflect_point_norm)
qed

lemma reflected_pair_norm:
  assumes "xo = Some x \<and> yo = Some y \<and> map_option fst (reflected xo yo ang) = Some x'
    \<and> map_option snd (reflected xo yo ang) = Some y'"
  shows "x' ^ 2 + y' ^ 2 = x ^ 2 + y ^ 2"
  using assms by (elim conjE) (rule reflected_norm)

text \<open>Over the angle \<open>-pi/4\<close> the reflection swaps the coordinates of \<open>(x, |y|)\<close>.\<close>

lemma reflect_quarter:
  assumes "0 < x ^ 2 + y ^ 2"
  shows "reflect_point x y (- (pi / 4)) = Some (\<bar>y\<bar>, x)"
  unfolding reflect_point_rotation [OF assms] by simp

lemma reflected_quarter:
  assumes "0 < x ^ 2 + y ^ 2"
  shows "reflected (Some x) (Some y) (Some (- (pi / 4))) = Some (\<bar>y\<bar>, x)"
  by (simp add: reflected_def reflect_quarter [OF assms])

subsection \<open>Evaluation over the complex numbers\<close>

text \<open>Where the argument of the square root is not negative the value is the real expression.\<close>

lemma real_value_of_real: "real_value (Some (complex_of_real x)) = Some x"
  by (simp add: real_value_def)

lemma RBXY_cplx_real:
  assumes "0 \<le> radicand_1 p"
  shows "RBXY_cplx p = of_real (RBXY_expr p)"
  using assms by (simp add: RBXY_cplx_def RBXY_expr_def Let_def csqrt_of_real)

lemma BCX_cplx_real:
  assumes "0 \<le> radicand_1 p"
  shows "BCX_cplx p = of_real (BCX_expr p)"
  using assms by (simp add: BCX_cplx_def BCX_expr_def Let_def csqrt_of_real)

lemma BCY_cplx_real:
  assumes "0 \<le> radicand_1 p"
  shows "BCY_cplx p = of_real (BCY_expr p)"
  using assms by (simp add: BCY_cplx_def BCY_expr_def Let_def csqrt_of_real)

lemma AX_cplx_real:
  assumes "0 \<le> radicand_1 p"
  shows "AX_cplx p = of_real (AX_expr p)"
  using assms by (simp add: AX_cplx_def AX_expr_def Let_def csqrt_of_real)

lemma AY_cplx_real:
  assumes "0 \<le> radicand_1 p"
  shows "AY_cplx p = of_real (AY_expr p)"
  using assms by (simp add: AY_cplx_def AY_expr_def Let_def csqrt_of_real)

lemma BX_cplx_real:
  assumes "0 \<le> radicand_1 p"
  shows "BX_cplx p = of_real (BX_expr p)"
  using assms by (simp add: BX_cplx_def BX_expr_def Let_def csqrt_of_real)

lemma BY_cplx_real:
  assumes "0 \<le> radicand_1 p"
  shows "BY_cplx p = of_real (BY_expr p)"
  using assms by (simp add: BY_cplx_def BY_expr_def Let_def csqrt_of_real)

lemma CDY_cplx_real:
  assumes "0 \<le> radicand_2 p x y"
  shows "CDY_cplx p x y = of_real (CDY_expr p x y)"
  using assms by (simp add: CDY_cplx_def CDY_expr_def Let_def csqrt_of_real)

lemma CDX_cplx_real:
  assumes "0 \<le> radicand_2 p x y"
  shows "CDX_cplx p x y = of_real (CDX_expr p x y)"
  using assms by (simp add: CDX_cplx_def CDX_expr_def Let_def CDY_cplx_real)

text \<open>The expressions of step 1 over the complex numbers, reduced to that of \<open>RBXY\<close>.\<close>

lemma cos_squared_cplx:
  "complex_of_real (cos x) ^ 2 = 1 - complex_of_real (sin x) ^ 2"
  unfolding of_real_power [symmetric] cos_squared_eq by simp

lemma RBXY_cplx_eq:
  "RBXY_cplx p = complex_of_real (L_sub p - 2 * L_sub p * sin (b p / PD p) ^ 2)
                 + csqrt (complex_of_real (radicand_1 p))"
  by (simp add: RBXY_cplx_def Let_def L_sub_def)

lemma BCX_cplx_RBXY: "BCX_cplx p = - RBXY_cplx p * complex_of_real (sin (2 * b p / PD p))"
  by (simp add: BCX_cplx_def RBXY_cplx_def Let_def L_sub_def algebra_simps)

lemma BCY_cplx_RBXY: "BCY_cplx p = RBXY_cplx p * complex_of_real (cos (2 * b p / PD p))"
  by (simp add: BCY_cplx_def RBXY_cplx_def Let_def)

lemma RAB_RBC_factor_cplx:
  "complex_of_real (RAB p) ^ 2 - complex_of_real (RBC p) ^ 2
   = (complex_of_real (RAB p) + complex_of_real (RBC p)) * complex_of_real (RAB p - RBC p)"
  by (simp add: algebra_simps power2_eq_square)

lemma BX_cplx_simp:
  assumes "RAB p ^ 2 - RBC p ^ 2 \<noteq> 0"
  shows "BX_cplx p = complex_of_real (RAB p) * BCX_cplx p / complex_of_real (RAB p - RBC p)"
proof -
  have "RAB p + RBC p \<noteq> 0"
    using assms RAB_RBC_factor [of p] by auto
  then have nz: "complex_of_real (RAB p) + complex_of_real (RBC p) \<noteq> 0"
    unfolding of_real_add [symmetric] of_real_eq_0_iff .
  have L: "- complex_of_real (PD p) / 2 + complex_of_real (PLD p) - complex_of_real (RAB p)
           + complex_of_real (h p) = - complex_of_real (L_sub p)"
    by (simp add: L_sub_def)
  show ?thesis
    unfolding BX_cplx_def BCX_cplx_def Let_def BX_num_eq [OF cos_squared_cplx] L
      RAB_RBC_factor_cplx
    using nz by simp
qed

lemma BY_cplx_simp:
  assumes "RAB p ^ 2 - RBC p ^ 2 \<noteq> 0"
  shows "BY_cplx p = (complex_of_real (RAB p) * BCY_cplx p - complex_of_real (RBC p * L_sub p))
                     / complex_of_real (RAB p - RBC p)"
proof -
  have "RAB p + RBC p \<noteq> 0"
    using assms RAB_RBC_factor [of p] by auto
  then have nz: "complex_of_real (RAB p) + complex_of_real (RBC p) \<noteq> 0"
    unfolding of_real_add [symmetric] of_real_eq_0_iff .
  have L: "complex_of_real (PD p) / 2 - complex_of_real (PLD p) + complex_of_real (RAB p)
           - complex_of_real (h p) = complex_of_real (L_sub p)"
    by (simp add: L_sub_def)
  have c2: "complex_of_real (cos (2 * b p / PD p)) = 1 - 2 * complex_of_real (sin (b p / PD p)) ^ 2"
    using cos_double_sin [of "b p / PD p"] by simp
  show ?thesis
    unfolding BY_cplx_def BCY_cplx_def Let_def BY_num_eq [OF cos_squared_cplx] L
      RAB_RBC_factor_cplx c2
    using nz by simp
qed

lemma neg_quotient_cplx: "(n1::complex) = - n2 \<Longrightarrow> n1 * k / d = - (n2 * k / d)"
  by simp

lemma AX_cplx_BX: "AX_cplx p = - BX_cplx p"
  unfolding AX_cplx_def BX_cplx_def Let_def
  by (rule neg_quotient_cplx) (simp add: algebra_simps)

lemma AY_cplx_BY: "AY_cplx p = BY_cplx p"
  by (simp add: AY_cplx_def BY_cplx_def)

lemma csqrt_neg_real:
  assumes "r < 0"
  shows "csqrt (complex_of_real r) = Complex 0 (sqrt (- r))"
  using assms by (simp add: csqrt_of_real' complex_eq_iff)

lemma Im_csqrt_real: "Im (csqrt (complex_of_real r)) = 0 \<longleftrightarrow> 0 \<le> r"
  by (simp add: csqrt_of_real')

subsection \<open>Definedness of the named values\<close>

lemma stage1_values:
  assumes "PD p \<noteq> 0" and "0 \<le> radicand_1 p"
  shows "BCX p = Some (BCX_expr p)" "BCY p = Some (BCY_expr p)" "RBXY p = Some (RBXY_expr p)"
  using assms
  by (simp_all add: BCX_def BCY_def RBXY_def BCX_val_def BCY_val_def RBXY_val_def
      BCX_cplx_real BCY_cplx_real RBXY_cplx_real real_value_of_real)

lemma stage1_values_AB:
  assumes "PD p \<noteq> 0" and "0 \<le> radicand_1 p" and "RAB p ^ 2 - RBC p ^ 2 \<noteq> 0"
  shows "AX p = Some (AX_expr p)" "AY p = Some (AY_expr p)"
    "BX p = Some (BX_expr p)" "BY p = Some (BY_expr p)"
  using assms
  by (simp_all add: AX_def AY_def BX_def BY_def AX_val_def AY_val_def BX_val_def BY_val_def
      AX_cplx_real AY_cplx_real BX_cplx_real BY_cplx_real real_value_of_real)

lemma ABX_0: "ABX p = Some 0"
  by (simp add: ABX_def ABX_val_def real_value_def)

lemma ABY_val_L: "ABY_val p = Some (complex_of_real (L_sub p))"
  by (simp add: ABY_val_def L_sub_def)

lemma ABY_L: "ABY p = Some (L_sub p)"
  by (simp add: ABY_def ABY_val_L real_value_of_real)

lemma Im_RBXY_cplx: "Im (RBXY_cplx p) = Im (csqrt (complex_of_real (radicand_1 p)))"
  by (simp add: RBXY_cplx_eq)

lemma RBXY_Some:
  assumes "RBXY p = Some r"
  shows "PD p \<noteq> 0" "0 \<le> radicand_1 p" "r = RBXY_expr p"
proof -
  show pd: "PD p \<noteq> 0"
    using assms by (auto simp add: RBXY_def RBXY_val_def real_value_def)
  then have "Im (RBXY_cplx p) = 0"
    using assms by (simp add: RBXY_def RBXY_val_def real_value_def split: if_splits)
  then show r: "0 \<le> radicand_1 p"
    by (simp add: Im_RBXY_cplx Im_csqrt_real)
  show "r = RBXY_expr p"
    using assms stage1_values(3) [OF pd r] by simp
qed

lemma RBXY_cplx_neg:
  assumes "radicand_1 p < 0"
  shows "RBXY_cplx p = Complex (L_sub p - 2 * L_sub p * sin (b p / PD p) ^ 2)
                               (sqrt (- radicand_1 p))"
  unfolding RBXY_cplx_eq csqrt_neg_real [OF assms] by (simp add: complex_eq_iff)

lemma Im_RBXY_neg:
  assumes "radicand_1 p < 0"
  shows "Im (RBXY_cplx p) \<noteq> 0"
  using assms by (simp add: Im_RBXY_cplx Im_csqrt_real)

lemma real_value_scaled:
  assumes "Im z \<noteq> 0"
  shows "real_value (Some (z * complex_of_real k)) = (if k = 0 then Some 0 else None)"
  using assms by (simp add: real_value_def)

lemma sin_double_nonzero:
  assumes "radicand_1 p < 0"
  shows "sin (2 * b p / PD p) \<noteq> 0"
proof
  assume z: "sin (2 * b p / PD p) = 0"
  have "sin (2 * b p / PD p) = 2 * sin (b p / PD p) * cos (b p / PD p)"
    using sin_double [of "b p / PD p"] by simp
  then have "sin (b p / PD p) = 0 \<or> cos (b p / PD p) = 0"
    using z by simp
  then have "sin (b p / PD p) ^ 4 = sin (b p / PD p) ^ 2"
  proof
    assume "sin (b p / PD p) = 0"
    then show ?thesis by simp
  next
    assume "cos (b p / PD p) = 0"
    then have "sin (b p / PD p) ^ 2 = 1"
      using sin_cos_squared_add [of "b p / PD p"] by simp
    moreover have "sin (b p / PD p) ^ 4 = (sin (b p / PD p) ^ 2) ^ 2"
      by (simp add: power_mult [symmetric])
    ultimately show ?thesis by simp
  qed
  then have "radicand_1 p = (RAB p - RBC p) ^ 2"
    by (simp add: radicand_1_def Let_def power2_eq_square algebra_simps)
  then have "0 \<le> radicand_1 p"
    by simp
  then show False
    using assms by simp
qed

lemma stage1_nonreal:
  assumes "PD p \<noteq> 0" and "radicand_1 p < 0"
  shows "RBXY p = None" "BCX p = None"
    "BCY p = (if cos (2 * b p / PD p) = 0 then Some 0 else None)"
proof -
  note im = Im_RBXY_neg [OF assms(2)]
  show "RBXY p = None"
    using assms(1) im by (simp add: RBXY_def RBXY_val_def real_value_def)
  have "Im (- RBXY_cplx p) \<noteq> 0"
    using im by simp
  then show "BCX p = None"
    using assms(1) real_value_scaled [of "- RBXY_cplx p" "sin (2 * b p / PD p)"]
      sin_double_nonzero [OF assms(2)]
    by (simp add: BCX_def BCX_val_def BCX_cplx_RBXY)
  show "BCY p = (if cos (2 * b p / PD p) = 0 then Some 0 else None)"
    using assms(1) real_value_scaled [OF im, of "cos (2 * b p / PD p)"]
    by (simp add: BCY_def BCY_val_def BCY_cplx_RBXY)
qed

lemma BX_cplx_closed:
  assumes "RAB p ^ 2 - RBC p ^ 2 \<noteq> 0"
  shows "BX_cplx p = RBXY_cplx p
           * complex_of_real (- (RAB p * sin (2 * b p / PD p) / (RAB p - RBC p)))"
  unfolding BX_cplx_simp [OF assms] BCX_cplx_RBXY by simp

lemma BY_cplx_closed:
  assumes "RAB p ^ 2 - RBC p ^ 2 \<noteq> 0"
  shows "BY_cplx p = RBXY_cplx p
           * complex_of_real (RAB p * cos (2 * b p / PD p) / (RAB p - RBC p))
           + complex_of_real (RBC p * L_sub p / (RBC p - RAB p))"
proof -
  have nz: "RAB p - RBC p \<noteq> 0"
    using assms RAB_RBC_factor [of p] by auto
  then have nz': "complex_of_real (RAB p) - complex_of_real (RBC p) \<noteq> 0"
    unfolding of_real_diff [symmetric] of_real_eq_0_iff .
  have "RBC p * L_sub p / (RBC p - RAB p) = - (RBC p * L_sub p / (RAB p - RBC p))"
    using nz by (simp add: field_simps)
  then show ?thesis
    unfolding BY_cplx_simp [OF assms] BCY_cplx_RBXY using nz nz'
    by (simp add: diff_divide_distrib)
qed

lemma real_value_affine:
  assumes "Im z \<noteq> 0"
  shows "real_value (Some (z * complex_of_real k + complex_of_real m))
         = (if k = 0 then Some m else None)"
  using assms by (simp add: real_value_def)

lemma stage1_nonreal_AB:
  assumes "PD p \<noteq> 0" and "radicand_1 p < 0" and "RAB p ^ 2 - RBC p ^ 2 \<noteq> 0"
    and "RAB p \<noteq> 0"
  shows "BX p = None" "AX p = None"
    "BY p = (if cos (2 * b p / PD p) = 0 then Some (RBC p * L_sub p / (RBC p - RAB p))
             else None)"
    "AY p = (if cos (2 * b p / PD p) = 0 then Some (RBC p * L_sub p / (RBC p - RAB p))
             else None)"
proof -
  define k where "k = - (RAB p * sin (2 * b p / PD p) / (RAB p - RBC p))"
  define j where "j = RAB p * cos (2 * b p / PD p) / (RAB p - RBC p)"
  define m where "m = RBC p * L_sub p / (RBC p - RAB p)"
  note im = Im_RBXY_neg [OF assms(2)]
  have im': "Im (- RBXY_cplx p) \<noteq> 0"
    using im by simp
  have nz: "RAB p - RBC p \<noteq> 0"
    using assms(3) RAB_RBC_factor [of p] by auto
  have k: "k \<noteq> 0"
    using nz assms(4) sin_double_nonzero [OF assms(2)] by (simp add: k_def)
  have j: "j = 0 \<longleftrightarrow> cos (2 * b p / PD p) = 0"
    using nz assms(4) by (simp add: j_def)
  have v: "BX_val p = Some (BX_cplx p)" "AX_val p = Some (AX_cplx p)"
    "BY_val p = Some (BY_cplx p)" "AY_val p = Some (AY_cplx p)"
    using assms(1,3) by (simp_all add: BX_val_def AX_val_def BY_val_def AY_val_def)
  have bx: "BX_cplx p = RBXY_cplx p * complex_of_real k"
    unfolding k_def by (rule BX_cplx_closed [OF assms(3)])
  have ax: "AX_cplx p = - RBXY_cplx p * complex_of_real k"
    unfolding AX_cplx_BX bx by simp
  have byy: "BY_cplx p = RBXY_cplx p * complex_of_real j + complex_of_real m"
    unfolding j_def m_def by (rule BY_cplx_closed [OF assms(3)])
  show "BX p = None"
    unfolding BX_def v bx real_value_scaled [OF im] using k by simp
  show "AX p = None"
    unfolding AX_def v ax real_value_scaled [OF im'] using k by simp
  show "BY p = (if cos (2 * b p / PD p) = 0
      then Some (RBC p * L_sub p / (RBC p - RAB p)) else None)"
    unfolding BY_def v byy real_value_affine [OF im] j m_def ..
  show "AY p = (if cos (2 * b p / PD p) = 0
      then Some (RBC p * L_sub p / (RBC p - RAB p)) else None)"
    unfolding AY_def v AY_cplx_BY byy real_value_affine [OF im] j m_def ..
qed

lemma stage1_undefined_AB:
  assumes "RAB p ^ 2 - RBC p ^ 2 = 0"
  shows "AX_val p = None" "AY_val p = None" "BX_val p = None" "BY_val p = None"
    "AX p = None" "AY p = None" "BX p = None" "BY p = None"
  using assms
  by (simp_all add: AX_def AY_def BX_def BY_def AX_val_def AY_val_def BX_val_def BY_val_def
      real_value_def)

lemma CDY_cplx_form:
  "CDY_cplx p x y = csqrt (complex_of_real (radicand_2 p x y))
                      * complex_of_real (- x / (8 * (x ^ 2 + y ^ 2)))
                    + complex_of_real (y * K_2 p x y / (8 * (x ^ 2 + y ^ 2)))"
  by (simp add: CDY_cplx_def Let_def K_2_def)

lemma CDX_of_real:
  assumes "x \<noteq> 0" and "0 \<le> radicand_2 p x y"
  shows "CDX_of p x y = Some (CDX_expr p x y)"
  using assms denom_2_nz [OF assms(1), of y]
  by (simp add: CDX_of_def CDX_val_def CDX_cplx_real real_value_of_real)

lemma CDY_of_real:
  assumes "8 * (x ^ 2 + y ^ 2) \<noteq> 0" and "0 \<le> radicand_2 p x y"
  shows "CDY_of p x y = Some (CDY_expr p x y)"
  using assms by (simp add: CDY_of_def CDY_val_def CDY_cplx_real real_value_of_real)

lemma CDX_of_zero: "CDX_of p 0 y = None"
  by (simp add: CDX_of_def CDX_val_def real_value_def)

lemma CDY_of_Some:
  assumes "CDY_of p x y = Some cdy" and "x \<noteq> 0"
  shows "0 \<le> radicand_2 p x y"
proof (rule ccontr)
  assume "\<not> 0 \<le> radicand_2 p x y"
  then have im: "Im (csqrt (complex_of_real (radicand_2 p x y))) \<noteq> 0"
    by (simp add: Im_csqrt_real)
  have d: "8 * (x ^ 2 + y ^ 2) \<noteq> 0"
    by (rule denom_2_nz [OF assms(2)])
  then have "CDY_of p x y = real_value (Some (CDY_cplx p x y))"
    by (simp add: CDY_of_def CDY_val_def)
  also have "\<dots> = (if - x / (8 * (x ^ 2 + y ^ 2)) = 0
      then Some (y * K_2 p x y / (8 * (x ^ 2 + y ^ 2))) else None)"
    unfolding CDY_cplx_form by (rule real_value_affine [OF im])
  also have "\<dots> = None"
    using assms(2) d by simp
  finally show False
    using assms(1) by simp
qed

lemma stage2_values:
  assumes "BCX p = Some x" and "BCY p = Some y" and "CDX p = Some cdx" and "CDY p = Some cdy"
  shows "x \<noteq> 0 \<and> 0 \<le> radicand_2 p x y \<and> cdx = CDX_expr p x y \<and> cdy = CDY_expr p x y"
proof -
  have cx: "CDX_of p x y = Some cdx" and cy: "CDY_of p x y = Some cdy"
    using assms by (simp_all add: CDX_def CDY_def)
  have x: "x \<noteq> 0"
    using cx CDX_of_zero [of p y] by auto
  have r: "0 \<le> radicand_2 p x y"
    by (rule CDY_of_Some [OF cy x])
  show ?thesis
    using x r cx cy CDX_of_real [OF x r] CDY_of_real [OF denom_2_nz [OF x] r] by simp
qed

lemma res_1_sol_closed:
  assumes "PD p \<noteq> 0"
  shows "res_1_sol p =
     (if RAB p ^ 2 - RBC p ^ 2 = 0 then [None, None, None, None]
      else [Some (- BX_cplx p), Some (BY_cplx p), Some (BX_cplx p), Some (BY_cplx p)])
     @ [Some 0, Some (complex_of_real (L_sub p)), Some (BCX_cplx p), Some (BCY_cplx p),
        Some (RBXY_cplx p)]"
  using assms
  by (simp add: res_1_sol_def AX_val_def AY_val_def BX_val_def BY_val_def ABX_val_def
      ABY_val_L BCX_val_def BCY_val_def RBXY_val_def AX_cplx_BX AY_cplx_BY)

lemma RBXY_cplx_spec:
  "RBXY_cplx p = complex_of_real (L_sub p - 2 * L_sub p * S_spec p)
                 + csqrt (complex_of_real (Delta_spec p))"
  unfolding RBXY_cplx_eq radicand_1_Delta S_spec_def ..

lemma sq_diff_zero:
  fixes x y :: real
  assumes "0 < x" and "0 < y"
  shows "x ^ 2 - y ^ 2 = 0 \<longleftrightarrow> x = y"
  using assms by (simp add: power2_eq_iff)

subsection \<open>Distances and norms of the named values\<close>

lemma dist2_from_sq:
  assumes "(x1 - x2) ^ 2 + (y1 - y2) ^ 2 = r ^ 2"
  shows "dist2 x1 y1 x2 y2 = \<bar>r\<bar>"
  by (simp add: dist2_def assms)

lemma radii_differ:
  assumes "0 < RAB p" and "0 < RBC p" and "RAB p \<noteq> RBC p"
  shows "RAB p ^ 2 - RBC p ^ 2 \<noteq> 0"
  using assms by (simp add: power2_eq_iff)

lemma BCX_RBXY: "BCX_expr p = - RBXY_expr p * sin (2 * b p / PD p)"
  by (simp add: BCX_expr_def RBXY_expr_def Let_def algebra_simps)

lemma BCY_RBXY: "BCY_expr p = RBXY_expr p * cos (2 * b p / PD p)"
  by (simp add: BCY_expr_def RBXY_expr_def Let_def)

lemma BC_norm:
  assumes "BCX p = Some bcx" and "BCY p = Some bcy" and "RBXY p = Some r"
  shows "bcx ^ 2 + bcy ^ 2 = r ^ 2"
proof -
  note bc = stage1_values(1,2) [OF RBXY_Some(1,2) [OF assms(3)]]
  have v: "bcx = BCX_expr p" "bcy = BCY_expr p" "r = RBXY_expr p"
    using assms(1,2) bc RBXY_Some(3) [OF assms(3)] by simp_all
  show ?thesis
    unfolding v BCX_RBXY BCY_RBXY by (rule polar_norm)
qed

lemma CDR_Some:
  assumes "CDR p = Some cdr"
  shows "\<exists>cdx cdy. CDX p = Some cdx \<and> CDY p = Some cdy \<and> cdr = CDR_of cdx cdy"
proof (cases "CDX p")
  case None
  then show ?thesis using assms by (simp add: CDR_def)
next
  case x: (Some cdx)
  show ?thesis
  proof (cases "CDY p")
    case None
    then show ?thesis using assms x by (simp add: CDR_def)
  next
    case (Some cdy)
    then show ?thesis using assms x by (simp add: CDR_def)
  qed
qed

subsection \<open>Distances along a line\<close>

lemma sqrt_scale:
  fixes k u v :: real
  shows "sqrt ((k * u) ^ 2 + (k * v) ^ 2) = \<bar>k\<bar> * sqrt (u ^ 2 + v ^ 2)"
proof -
  have "(k * u) ^ 2 + (k * v) ^ 2 = k ^ 2 * (u ^ 2 + v ^ 2)"
    by algebra
  then show ?thesis
    by (simp add: real_sqrt_mult)
qed

lemma dist2_along:
  fixes k x1 y1 x2 y2 :: real
  shows "dist2 (x1 + k * (x2 - x1)) (y1 + k * (y2 - y1)) x1 y1 = \<bar>k\<bar> * dist2 x2 y2 x1 y1"
  unfolding dist2_def using sqrt_scale [of k "x2 - x1" "y2 - y1"] by simp

lemma dist2_sym: "dist2 x1 y1 x2 y2 = dist2 x2 y2 x1 y1"
  unfolding dist2_def by (simp add: power2_commute)

lemma dist2_origin_scale:
  fixes k u v :: real
  shows "dist2 (k * u) (k * v) 0 0 = \<bar>k\<bar> * CDR_of u v"
  unfolding dist2_def CDR_of_def using sqrt_scale [of k u v] by simp

lemma dist2_ray:
  fixes k u v :: real
  shows "dist2 (k * u) (k * v) u v = \<bar>k - 1\<bar> * CDR_of u v"
proof -
  have "k * u - u = (k - 1) * u" "k * v - v = (k - 1) * v"
    by (simp_all add: algebra_simps)
  then show ?thesis
    unfolding dist2_def CDR_of_def using sqrt_scale [of "k - 1" u v] by simp
qed

lemma TANG_subs_PD:
  assumes "P p \<noteq> 0" and "t p \<noteq> 0"
  shows "TANG (subs_PD p) = Some (- pi / t p)"
  using assms by (simp add: TANG_def subs_PD_def PD_sub_def)

subsection \<open>Values at the rational parameter sets\<close>

lemma sqrt_25: "sqrt 25 = 5"
  by (rule real_sqrt_unique) simp_all

lemma sqrt_9216: "sqrt 9216 = 96"
  by (rule real_sqrt_unique) simp_all

lemma sqrt_16: "sqrt 16 = 4"
  by (rule real_sqrt_unique) simp_all

lemma fixture_345_1:
  "L_sub fixture_345 = 0" "radicand_1 fixture_345 = 25"
  "BCX_expr fixture_345 = - 5" "BCY_expr fixture_345 = 0" "RBXY_expr fixture_345 = 5"
  by (simp_all add: fixture_345_def L_sub_def radicand_1_def BCX_expr_def BCY_expr_def
      RBXY_expr_def sqrt_25)

lemma fixture_345_defined: "PD fixture_345 \<noteq> 0" "0 \<le> radicand_1 fixture_345"
  by (simp_all add: fixture_345_1) (simp add: fixture_345_def)

lemma fixture_345_BC: "BCX fixture_345 = Some (- 5)" "BCY fixture_345 = Some 0"
  using stage1_values(1,2) [OF fixture_345_defined] by (simp_all add: fixture_345_1)

lemma fixture_345_rad2: "radicand_2 fixture_345 (- 5) 0 = 9216"
  by (simp add: radicand_2_def fixture_345_def)

lemma fixture_345_CD: "CDX fixture_345 = Some (- (16 / 5))" "CDY fixture_345 = Some (12 / 5)"
proof -
  have x: "- 5 \<noteq> (0::real)"
    by simp
  have r: "0 \<le> radicand_2 fixture_345 (- 5) 0"
    by (simp add: fixture_345_rad2)
  show "CDX fixture_345 = Some (- (16 / 5))" "CDY fixture_345 = Some (12 / 5)"
    unfolding CDX_def CDY_def fixture_345_BC
    by (simp_all add: CDX_of_real [OF x r] CDY_of_real [OF denom_2_nz [OF x] r] fixture_345_rad2
        CDX_expr_def CDY_expr_def sqrt_9216) (simp_all add: fixture_345_def)
qed

lemma fixture_345_valid:
  "0 < RAB fixture_345" "0 < RBC fixture_345" "0 < RCD fixture_345"
  "RAB fixture_345 \<noteq> RBC fixture_345" "PD fixture_345 \<noteq> 0"
  by (simp_all add: fixture_345_def)

lemma fixture_deep_1:
  "L_sub fixture_deep = 0" "radicand_1 fixture_deep = 25"
  "BCX_expr fixture_deep = - 5" "BCY_expr fixture_deep = 0" "RBXY_expr fixture_deep = 5"
  by (simp_all add: fixture_deep_def L_sub_def radicand_1_def BCX_expr_def BCY_expr_def
      RBXY_expr_def sqrt_25)

lemma fixture_deep_defined: "PD fixture_deep \<noteq> 0" "0 \<le> radicand_1 fixture_deep"
  by (simp_all add: fixture_deep_1) (simp add: fixture_deep_def)

lemma fixture_deep_BC: "BCX fixture_deep = Some (- 5)" "BCY fixture_deep = Some 0"
  using stage1_values(1,2) [OF fixture_deep_defined] by (simp_all add: fixture_deep_1)

lemma fixture_deep_rad2: "radicand_2 fixture_deep (- 5) 0 = 9216"
  by (simp add: radicand_2_def fixture_deep_def)

lemma fixture_deep_CD: "CDX fixture_deep = Some (- (16 / 5))" "CDY fixture_deep = Some (12 / 5)"
proof -
  have x: "- 5 \<noteq> (0::real)"
    by simp
  have r: "0 \<le> radicand_2 fixture_deep (- 5) 0"
    by (simp add: fixture_deep_rad2)
  show "CDX fixture_deep = Some (- (16 / 5))" "CDY fixture_deep = Some (12 / 5)"
    unfolding CDX_def CDY_def fixture_deep_BC
    by (simp_all add: CDX_of_real [OF x r] CDY_of_real [OF denom_2_nz [OF x] r] fixture_deep_rad2
        CDX_expr_def CDY_expr_def sqrt_9216) (simp_all add: fixture_deep_def)
qed

lemma dist2_345: "dist2 (- (16 / 5)) (12 / 5) 0 0 = 4"
proof -
  have "(- (16 / 5) - 0) ^ 2 + (12 / 5 - 0) ^ 2 = (16::real)"
    by (simp add: power2_eq_square)
  then show ?thesis
    unfolding dist2_def by (simp only: sqrt_16)
qed

lemma fixture_345_B: "BX fixture_345 = Some (- 6)" "BY fixture_345 = Some 0"
proof -
  have nz: "RAB fixture_345 ^ 2 - RBC fixture_345 ^ 2 \<noteq> 0"
    by (simp add: fixture_345_def)
  have "BX_expr fixture_345 = - 6" "BY_expr fixture_345 = 0"
    unfolding BX_expr_simp [OF nz] BY_expr_simp [OF nz] fixture_345_1
    by (simp_all add: fixture_345_def)
  then show "BX fixture_345 = Some (- 6)" "BY fixture_345 = Some 0"
    using stage1_values_AB(3,4) [OF fixture_345_defined nz] by simp_all
qed

lemma CDR_345: "CDR_of (- (16 / 5)) (12 / 5) = 4"
  using dist2_345 by (simp add: dist2_def CDR_of_def)

lemma fixture_345_CDR: "CDR fixture_345 = Some 4"
  by (simp add: CDR_def fixture_345_CD CDR_345)

lemma fixture_345_C: "CX fixture_345 = Some (- (22 / 5))" "CY fixture_345 = Some (4 / 5)"
  by (simp_all add: CX_def CY_def fixture_345_CD fixture_345_BC CX_of_def CY_of_def)
     (simp_all add: fixture_345_def)

lemma fixture_345_D: "DX fixture_345 = Some (- (24 / 5))" "DY fixture_345 = Some (18 / 5)"
  by (simp_all add: DX_def DY_def fixture_345_CD fixture_345_CDR DX_of_def DY_of_def)
     (simp_all add: fixture_345_def)

lemma fixture_345_TANG: "TANG fixture_345 = Some (- (pi / 4))"
  by (simp add: TANG_def fixture_345_def)

lemma fixture_345_reflected:
  "EX_val fixture_345 = Some (18 / 5)" "EY fixture_345 = Some (- (24 / 5))"
  "FX fixture_345 = Some (4 / 5)" "FY fixture_345 = Some (- (22 / 5))"
  "EFX fixture_345 = Some (12 / 5)" "EFY fixture_345 = Some (- (16 / 5))"
  "GX fixture_345 = Some 0" "GY fixture_345 = Some (- 6)"
  "FGX fixture_345 = Some 0" "FGY fixture_345 = Some (- 5)"
  unfolding EX_val_def EY_def FX_def FY_def EFX_def EFY_def GX_def GY_def FGX_def FGY_def
    fixture_345_D fixture_345_C fixture_345_CD fixture_345_B fixture_345_BC fixture_345_TANG
  using reflected_quarter [of "- (24 / 5)" "18 / 5"] reflected_quarter [of "- (22 / 5)" "4 / 5"]
    reflected_quarter [of "- (16 / 5)" "12 / 5"] reflected_quarter [of "- 6" 0]
    reflected_quarter [of "- 5" 0]
  by (simp_all add: power2_eq_square)

lemma fixture_neg_1:
  "radicand_1 fixture_neg = 1" "BCX_expr fixture_neg = 0" "BCY_expr fixture_neg = 8"
  "RBXY_expr fixture_neg = - 8"
  by (simp_all add: fixture_neg_def L_sub_def radicand_1_def BCX_expr_def BCY_expr_def
      RBXY_expr_def)

lemma fixture_neg_defined: "PD fixture_neg \<noteq> 0" "0 \<le> radicand_1 fixture_neg"
  by (simp_all add: fixture_neg_1) (simp add: fixture_neg_def)

lemma fixture_neg_reflect: "reflect_point 0 8 (- (pi / 2)) = Some (0, - 8)"
  using reflect_point_rotation [of 0 8 "- (pi / 2)"] by simp

lemma dist2_CD_BC_345: "dist2 (- (16 / 5)) (12 / 5) (- 5) 0 = 3"
proof -
  have "(- (16 / 5) - (- 5)) ^ 2 + (12 / 5 - 0) ^ 2 = (3::real) ^ 2"
    by (simp add: power2_eq_square)
  then show ?thesis
    using dist2_from_sq by fastforce
qed

lemma sin_45_powers: "sin (pi / 4) ^ 2 = 1 / 2" "sin (pi / 4) ^ 4 = 1 / 4"
proof -
  show 2: "sin (pi / 4) ^ 2 = 1 / 2"
    by (simp add: sin_45 power_divide)
  have "sin (pi / 4) ^ 4 = (sin (pi / 4) ^ 2) ^ 2"
    by (simp add: power_mult [symmetric])
  then show "sin (pi / 4) ^ 4 = 1 / 4"
    unfolding 2 by (simp add: power2_eq_square)
qed

lemma fixture_equal_1:
  "L_sub fixture_equal = 1" "radicand_1 fixture_equal = 0"
  "BCX_expr fixture_equal = 0" "BCY_expr fixture_equal = 1" "RBXY_expr fixture_equal = 1"
  by (simp_all add: fixture_equal_def L_sub_def radicand_1_def BCX_expr_def BCY_expr_def
      RBXY_expr_def)

lemma fixture_no_root_1:
  "L_sub fixture_no_root = 2" "radicand_1 fixture_no_root = - 3"
  by (simp_all add: fixture_no_root_def L_sub_def radicand_1_def sin_45_powers)

lemma csqrt_25: "csqrt 25 = 5"
  by (rule csqrt_unique) simp_all

lemma fixture_345_Delta: "Delta_spec fixture_345 = 25" "S_spec fixture_345 = 1 / 2"
proof -
  show "Delta_spec fixture_345 = 25"
    unfolding radicand_1_Delta [symmetric] by (rule fixture_345_1)
  have "S_spec fixture_345 = sin (pi / 4) ^ 2"
    by (simp add: S_spec_def fixture_345_def)
  also have "\<dots> = 1 / 2"
    by (simp add: sin_45 power_divide)
  finally show "S_spec fixture_345 = 1 / 2" .
qed

lemma fixture_345_angle:
  "sin (2 * b fixture_345 / PD fixture_345) = 1"
  "cos (2 * b fixture_345 / PD fixture_345) = 0"
  by (simp_all add: fixture_345_def)

lemma fixture_no_root_angle:
  "sin (2 * b fixture_no_root / PD fixture_no_root) = 1"
  "cos (2 * b fixture_no_root / PD fixture_no_root) = 0"
  "sin (b fixture_no_root / PD fixture_no_root) ^ 2 = 1 / 2"
  using sin_45_powers(1) by (simp_all add: fixture_no_root_def)

lemma fixture_no_root_Delta: "Delta_spec fixture_no_root = - 3" "S_spec fixture_no_root = 1 / 2"
  unfolding radicand_1_Delta [symmetric] S_spec_def
  by (simp_all add: fixture_no_root_1 fixture_no_root_angle)

lemma fixture_no_root_cplx:
  "RBXY_cplx fixture_no_root = Complex 0 (sqrt 3)"
  "BCX_cplx fixture_no_root = Complex 0 (- sqrt 3)"
  "BCY_cplx fixture_no_root = 0"
  "BX_cplx fixture_no_root = Complex 0 (sqrt 3)"
  "BY_cplx fixture_no_root = 4"
proof -
  have neg: "radicand_1 fixture_no_root < 0"
    by (simp add: fixture_no_root_1)
  have nz: "RAB fixture_no_root ^ 2 - RBC fixture_no_root ^ 2 \<noteq> 0"
    by (simp add: fixture_no_root_def)
  show r: "RBXY_cplx fixture_no_root = Complex 0 (sqrt 3)"
    unfolding RBXY_cplx_neg [OF neg] fixture_no_root_angle fixture_no_root_1 by simp
  show x: "BCX_cplx fixture_no_root = Complex 0 (- sqrt 3)"
    unfolding BCX_cplx_RBXY r fixture_no_root_angle by (simp add: complex_eq_iff)
  show y: "BCY_cplx fixture_no_root = 0"
    unfolding BCY_cplx_RBXY r fixture_no_root_angle by simp
  show "BX_cplx fixture_no_root = Complex 0 (sqrt 3)"
    unfolding BX_cplx_simp [OF nz] x by (simp add: fixture_no_root_def complex_eq_iff)
  show "BY_cplx fixture_no_root = 4"
    unfolding BY_cplx_simp [OF nz] y fixture_no_root_1 by (simp add: fixture_no_root_def)
qed

lemma fixture_no_root_sol:
  "res_1_sol fixture_no_root =
     [Some (Complex 0 (- sqrt 3)), Some 4, Some (Complex 0 (sqrt 3)), Some 4,
      Some 0, Some 2, Some (Complex 0 (- sqrt 3)), Some 0, Some (Complex 0 (sqrt 3))]"
proof -
  have pd: "PD fixture_no_root \<noteq> 0"
    by (simp add: fixture_no_root_def)
  have nz: "RAB fixture_no_root ^ 2 - RBC fixture_no_root ^ 2 \<noteq> 0"
    by (simp add: fixture_no_root_def)
  show ?thesis
    unfolding res_1_sol_closed [OF pd] fixture_no_root_cplx fixture_no_root_1
    using nz by (simp add: complex_eq_iff)
qed

lemma fixture_equal_sol:
  "res_1_sol fixture_equal = [None, None, None, None, Some 0, Some 1, Some 0, Some 1, Some 1]"
proof -
  have pd: "PD fixture_equal \<noteq> 0"
    by (simp add: fixture_equal_def)
  have z: "RAB fixture_equal ^ 2 - RBC fixture_equal ^ 2 = 0"
    by (simp add: fixture_equal_def)
  have r: "0 \<le> radicand_1 fixture_equal"
    by (simp add: fixture_equal_1)
  show ?thesis
    unfolding res_1_sol_closed [OF pd] BCX_cplx_real [OF r] BCY_cplx_real [OF r]
      RBXY_cplx_real [OF r] fixture_equal_1
    using z by simp
qed

lemma fixture_no_root_names:
  "AX fixture_no_root = None" "AY fixture_no_root = Some 4"
  "BX fixture_no_root = None" "BY fixture_no_root = Some 4"
  "BCX fixture_no_root = None" "BCY fixture_no_root = Some 0" "RBXY fixture_no_root = None"
proof -
  have pd: "PD fixture_no_root \<noteq> 0"
    by (simp add: fixture_no_root_def)
  have nz: "RAB fixture_no_root ^ 2 - RBC fixture_no_root ^ 2 \<noteq> 0"
    "RAB fixture_no_root \<noteq> 0"
    by (simp_all add: fixture_no_root_def)
  have neg: "radicand_1 fixture_no_root < 0"
    by (simp add: fixture_no_root_1)
  have m: "RBC fixture_no_root * L_sub fixture_no_root
           / (RBC fixture_no_root - RAB fixture_no_root) = 4"
    unfolding fixture_no_root_1 by (simp add: fixture_no_root_def)
  show "AX fixture_no_root = None" "AY fixture_no_root = Some 4"
    "BX fixture_no_root = None" "BY fixture_no_root = Some 4"
    unfolding stage1_nonreal_AB [OF pd neg nz] fixture_no_root_angle m by simp_all
  show "BCX fixture_no_root = None" "BCY fixture_no_root = Some 0"
    "RBXY fixture_no_root = None"
    unfolding stage1_nonreal [OF pd neg] fixture_no_root_angle by simp_all
qed

subsection \<open>Enclosures: Taylor polynomials and interval arithmetic\<close>

lemma sin_poly_9:
  fixes x :: real
  shows "(\<Sum>m<9. sin_coeff m * x ^ m) = x - x ^ 3 / 6 + x ^ 5 / 120 - x ^ 7 / 5040"
  by (simp add: lessThan_nat_numeral sin_coeff_def fact_numeral)

lemma cos_poly_9:
  fixes x :: real
  shows "(\<Sum>m<9. cos_coeff m * x ^ m)
     = 1 - x ^ 2 / 2 + x ^ 4 / 24 - x ^ 6 / 720 + x ^ 8 / 40320"
  by (simp add: lessThan_nat_numeral cos_coeff_def fact_numeral)

lemma fact_9: "fact 9 = (362880 :: real)"
  by (simp add: fact_numeral)

lemma sin_enclosure:
  fixes x l u :: real
  assumes "0 \<le> x"
    and "l \<le> x - x ^ 3 / 6 + x ^ 5 / 120 - x ^ 7 / 5040 - x ^ 9 / 362880"
    and "x - x ^ 3 / 6 + x ^ 5 / 120 - x ^ 7 / 5040 + x ^ 9 / 362880 \<le> u"
  shows "l \<le> sin x \<and> sin x \<le> u"
proof -
  have "\<bar>sin x - (\<Sum>m<9. sin_coeff m * x ^ m)\<bar> \<le> inverse (fact 9) * \<bar>x\<bar> ^ 9"
    by (rule Maclaurin_sin_bound)
  also have "inverse (fact 9) * \<bar>x\<bar> ^ 9 = x ^ 9 / 362880"
    using assms(1) by (simp add: fact_9 inverse_eq_divide)
  finally have "\<bar>sin x - (\<Sum>m<9. sin_coeff m * x ^ m)\<bar> \<le> x ^ 9 / 362880" .
  then show ?thesis
    unfolding sin_poly_9 using assms(2,3) by linarith
qed

lemma cos_enclosure:
  fixes x l u :: real
  assumes "0 \<le> x"
    and "l \<le> 1 - x ^ 2 / 2 + x ^ 4 / 24 - x ^ 6 / 720 + x ^ 8 / 40320 - x ^ 9 / 362880"
    and "1 - x ^ 2 / 2 + x ^ 4 / 24 - x ^ 6 / 720 + x ^ 8 / 40320 + x ^ 9 / 362880 \<le> u"
  shows "l \<le> cos x \<and> cos x \<le> u"
proof -
  obtain t where t: "cos x = (\<Sum>m<9. cos_coeff m * x ^ m)
      + (cos (t + 1 / 2 * real 9 * pi) / fact 9) * x ^ 9"
    using Maclaurin_cos_expansion [of x 9] by blast
  define r where "r = cos (t + 1 / 2 * real 9 * pi)"
  have r: "- 1 \<le> r" "r \<le> 1"
    unfolding r_def by simp_all
  have e: "0 \<le> x ^ 9 / 362880"
    using assms(1) by simp
  have "(r / fact 9) * x ^ 9 = r * (x ^ 9 / 362880)"
    by (simp add: fact_9)
  moreover have "- (x ^ 9 / 362880) \<le> r * (x ^ 9 / 362880)"
    using mult_right_mono [OF r(1) e] by simp
  moreover have "r * (x ^ 9 / 362880) \<le> x ^ 9 / 362880"
    using mult_right_mono [OF r(2) e] by simp
  ultimately show ?thesis
    using t assms(2,3) unfolding cos_poly_9 r_def [symmetric] by linarith
qed

lemma interval_mult:
  fixes a b c d l u x y :: real
  assumes x: "a \<le> x \<and> x \<le> b" and y: "c \<le> y \<and> y \<le> d"
    and l: "l \<le> a * c \<and> l \<le> a * d \<and> l \<le> b * c \<and> l \<le> b * d"
    and u: "a * c \<le> u \<and> a * d \<le> u \<and> b * c \<le> u \<and> b * d \<le> u"
  shows "l \<le> x * y \<and> x * y \<le> u"
proof -
  have ay: "l \<le> a * y \<and> a * y \<le> u"
  proof (cases "0 \<le> a")
    case True
    then have "a * c \<le> a * y" "a * y \<le> a * d"
      using y by (simp_all add: mult_left_mono)
    then show ?thesis using l u by linarith
  next
    case False
    then have "a * d \<le> a * y" "a * y \<le> a * c"
      using y by (simp_all add: mult_left_mono_neg)
    then show ?thesis using l u by linarith
  qed
  have by': "l \<le> b * y \<and> b * y \<le> u"
  proof (cases "0 \<le> b")
    case True
    then have "b * c \<le> b * y" "b * y \<le> b * d"
      using y by (simp_all add: mult_left_mono)
    then show ?thesis using l u by linarith
  next
    case False
    then have "b * d \<le> b * y" "b * y \<le> b * c"
      using y by (simp_all add: mult_left_mono_neg)
    then show ?thesis using l u by linarith
  qed
  show ?thesis
  proof (cases "0 \<le> y")
    case True
    then have "a * y \<le> x * y" "x * y \<le> b * y"
      using x by (simp_all add: mult_right_mono)
    then show ?thesis using ay by' by linarith
  next
    case False
    then have "b * y \<le> x * y" "x * y \<le> a * y"
      using x by (simp_all add: mult_right_mono_neg)
    then show ?thesis using ay by' by linarith
  qed
qed

lemma interval_inverse:
  fixes a b l u x :: real
  assumes x: "a \<le> x \<and> x \<le> b" and a: "0 < a" and l: "l * b \<le> 1" and u: "1 \<le> u * a"
  shows "l \<le> 1 / x \<and> 1 / x \<le> u"
proof -
  have xp: "0 < x" and bp: "0 < b"
    using x a by linarith+
  have "l \<le> 1 / b"
    using l bp by (simp add: pos_le_divide_eq)
  moreover have "1 / b \<le> 1 / x"
    using x xp by (simp add: frac_le)
  moreover have "1 / x \<le> 1 / a"
    using x a by (simp add: frac_le)
  moreover have "1 / a \<le> u"
    using u a by (simp add: pos_divide_le_eq)
  ultimately show ?thesis by linarith
qed

lemma interval_sqrt:
  fixes a b l u x :: real
  assumes x: "a \<le> x \<and> x \<le> b" and l: "0 \<le> l \<and> l * l \<le> a" and u: "0 \<le> u \<and> b \<le> u * u"
  shows "l \<le> sqrt x \<and> sqrt x \<le> u"
proof -
  have "l ^ 2 \<le> x"
    using x l by (simp add: power2_eq_square)
  then have 1: "l \<le> sqrt x"
    by (rule real_le_rsqrt)
  have "x \<le> u ^ 2"
    using x u by (simp add: power2_eq_square)
  then have 2: "sqrt x \<le> u"
    using u by (intro real_le_lsqrt) simp_all
  show ?thesis using 1 2 by simp
qed

text \<open>Ten times an angle, by doubling, doubling, adding and doubling.\<close>

lemma tenfold_angle:
  fixes x s c s2 c2 s4 c4 s5 c5 :: real
  assumes "s = sin x" and "c = cos x"
    and "s2 = 2 * (s * c)" and "c2 = 1 - 2 * (s * s)"
    and "s4 = 2 * (s2 * c2)" and "c4 = 1 - 2 * (s2 * s2)"
    and "s5 = s4 * c + c4 * s" and "c5 = c4 * c - s4 * s"
  shows "sin (10 * x) = 2 * (s5 * c5)" and "cos (10 * x) = 1 - 2 * (s5 * s5)"
proof -
  have s2: "s2 = sin (2 * x)" and c2: "c2 = cos (2 * x)"
    unfolding assms(1-4) by (simp_all add: sin_double cos_double_sin power2_eq_square)
  have s4: "s4 = sin (4 * x)" and c4: "c4 = cos (4 * x)"
    unfolding assms(5,6) s2 c2
    using sin_double [of "2 * x"] cos_double_sin [of "2 * x"]
    by (simp_all add: power2_eq_square)
  have s5: "s5 = sin (5 * x)" and c5: "c5 = cos (5 * x)"
    unfolding assms(7,8) s4 c4 assms(1,2)
    using sin_add [of "4 * x" x] cos_add [of "4 * x" x] by simp_all
  show "sin (10 * x) = 2 * (s5 * c5)" and "cos (10 * x) = 1 - 2 * (s5 * s5)"
    unfolding s5 c5 using sin_double [of "5 * x"] cos_double_sin [of "5 * x"]
    by (simp_all add: power2_eq_square)
qed

subsection \<open>The expressions over sums and products\<close>

lemma sin_2b: "sin (2 * b p / PD p) = 2 * (sin (b p / PD p) * cos (b p / PD p))"
  using sin_double [of "b p / PD p"] by simp

lemma cos_2b: "cos (2 * b p / PD p) = 1 - 2 * (sin (b p / PD p) * sin (b p / PD p))"
  using cos_double_sin [of "b p / PD p"] by (simp add: power2_eq_square)

lemma radicand_1_shape:
  "radicand_1 p = (RAB p - RBC p) ^ 2
     + 4 * L_sub p ^ 2 * ((sin (b p / PD p) * sin (b p / PD p))
                          * (sin (b p / PD p) * sin (b p / PD p)))
     - 4 * L_sub p ^ 2 * (sin (b p / PD p) * sin (b p / PD p))"
  by (simp add: radicand_1_def Let_def power2_eq_square power4_eq_xxxx algebra_simps)

lemma RBXY_shape:
  "RBXY_expr p = L_sub p - 2 * L_sub p * (sin (b p / PD p) * sin (b p / PD p))
     + sqrt (radicand_1 p)"
  by (simp add: RBXY_expr_def Let_def L_sub_def power2_eq_square)

lemma BCX_shape:
  "BCX_expr p = - 2 * (RBXY_expr p * (sin (b p / PD p) * cos (b p / PD p)))"
  unfolding BCX_RBXY sin_2b by simp

lemma BCY_shape:
  "BCY_expr p = RBXY_expr p - 2 * (RBXY_expr p * (sin (b p / PD p) * sin (b p / PD p)))"
  unfolding BCY_RBXY cos_2b by (simp add: algebra_simps)

lemma radicand_2_shape:
  "radicand_2 p x y = - 16 * ((x ^ 2 + y ^ 2) * (x ^ 2 + y ^ 2))
     + 4 * ((PD p - 2 * PLD p + 2 * RBC p) ^ 2 + (PD p - 2 * PLD p - 2 * RBC p - 4 * RCD p) ^ 2)
       * (x ^ 2 + y ^ 2)
     - (PD p - 2 * PLD p + 2 * RBC p) ^ 2 * (PD p - 2 * PLD p - 2 * RBC p - 4 * RCD p) ^ 2"
  unfolding radicand_2_def Let_def by algebra

lemma K_2_shape:
  "K_2 p x y = 4 * (x ^ 2 + y ^ 2)
     + ((PD p - 2 * PLD p - 2 * RCD p) ^ 2 - 4 * (RBC p + RCD p) ^ 2)"
  unfolding K_2_def by algebra

lemma CDR_of_radius:
  assumes "x \<noteq> 0" and "0 \<le> radicand_2 p x y"
  shows "CDR_of (CDX_expr p x y) (CDY_expr p x y) = \<bar>PD p / 2 - PLD p - RCD p\<bar>"
  unfolding CDR_of_def CD_norm_sq [OF assms] by simp

subsection \<open>The reference evaluation\<close>

lemma ref_fields:
  "RAB reference = 111 / 200" "RBC reference = 1" "RCD reference = 3 / 20"
  "h reference = 3 / 4" "PLD reference = 127 / 500" "P reference = 2"
  "PD reference = 39788735773 / 6250000000" "L_sub reference = 34176235773 / 12500000000"
  by (simp_all add: reference_def L_sub_def)

lemma ref_theta: "b reference / PD reference = 2500000000 / 39788735773"
  by (simp add: reference_def)

lemma ref_TANG: "TANG reference = Some (- (10 * (b reference / PD reference)) / 2)"
  by (simp add: TANG_def reference_def)

lemma enclosedI: "v = Some x \<Longrightarrow> lo \<le> x \<and> x \<le> hi \<Longrightarrow> enclosed v lo hi"
  by (simp add: enclosed_def)

lemma enclosedE:
  assumes "enclosed v lo hi"
  obtains x where "v = Some x" and "lo \<le> x \<and> x \<le> hi"
  using assms by (cases v) (simp_all add: enclosed_def)

lemma abs_enclosed:
  fixes x c e lo hi :: real
  assumes "lo \<le> x \<and> x \<le> hi" and "c - e \<le> lo" and "hi \<le> c + e"
  shows "\<bar>x - c\<bar> \<le> e"
  using assms by linarith

lemma enclosed_agrees:
  assumes "enclosed v lo hi" and "c - 5 / 10 ^ 10 \<le> lo" and "hi \<le> c + 5 / 10 ^ 10"
  shows "agrees v c"
proof -
  obtain x where x: "v = Some x" "lo \<le> x \<and> x \<le> hi"
    using assms(1) by (rule enclosedE)
  have "\<bar>x - c\<bar> \<le> 5 / 10 ^ 10"
    using x(2) assms(2,3) by (rule abs_enclosed)
  then show ?thesis
    by (simp add: agrees_def x(1))
qed

lemma ref_angles:
  shows "627905195292720 / 10000000000000000 \<le> sin (b reference / PD reference)
      \<and> sin (b reference / PD reference) \<le> 627905195292722 / 10000000000000000"
    and "9980267284282741 / 10000000000000000 \<le> cos (b reference / PD reference)
      \<and> cos (b reference / PD reference) \<le> 9980267284282742 / 10000000000000000"
    and "5877852522921358 / 10000000000000000 \<le> sin (10 * (b reference / PD reference))
      \<and> sin (10 * (b reference / PD reference)) \<le> 5877852522921408 / 10000000000000000"
    and "8090169943751892 / 10000000000000000 \<le> cos (10 * (b reference / PD reference))
      \<and> cos (10 * (b reference / PD reference)) \<le> 8090169943751922 / 10000000000000000"
proof -
  define s0 where "s0 = sin (b reference / PD reference)"
  define c0 where "c0 = cos (b reference / PD reference)"
  have s0: "627905195292720 / 10000000000000000 \<le> s0
      \<and> s0 \<le> 627905195292722 / 10000000000000000"
    unfolding s0_def ref_theta by (rule sin_enclosure) (simp_all add: power_divide)
  have c0: "9980267284282741 / 10000000000000000 \<le> c0
      \<and> c0 \<le> 9980267284282742 / 10000000000000000"
    unfolding c0_def ref_theta by (rule cos_enclosure) (simp_all add: power_divide)
  define ss where "ss = s0 * s0"
  have ss: "39426493427558 / 10000000000000000 \<le> ss
      \<and> ss \<le> 39426493427560 / 10000000000000000"
    unfolding ss_def by (rule interval_mult [OF s0 s0]) simp_all
  define sc where "sc = s0 * c0"
  have sc: "626666167821109 / 10000000000000000 \<le> sc
      \<and> sc \<le> 626666167821112 / 10000000000000000"
    unfolding sc_def by (rule interval_mult [OF s0 c0]) simp_all
  define s2a where "s2a = 2 * sc"
  have s2a: "1253332335642218 / 10000000000000000 \<le> s2a
      \<and> s2a \<le> 1253332335642224 / 10000000000000000"
    unfolding s2a_def using sc by linarith
  define c2a where "c2a = 1 - 2 * ss"
  have c2a: "9921147013144880 / 10000000000000000 \<le> c2a
      \<and> c2a \<le> 9921147013144884 / 10000000000000000"
    unfolding c2a_def using ss by linarith
  define p1 where "p1 = s2a * c2a"
  have p1: "1243449435823468 / 10000000000000000 \<le> p1
      \<and> p1 \<le> 1243449435823476 / 10000000000000000"
    unfolding p1_def by (rule interval_mult [OF s2a c2a]) simp_all
  define p2 where "p2 = s2a * s2a"
  have p2: "157084194356637 / 10000000000000000 \<le> p2
      \<and> p2 \<le> 157084194356640 / 10000000000000000"
    unfolding p2_def by (rule interval_mult [OF s2a s2a]) simp_all
  define s4a where "s4a = 2 * p1"
  have s4a: "2486898871646936 / 10000000000000000 \<le> s4a
      \<and> s4a \<le> 2486898871646952 / 10000000000000000"
    unfolding s4a_def using p1 by linarith
  define c4a where "c4a = 1 - 2 * p2"
  have c4a: "9685831611286720 / 10000000000000000 \<le> c4a
      \<and> c4a \<le> 9685831611286726 / 10000000000000000"
    unfolding c4a_def using p2 by linarith
  define p3 where "p3 = s4a * c0"
  have p3: "2481991544801757 / 10000000000000000 \<le> p3
      \<and> p3 \<le> 2481991544801775 / 10000000000000000"
    unfolding p3_def by (rule interval_mult [OF s4a c0]) simp_all
  define p4 where "p4 = c4a * s0"
  have p4: "608178398945738 / 10000000000000000 \<le> p4
      \<and> p4 \<le> 608178398945742 / 10000000000000000"
    unfolding p4_def by (rule interval_mult [OF c4a s0]) simp_all
  define p5 where "p5 = c4a * c0"
  have p5: "9666718835119643 / 10000000000000000 \<le> p5
      \<and> p5 \<le> 9666718835119651 / 10000000000000000"
    unfolding p5_def by (rule interval_mult [OF c4a c0]) simp_all
  define p6 where "p6 = s4a * s0"
  have p6: "156153672167471 / 10000000000000000 \<le> p6
      \<and> p6 \<le> 156153672167473 / 10000000000000000"
    unfolding p6_def by (rule interval_mult [OF s4a s0]) simp_all
  define s5a where "s5a = p3 + p4"
  have s5a: "3090169943747495 / 10000000000000000 \<le> s5a
      \<and> s5a \<le> 3090169943747517 / 10000000000000000"
    unfolding s5a_def using p3 p4 by linarith
  define c5a where "c5a = p5 - p6"
  have c5a: "9510565162952170 / 10000000000000000 \<le> c5a
      \<and> c5a \<le> 9510565162952180 / 10000000000000000"
    unfolding c5a_def using p5 p6 by linarith
  define p7 where "p7 = s5a * c5a"
  have p7: "2938926261460679 / 10000000000000000 \<le> p7
      \<and> p7 \<le> 2938926261460704 / 10000000000000000"
    unfolding p7_def by (rule interval_mult [OF s5a c5a]) simp_all
  define p8 where "p8 = s5a * s5a"
  have p8: "954915028124039 / 10000000000000000 \<le> p8
      \<and> p8 \<le> 954915028124054 / 10000000000000000"
    unfolding p8_def by (rule interval_mult [OF s5a s5a]) simp_all
  define st where "st = 2 * p7"
  have st: "5877852522921358 / 10000000000000000 \<le> st
      \<and> st \<le> 5877852522921408 / 10000000000000000"
    unfolding st_def using p7 by linarith
  define ct where "ct = 1 - 2 * p8"
  have ct: "8090169943751892 / 10000000000000000 \<le> ct
      \<and> ct \<le> 8090169943751922 / 10000000000000000"
    unfolding ct_def using p8 by linarith
  note ten = tenfold_angle [of s0 "b reference / PD reference" c0 s2a c2a s4a c4a s5a c5a]
  have eq: "sin (10 * (b reference / PD reference)) = st"
    "cos (10 * (b reference / PD reference)) = ct"
    unfolding st_def ct_def p7_def p8_def
    by (rule ten; simp add: s0_def c0_def s2a_def c2a_def s4a_def c4a_def s5a_def c5a_def
        sc_def ss_def p1_def p2_def p3_def p4_def p5_def p6_def)+
  show "627905195292720 / 10000000000000000 \<le> sin (b reference / PD reference)
      \<and> sin (b reference / PD reference) \<le> 627905195292722 / 10000000000000000"
    using s0 unfolding s0_def .
  show "9980267284282741 / 10000000000000000 \<le> cos (b reference / PD reference)
      \<and> cos (b reference / PD reference) \<le> 9980267284282742 / 10000000000000000"
    using c0 unfolding c0_def .
  show "5877852522921358 / 10000000000000000 \<le> sin (10 * (b reference / PD reference))
      \<and> sin (10 * (b reference / PD reference)) \<le> 5877852522921408 / 10000000000000000"
    using st unfolding eq .
  show "8090169943751892 / 10000000000000000 \<le> cos (10 * (b reference / PD reference))
      \<and> cos (10 * (b reference / PD reference)) \<le> 8090169943751922 / 10000000000000000"
    using ct unfolding eq .
qed

lemma ref_stage1:
  shows "enclosed (RBXY reference) (29964409011360090 / 10000000000000000)
      (29964409011360262 / 10000000000000000)"
    and "enclosed (BCX reference) (- (3755536273234708 / 10000000000000000))
      (- (3755536273234666 / 10000000000000000))"
    and "enclosed (BCY reference) (29728130696370666 / 10000000000000000)
      (29728130696370854 / 10000000000000000)"
    and "enclosed (AX reference) (- (4683871082348906 / 10000000000000000))
      (- (4683871082348853 / 10000000000000000))"
    and "enclosed (BX reference) (4683871082348853 / 10000000000000000)
      (4683871082348906 / 10000000000000000)"
    and "enclosed (BY reference) (24363766476211631 / 10000000000000000)
      (24363766476211866 / 10000000000000000)"
proof -
  define s0 where "s0 = sin (b reference / PD reference)"
  define c0 where "c0 = cos (b reference / PD reference)"
  have s0: "627905195292720 / 10000000000000000 \<le> s0
      \<and> s0 \<le> 627905195292722 / 10000000000000000"
    using ref_angles(1) unfolding s0_def .
  have c0: "9980267284282741 / 10000000000000000 \<le> c0
      \<and> c0 \<le> 9980267284282742 / 10000000000000000"
    using ref_angles(2) unfolding c0_def .
  define ss where "ss = s0 * s0"
  have ss: "39426493427558 / 10000000000000000 \<le> ss
      \<and> ss \<le> 39426493427560 / 10000000000000000"
    unfolding ss_def by (rule interval_mult [OF s0 s0]) simp_all
  define sc where "sc = s0 * c0"
  have sc: "626666167821109 / 10000000000000000 \<le> sc
      \<and> sc \<le> 626666167821112 / 10000000000000000"
    unfolding sc_def by (rule interval_mult [OF s0 c0]) simp_all
  define s4 where "s4 = ss * ss"
  have s4: "155444838399 / 10000000000000000 \<le> s4
      \<and> s4 \<le> 155444838400 / 10000000000000000"
    unfolding s4_def by (rule interval_mult [OF ss ss]) simp_all
  define rad where "rad = 7921 / 40000 + (1168015091611684907529 / 39062500000000000000) * s4 - (1168015091611684907529 / 39062500000000000000) * ss"
  have rad: "805999058161771 / 10000000000000000 \<le> rad
      \<and> rad \<le> 805999058161861 / 10000000000000000"
    unfolding rad_def using s4 ss by linarith
  have rad_eq: "radicand_1 reference = rad"
    unfolding radicand_1_shape rad_def s4_def ss_def s0_def
    by (simp add: ref_fields power2_eq_square)
  define w1 where "w1 = sqrt rad"
  have w1: "2839012254573359 / 10000000000000000 \<le> w1
      \<and> w1 \<le> 2839012254573519 / 10000000000000000"
    unfolding w1_def by (rule interval_sqrt [OF rad]) simp_all
  define rxy where "rxy = 34176235773 / 12500000000 - (34176235773 / 6250000000) * ss + w1"
  have rxy: "29964409011360090 / 10000000000000000 \<le> rxy
      \<and> rxy \<le> 29964409011360262 / 10000000000000000"
    unfolding rxy_def using ss w1 by linarith
  have rxy_eq: "RBXY_expr reference = rxy"
    unfolding RBXY_shape rxy_def w1_def rad_eq ss_def s0_def
    by (simp add: ref_fields)
  define rsc where "rsc = rxy * sc"
  have rsc: "1877768136617333 / 10000000000000000 \<le> rsc
      \<and> rsc \<le> 1877768136617354 / 10000000000000000"
    unfolding rsc_def by (rule interval_mult [OF rxy sc]) simp_all
  define rss where "rss = rxy * ss"
  have rss: "118139157494704 / 10000000000000000 \<le> rss
      \<and> rss \<le> 118139157494712 / 10000000000000000"
    unfolding rss_def by (rule interval_mult [OF rxy ss]) simp_all
  define bcx where "bcx = - 2 * rsc"
  have bcx: "- (3755536273234708 / 10000000000000000) \<le> bcx
      \<and> bcx \<le> - (3755536273234666 / 10000000000000000)"
    unfolding bcx_def using rsc by linarith
  define bcy where "bcy = rxy - 2 * rss"
  have bcy: "29728130696370666 / 10000000000000000 \<le> bcy
      \<and> bcy \<le> 29728130696370854 / 10000000000000000"
    unfolding bcy_def using rxy rss by linarith
  have bcx_eq: "BCX_expr reference = bcx"
    unfolding BCX_shape rxy_eq bcx_def rsc_def sc_def s0_def c0_def by simp
  have bcy_eq: "BCY_expr reference = bcy"
    unfolding BCY_shape rxy_eq bcy_def rss_def ss_def s0_def by simp
  define bx where "bx = - (111 / 89) * bcx"
  have bx: "4683871082348853 / 10000000000000000 \<le> bx
      \<and> bx \<le> 4683871082348906 / 10000000000000000"
    unfolding bx_def using bcx by linarith
  define byy where "byy = 34176235773 / 5562500000 - (111 / 89) * bcy"
  have byy: "24363766476211631 / 10000000000000000 \<le> byy
      \<and> byy \<le> 24363766476211866 / 10000000000000000"
    unfolding byy_def using bcy by linarith
  define ax where "ax = - bx"
  have ax: "- (4683871082348906 / 10000000000000000) \<le> ax
      \<and> ax \<le> - (4683871082348853 / 10000000000000000)"
    unfolding ax_def using bx by linarith
  have nz: "RAB reference ^ 2 - RBC reference ^ 2 \<noteq> 0"
    by (simp add: ref_fields power2_eq_square)
  have bx_eq: "BX_expr reference = bx"
    unfolding BX_expr_simp [OF nz] bcx_eq bx_def by (simp add: ref_fields field_simps)
  have by_eq: "BY_expr reference = byy"
    unfolding BY_expr_simp [OF nz] bcy_eq byy_def by (simp add: ref_fields field_simps)
  have ax_eq: "AX_expr reference = ax"
    unfolding AX_BX_expr bx_eq ax_def by simp
  have pd: "PD reference \<noteq> 0"
    by (simp add: ref_fields)
  have r0: "0 \<le> radicand_1 reference"
    unfolding rad_eq using rad by linarith
  note v = stage1_values [OF pd r0] stage1_values_AB [OF pd r0 nz]
  show "enclosed (RBXY reference) (29964409011360090 / 10000000000000000)
      (29964409011360262 / 10000000000000000)"
    using v(3) rxy unfolding rxy_eq by (rule enclosedI)
  show "enclosed (BCX reference) (- (3755536273234708 / 10000000000000000))
      (- (3755536273234666 / 10000000000000000))"
    using v(1) bcx unfolding bcx_eq by (rule enclosedI)
  show "enclosed (BCY reference) (29728130696370666 / 10000000000000000)
      (29728130696370854 / 10000000000000000)"
    using v(2) bcy unfolding bcy_eq by (rule enclosedI)
  show "enclosed (AX reference) (- (4683871082348906 / 10000000000000000))
      (- (4683871082348853 / 10000000000000000))"
    using v(4) ax unfolding ax_eq by (rule enclosedI)
  show "enclosed (BX reference) (4683871082348853 / 10000000000000000)
      (4683871082348906 / 10000000000000000)"
    using v(6) bx unfolding bx_eq by (rule enclosedI)
  show "enclosed (BY reference) (24363766476211631 / 10000000000000000)
      (24363766476211866 / 10000000000000000)"
    using v(7) byy unfolding by_eq by (rule enclosedI)
qed

lemma ref_stage2:
  shows "enclosed (CDX reference) (7364746897738814 / 10000000000000000)
      (7364746897739514 / 10000000000000000)"
    and "enclosed (CDY reference) (26797379564432407 / 10000000000000000)
      (26797379564433152 / 10000000000000000)"
    and "enclosed (CX reference) (5914275179785745 / 10000000000000000)
      (5914275179786361 / 10000000000000000)"
    and "enclosed (CY reference) (27179651451206962 / 10000000000000000)
      (27179651451207635 / 10000000000000000)"
    and "enclosed (DX reference) (7762254179624212 / 10000000000000000)
      (7762254179624950 / 10000000000000000)"
    and "enclosed (DY reference) (28243750181130633 / 10000000000000000)
      (28243750181131420 / 10000000000000000)"
proof -
  obtain r where r_eq: "RBXY reference = Some r"
    and r: "29964409011360090 / 10000000000000000 \<le> r
      \<and> r \<le> 29964409011360262 / 10000000000000000"
    using ref_stage1(1) by (rule enclosedE)
  obtain bcx where bcx_eq: "BCX reference = Some bcx"
    and bcx: "- (3755536273234708 / 10000000000000000) \<le> bcx
      \<and> bcx \<le> - (3755536273234666 / 10000000000000000)"
    using ref_stage1(2) by (rule enclosedE)
  obtain bcy where bcy_eq: "BCY reference = Some bcy"
    and bcy: "29728130696370666 / 10000000000000000 \<le> bcy
      \<and> bcy \<le> 29728130696370854 / 10000000000000000"
    using ref_stage1(3) by (rule enclosedE)
  have n2: "bcx ^ 2 + bcy ^ 2 = r * r"
    using BC_norm [OF bcx_eq bcy_eq r_eq] by (simp add: power2_eq_square)
  define rr where "rr = r * r"
  have rr: "89786580740007776 / 10000000000000000 \<le> rr
      \<and> rr \<le> 89786580740008808 / 10000000000000000"
    unfolding rr_def by (rule interval_mult [OF r r]) simp_all
  define rr2 where "rr2 = rr * rr"
  have rr2: "806163008098193530 / 10000000000000000 \<le> rr2
      \<and> rr2 \<le> 806163008098212063 / 10000000000000000"
    unfolding rr2_def by (rule interval_mult [OF rr rr]) simp_all
  define kk where "kk = 1000139138106309907529 / 39062500000000000000 + 4 * rr"
  have kk: "615181942315246440 / 10000000000000000 \<le> kk
      \<and> kk \<le> 615181942315250569 / 10000000000000000"
    unfolding kk_def using rr by linarith
  define rad2 where "rad2 = - (1000278295572032442565129336442824530885841 / 1525878906250000000000000000000000000000) - 16 * rr2 + (1413420388106309907529 / 4882812500000000000) * rr"
  have rad2: "6536354474045944911 / 10000000000000000 \<le> rad2
      \<and> rad2 \<le> 6536354474046540172 / 10000000000000000"
    unfolding rad2_def using rr2 rr by linarith
  have kk_eq: "K_2 reference bcx bcy = kk"
    unfolding K_2_shape n2 kk_def rr_def by (simp add: ref_fields power2_eq_square)
  have rad2_eq: "radicand_2 reference bcx bcy = rad2"
    unfolding radicand_2_shape n2 rad2_def rr2_def rr_def
    by (simp add: ref_fields power2_eq_square)
  define q2 where "q2 = sqrt rad2"
  have q2: "255662951442831170 / 10000000000000000 \<le> q2
      \<and> q2 \<le> 255662951442842813 / 10000000000000000"
    unfolding q2_def by (rule interval_sqrt [OF rad2]) simp_all
  define xk where "xk = bcx * kk"
  have xk: "- (231033809900390524 / 10000000000000000) \<le> xk
      \<and> xk \<le> - (231033809900386389 / 10000000000000000)"
    unfolding xk_def by (rule interval_mult [OF bcx kk]) simp_all
  define yq where "yq = bcy * q2"
  have yq: "760038163471235235 / 10000000000000000 \<le> yq
      \<and> yq \<le> 760038163471274655 / 10000000000000000"
    unfolding yq_def by (rule interval_mult [OF bcy q2]) simp_all
  define yk where "yk = bcy * kk"
  have yk: "1828820918319480603 / 10000000000000000 \<le> yk
      \<and> yk \<le> 1828820918319504444 / 10000000000000000"
    unfolding yk_def by (rule interval_mult [OF bcy kk]) simp_all
  define xq where "xq = bcx * q2"
  have xq: "- (96015148786584002 / 10000000000000000) \<le> xq
      \<and> xq \<le> - (96015148786578554 / 10000000000000000)"
    unfolding xq_def by (rule interval_mult [OF bcx q2]) simp_all
  define iv where "iv = 1 / rr"
  have iv: "1113752179622094 / 10000000000000000 \<le> iv
      \<and> iv \<le> 1113752179622108 / 10000000000000000"
    unfolding iv_def by (rule interval_inverse [OF rr]) simp_all
  define nx where "nx = xk + yq"
  have nx: "529004353570844711 / 10000000000000000 \<le> nx
      \<and> nx \<le> 529004353570888266 / 10000000000000000"
    unfolding nx_def using xk yq by linarith
  define ny where "ny = yk - xq"
  have ny: "1924836067106059157 / 10000000000000000 \<le> ny
      \<and> ny \<le> 1924836067106088446 / 10000000000000000"
    unfolding ny_def using yk xq by linarith
  define cdx8 where "cdx8 = nx * iv"
  have cdx8: "58917975181910516 / 10000000000000000 \<le> cdx8
      \<and> cdx8 \<le> 58917975181916108 / 10000000000000000"
    unfolding cdx8_def by (rule interval_mult [OF nx iv]) simp_all
  define cdy8 where "cdy8 = ny * iv"
  have cdy8: "214379036515459257 / 10000000000000000 \<le> cdy8
      \<and> cdy8 \<le> 214379036515465215 / 10000000000000000"
    unfolding cdy8_def by (rule interval_mult [OF ny iv]) simp_all
  define cdx where "cdx = (1 / 8) * cdx8"
  have cdx: "7364746897738814 / 10000000000000000 \<le> cdx
      \<and> cdx \<le> 7364746897739514 / 10000000000000000"
    unfolding cdx_def using cdx8 by linarith
  define cdy where "cdy = (1 / 8) * cdy8"
  have cdy: "26797379564432407 / 10000000000000000 \<le> cdy
      \<and> cdy \<le> 26797379564433152 / 10000000000000000"
    unfolding cdy_def using cdy8 by linarith
  define cx where "cx = (20 / 23) * cdx + (3 / 23) * bcx"
  have cx: "5914275179785745 / 10000000000000000 \<le> cx
      \<and> cx \<le> 5914275179786361 / 10000000000000000"
    unfolding cx_def using cdx bcx by linarith
  define cy where "cy = (20 / 23) * cdy + (3 / 23) * bcy"
  have cy: "27179651451206962 / 10000000000000000 \<le> cy
      \<and> cy \<le> 27179651451207635 / 10000000000000000"
    unfolding cy_def using cdy bcy by linarith
  define dx where "dx = (12204578591 / 11579578591) * cdx"
  have dx: "7762254179624212 / 10000000000000000 \<le> dx
      \<and> dx \<le> 7762254179624950 / 10000000000000000"
    unfolding dx_def using cdx by linarith
  define dy where "dy = (12204578591 / 11579578591) * cdy"
  have dy: "28243750181130633 / 10000000000000000 \<le> dy
      \<and> dy \<le> 28243750181131420 / 10000000000000000"
    unfolding dy_def using cdy by linarith
  have x0: "bcx \<noteq> 0"
    using bcx by linarith
  have r2: "0 \<le> radicand_2 reference bcx bcy"
    unfolding rad2_eq using rad2 by linarith
  have d0: "8 * (bcx ^ 2 + bcy ^ 2) \<noteq> 0"
    by (rule denom_2_nz [OF x0])
  have "CDX_expr reference bcx bcy = cdx"
    unfolding CDX_expr_simp [OF x0] kk_eq rad2_eq n2
    by (simp add: cdx_def cdx8_def nx_def xk_def yq_def iv_def q2_def rr_def)
  then have cdx_eq: "CDX reference = Some cdx"
    by (simp add: CDX_def bcx_eq bcy_eq CDX_of_real [OF x0 r2])
  have "CDY_expr reference bcx bcy = cdy"
    unfolding CDY_expr_simp kk_eq rad2_eq n2
    by (simp add: cdy_def cdy8_def ny_def yk_def xq_def iv_def q2_def rr_def)
  then have cdy_eq: "CDY reference = Some cdy"
    by (simp add: CDY_def bcx_eq bcy_eq CDY_of_real [OF d0 r2])
  have cx_eq: "CX reference = Some cx"
    by (simp add: CX_def cdx_eq bcx_eq CX_of_def ref_fields cx_def field_simps)
  have cy_eq: "CY reference = Some cy"
    by (simp add: CY_def cdy_eq bcy_eq CY_of_def ref_fields cy_def field_simps)
  have "CDR_of cdx cdy = 34738735773 / 12500000000"
    using CDR_of_radius [OF x0 r2] \<open>CDX_expr reference bcx bcy = cdx\<close>
      \<open>CDY_expr reference bcx bcy = cdy\<close> by (simp add: ref_fields)
  then have cdr_eq: "CDR reference = Some (34738735773 / 12500000000)"
    by (simp add: CDR_def cdx_eq cdy_eq)
  have dx_eq: "DX reference = Some dx"
    by (simp add: DX_def cdx_eq cdr_eq DX_of_def ref_fields dx_def field_simps)
  have dy_eq: "DY reference = Some dy"
    by (simp add: DY_def cdy_eq cdr_eq DY_of_def ref_fields dy_def)
  show "enclosed (CDX reference) (7364746897738814 / 10000000000000000)
      (7364746897739514 / 10000000000000000)"
    using cdx_eq cdx by (rule enclosedI)
  show "enclosed (CDY reference) (26797379564432407 / 10000000000000000)
      (26797379564433152 / 10000000000000000)"
    using cdy_eq cdy by (rule enclosedI)
  show "enclosed (CX reference) (5914275179785745 / 10000000000000000)
      (5914275179786361 / 10000000000000000)"
    using cx_eq cx by (rule enclosedI)
  show "enclosed (CY reference) (27179651451206962 / 10000000000000000)
      (27179651451207635 / 10000000000000000)"
    using cy_eq cy by (rule enclosedI)
  show "enclosed (DX reference) (7762254179624212 / 10000000000000000)
      (7762254179624950 / 10000000000000000)"
    using dx_eq dx by (rule enclosedI)
  show "enclosed (DY reference) (28243750181130633 / 10000000000000000)
      (28243750181131420 / 10000000000000000)"
    using dy_eq dy by (rule enclosedI)
qed

text \<open>
  At the reference parameters twice the angle \<open>TANG\<close> is ten times \<open>b/PD\<close>, negated; for a
  source point above the x axis the reflected point is a rotation by it.
\<close>

lemma ref_reflected:
  assumes "xo = Some x" and "yo = Some y" and "0 < y"
  shows "reflected xo yo (TANG reference)
     = Some (y * sin (10 * (b reference / PD reference)) - x * cos (10 * (b reference / PD reference)),
             y * cos (10 * (b reference / PD reference)) + x * sin (10 * (b reference / PD reference)))"
proof -
  have "0 < y ^ 2"
    using assms(3) by simp
  moreover have "0 \<le> x ^ 2"
    by simp
  ultimately have pos: "0 < x ^ 2 + y ^ 2"
    by linarith
  have y: "\<bar>y\<bar> = y"
    using assms(3) by simp
  show ?thesis
    unfolding assms(1,2) ref_TANG reflected_def
    by (simp add: reflect_point_rotation [OF pos] y)
qed

lemma ref_stage3:
  shows "enclosed (EX_val reference) (10321464279915474 / 10000000000000000)
      (10321464279916701 / 10000000000000000)"
    and "enclosed (FY reference) (25465123653896185 / 10000000000000000)
      (25465123653897205 / 10000000000000000)"
    and "enclosed (GY reference) (22463811472085987 / 10000000000000000)
      (22463811472086307 / 10000000000000000)"
    and "enclosed (FGX reference) (20512049469579126 / 10000000000000000)
      (20512049469579433 / 10000000000000000)"
proof -
  obtain dx where dx_eq: "DX reference = Some dx"
    and dx: "7762254179624212 / 10000000000000000 \<le> dx
      \<and> dx \<le> 7762254179624950 / 10000000000000000"
    using ref_stage2(5) by (rule enclosedE)
  obtain dy where dy_eq: "DY reference = Some dy"
    and dy: "28243750181130633 / 10000000000000000 \<le> dy
      \<and> dy \<le> 28243750181131420 / 10000000000000000"
    using ref_stage2(6) by (rule enclosedE)
  obtain cx where cx_eq: "CX reference = Some cx"
    and cx: "5914275179785745 / 10000000000000000 \<le> cx
      \<and> cx \<le> 5914275179786361 / 10000000000000000"
    using ref_stage2(3) by (rule enclosedE)
  obtain cy where cy_eq: "CY reference = Some cy"
    and cy: "27179651451206962 / 10000000000000000 \<le> cy
      \<and> cy \<le> 27179651451207635 / 10000000000000000"
    using ref_stage2(4) by (rule enclosedE)
  obtain bx where bx_eq: "BX reference = Some bx"
    and bx: "4683871082348853 / 10000000000000000 \<le> bx
      \<and> bx \<le> 4683871082348906 / 10000000000000000"
    using ref_stage1(5) by (rule enclosedE)
  obtain byy where byy_eq: "BY reference = Some byy"
    and byy: "24363766476211631 / 10000000000000000 \<le> byy
      \<and> byy \<le> 24363766476211866 / 10000000000000000"
    using ref_stage1(6) by (rule enclosedE)
  obtain bcx where bcx_eq: "BCX reference = Some bcx"
    and bcx: "- (3755536273234708 / 10000000000000000) \<le> bcx
      \<and> bcx \<le> - (3755536273234666 / 10000000000000000)"
    using ref_stage1(2) by (rule enclosedE)
  obtain bcy where bcy_eq: "BCY reference = Some bcy"
    and bcy: "29728130696370666 / 10000000000000000 \<le> bcy
      \<and> bcy \<le> 29728130696370854 / 10000000000000000"
    using ref_stage1(3) by (rule enclosedE)
  define st where "st = sin (10 * (b reference / PD reference))"
  define ct where "ct = cos (10 * (b reference / PD reference))"
  have st: "5877852522921358 / 10000000000000000 \<le> st
      \<and> st \<le> 5877852522921408 / 10000000000000000"
    using ref_angles(3) unfolding st_def .
  have ct: "8090169943751892 / 10000000000000000 \<le> ct
      \<and> ct \<le> 8090169943751922 / 10000000000000000"
    using ref_angles(4) unfolding ct_def .
  define e1 where "e1 = dy * st"
  have e1: "16601259825891925 / 10000000000000000 \<le> e1
      \<and> e1 \<le> 16601259825892530 / 10000000000000000"
    unfolding e1_def by (rule interval_mult [OF dy st]) simp_all
  define e2 where "e2 = dx * ct"
  have e2: "6279795545975829 / 10000000000000000 \<le> e2
      \<and> e2 \<le> 6279795545976451 / 10000000000000000"
    unfolding e2_def by (rule interval_mult [OF dx ct]) simp_all
  define ex where "ex = e1 - e2"
  have ex: "10321464279915474 / 10000000000000000 \<le> ex
      \<and> ex \<le> 10321464279916701 / 10000000000000000"
    unfolding ex_def using e1 e2 by linarith
  define f1 where "f1 = cy * ct"
  have f1: "21988799925220705 / 10000000000000000 \<le> f1
      \<and> f1 \<le> 21988799925221332 / 10000000000000000"
    unfolding f1_def by (rule interval_mult [OF cy ct]) simp_all
  define f2 where "f2 = cx * st"
  have f2: "3476323728675480 / 10000000000000000 \<le> f2
      \<and> f2 \<le> 3476323728675873 / 10000000000000000"
    unfolding f2_def by (rule interval_mult [OF cx st]) simp_all
  define fy where "fy = f1 + f2"
  have fy: "25465123653896185 / 10000000000000000 \<le> fy
      \<and> fy \<le> 25465123653897205 / 10000000000000000"
    unfolding fy_def using f1 f2 by linarith
  define g1 where "g1 = byy * ct"
  have g1: "19710701126243728 / 10000000000000000 \<le> g1
      \<and> g1 \<le> 19710701126243992 / 10000000000000000"
    unfolding g1_def by (rule interval_mult [OF byy ct]) simp_all
  define g2 where "g2 = bx * st"
  have g2: "2753110345842259 / 10000000000000000 \<le> g2
      \<and> g2 \<le> 2753110345842315 / 10000000000000000"
    unfolding g2_def by (rule interval_mult [OF bx st]) simp_all
  define gy where "gy = g1 + g2"
  have gy: "22463811472085987 / 10000000000000000 \<le> gy
      \<and> gy \<le> 22463811472086307 / 10000000000000000"
    unfolding gy_def using g1 g2 by linarith
  define h1 where "h1 = bcy * st"
  have h1: "17473756801539818 / 10000000000000000 \<le> h1
      \<and> h1 \<le> 17473756801540078 / 10000000000000000"
    unfolding h1_def by (rule interval_mult [OF bcy st]) simp_all
  define h2 where "h2 = bcx * ct"
  have h2: "- (3038292668039355 / 10000000000000000) \<le> h2
      \<and> h2 \<le> - (3038292668039308 / 10000000000000000)"
    unfolding h2_def by (rule interval_mult [OF bcx ct]) simp_all
  define fgx where "fgx = h1 - h2"
  have fgx: "20512049469579126 / 10000000000000000 \<le> fgx
      \<and> fgx \<le> 20512049469579433 / 10000000000000000"
    unfolding fgx_def using h1 h2 by linarith
  have pos: "0 < dy" "0 < cy" "0 < byy" "0 < bcy"
    using dy cy byy bcy by linarith+
  have "EX_val reference = Some ex"
    unfolding EX_val_def ref_reflected [OF dx_eq dy_eq pos(1)]
    by (simp add: ex_def e1_def e2_def st_def ct_def)
  then show "enclosed (EX_val reference) (10321464279915474 / 10000000000000000)
      (10321464279916701 / 10000000000000000)"
    using ex by (rule enclosedI)
  have "FY reference = Some fy"
    unfolding FY_def ref_reflected [OF cx_eq cy_eq pos(2)]
    by (simp add: fy_def f1_def f2_def st_def ct_def)
  then show "enclosed (FY reference) (25465123653896185 / 10000000000000000)
      (25465123653897205 / 10000000000000000)"
    using fy by (rule enclosedI)
  have "GY reference = Some gy"
    unfolding GY_def ref_reflected [OF bx_eq byy_eq pos(3)]
    by (simp add: gy_def g1_def g2_def st_def ct_def)
  then show "enclosed (GY reference) (22463811472085987 / 10000000000000000)
      (22463811472086307 / 10000000000000000)"
    using gy by (rule enclosedI)
  have "FGX reference = Some fgx"
    unfolding FGX_def ref_reflected [OF bcx_eq bcy_eq pos(4)]
    by (simp add: fgx_def h1_def h2_def st_def ct_def)
  then show "enclosed (FGX reference) (20512049469579126 / 10000000000000000)
      (20512049469579433 / 10000000000000000)"
    using fgx by (rule enclosedI)
qed

section \<open>Verified properties\<close>

text \<open>
  C1.  With \<open>RAB \<noteq> RBC\<close> and a non-negative discriminant \<open>Delta\<close> of step 1, where
  \<open>S = sin(b/PD)^2\<close> and \<open>L = PD/2 - PLD - h + RAB\<close>, step 1 returns exactly
  \<open>RBXY = L - 2 L S + sqrt Delta\<close>, \<open>ABX = 0\<close>, \<open>ABY = L\<close>,
  \<open>BCX = (-L + 2 L S - sqrt Delta) sin(2b/PD)\<close> and \<open>BCY = (L - 2 L S + sqrt Delta) cos(2b/PD)\<close>,
  the square root being the non-negative one.  The expressions divide by \<open>PD\<close>, so \<open>PD\<close> is
  not zero.
\<close>

theorem stage1_closed_forms:
  assumes "RAB p \<noteq> RBC p" and "PD p \<noteq> 0" and "0 \<le> Delta_spec p"
  shows "RBXY p = Some (L_sub p - 2 * L_sub p * S_spec p + sqrt (Delta_spec p))
       \<and> ABX p = Some 0
       \<and> ABY p = Some (L_sub p)
       \<and> BCX p = Some ((- L_sub p + 2 * L_sub p * S_spec p - sqrt (Delta_spec p))
                         * sin (2 * b p / PD p))
       \<and> BCY p = Some ((L_sub p - 2 * L_sub p * S_spec p + sqrt (Delta_spec p))
                         * cos (2 * b p / PD p))
       \<and> 0 \<le> sqrt (Delta_spec p)"
proof -
  have r: "0 \<le> radicand_1 p"
    using assms(3) by (simp only: radicand_1_Delta)
  have "RBXY_expr p = L_sub p - 2 * L_sub p * S_spec p + sqrt (Delta_spec p)"
    "BCX_expr p = (- L_sub p + 2 * L_sub p * S_spec p - sqrt (Delta_spec p))
                  * sin (2 * b p / PD p)"
    "BCY_expr p = (L_sub p - 2 * L_sub p * S_spec p + sqrt (Delta_spec p))
                  * cos (2 * b p / PD p)"
    by (simp_all add: RBXY_expr_def BCX_expr_def BCY_expr_def radicand_1_Delta L_sub_def
        S_spec_def Let_def)
  then show ?thesis
    using stage1_values [OF assms(2) r] assms(3) by (simp add: ABX_0 ABY_L)
qed

theorem stage1_closed_forms_witness:
  "RAB fixture_345 \<noteq> RBC fixture_345 \<and> PD fixture_345 \<noteq> 0 \<and> 0 \<le> Delta_spec fixture_345
   \<and> RBXY fixture_345 = Some 5 \<and> ABX fixture_345 = Some 0 \<and> ABY fixture_345 = Some 0
   \<and> BCX fixture_345 = Some (- 5) \<and> BCY fixture_345 = Some 0
   \<and> 0 \<le> sqrt (Delta_spec fixture_345)"
  using stage1_closed_forms [of fixture_345]
  by (simp add: fixture_345_Delta fixture_345_1 sqrt_25) (simp add: fixture_345_def)

text \<open>
  C2.  The reference evaluation.  For \<open>RAB = 0.555\<close>, \<open>RBC = 1\<close>, \<open>RCD = 0.15\<close>, \<open>b = 0.4\<close>,
  \<open>h = 0.75\<close>, \<open>PLD = 0.254\<close>, \<open>t = 10\<close>, \<open>P = 2\<close> and \<open>PD = 6.36619772368\<close> the solution
  list has \<open>AX\<close>, \<open>BY\<close>, \<open>ABY\<close>, \<open>BCY\<close>, \<open>RBXY\<close>, \<open>CDX\<close>, \<open>CX\<close>, \<open>DX\<close>, \<open>TANG\<close>, \<open>EX\<close>,
  \<open>FY\<close>, \<open>GY\<close> and \<open>FGX\<close> within \<open>5e-10\<close> of the thirteen decimals given, so each given
  decimal is the value rounded to nine places.
\<close>

theorem reference_fixture:
  "agrees (AX reference) (- 0.468387108)
   \<and> agrees (BY reference) 2.436376648
   \<and> agrees (ABY reference) 2.734098862
   \<and> agrees (BCY reference) 2.972813070
   \<and> agrees (RBXY reference) 2.996440901
   \<and> agrees (CDX reference) 0.736474690
   \<and> agrees (CX reference) 0.591427518
   \<and> agrees (DX reference) 0.776225418
   \<and> agrees (TANG reference) (- 0.314159265)
   \<and> agrees (EX_val reference) 1.032146428
   \<and> agrees (FY reference) 2.546512365
   \<and> agrees (GY reference) 2.246381147
   \<and> agrees (FGX reference) 2.051204947"
proof (intro conjI)
  show "agrees (AX reference) (- 0.468387108)"
    by (rule enclosed_agrees [OF ref_stage1(4)]) simp_all
  show "agrees (BY reference) 2.436376648"
    by (rule enclosed_agrees [OF ref_stage1(6)]) simp_all
  show "agrees (ABY reference) 2.734098862"
    by (simp add: agrees_def ABY_L ref_fields)
  show "agrees (BCY reference) 2.972813070"
    by (rule enclosed_agrees [OF ref_stage1(3)]) simp_all
  show "agrees (RBXY reference) 2.996440901"
    by (rule enclosed_agrees [OF ref_stage1(1)]) simp_all
  show "agrees (CDX reference) 0.736474690"
    by (rule enclosed_agrees [OF ref_stage2(1)]) simp_all
  show "agrees (CX reference) 0.591427518"
    by (rule enclosed_agrees [OF ref_stage2(3)]) simp_all
  show "agrees (DX reference) 0.776225418"
    by (rule enclosed_agrees [OF ref_stage2(5)]) simp_all
  show "agrees (TANG reference) (- 0.314159265)"
    by (simp add: agrees_def TANG_def reference_def)
  show "agrees (EX_val reference) 1.032146428"
    by (rule enclosed_agrees [OF ref_stage3(1)]) simp_all
  show "agrees (FY reference) 2.546512365"
    by (rule enclosed_agrees [OF ref_stage3(2)]) simp_all
  show "agrees (GY reference) 2.246381147"
    by (rule enclosed_agrees [OF ref_stage3(3)]) simp_all
  show "agrees (FGX reference) 2.051204947"
    by (rule enclosed_agrees [OF ref_stage3(4)]) simp_all
qed

text \<open>
  C3.  The tangency distances.  For every parameter set with positive radii, \<open>RAB \<noteq> RBC\<close>,
  \<open>PD \<noteq> 0\<close>, a discriminant that is not negative, and a step 2 whose two values are real
  numbers, the values of the solution list, as the real numbers that the expressions
  denote, satisfy \<open>|B - AB| = RAB\<close>, \<open>|B - BC| = RBC\<close>, \<open>|CD - BC| = RBC + RCD\<close>, and
  \<open>|CD| = |PD/2 - PLD - RCD|\<close>.  The last distance is the absolute value: the expressions
  solve \<open>CDX^2 + CDY^2 = (PD/2 - PLD - RCD)^2\<close>, which does not see the sign of
  \<open>PD/2 - PLD - RCD\<close>.  The equations are between the real numbers denoted; they say
  nothing about the rounding of a floating-point evaluation of the expressions.
\<close>

theorem tangency_distances:
  assumes "0 < RAB p" and "0 < RBC p" and "0 < RCD p" and "RAB p \<noteq> RBC p"
    and "PD p \<noteq> 0" and "0 \<le> radicand_1 p"
    and "CDX p = Some cdx" and "CDY p = Some cdy"
  shows "BX p = Some (BX_expr p) \<and> BY p = Some (BY_expr p)
       \<and> ABX p = Some 0 \<and> ABY p = Some (L_sub p)
       \<and> BCX p = Some (BCX_expr p) \<and> BCY p = Some (BCY_expr p)
       \<and> dist2 (BX_expr p) (BY_expr p) 0 (L_sub p) = RAB p
       \<and> dist2 (BX_expr p) (BY_expr p) (BCX_expr p) (BCY_expr p) = RBC p
       \<and> dist2 cdx cdy (BCX_expr p) (BCY_expr p) = RBC p + RCD p
       \<and> dist2 cdx cdy 0 0 = \<bar>PD p / 2 - PLD p - RCD p\<bar>"
proof -
  note nz = radii_differ [OF assms(1,2,4)]
  note bc = stage1_values [OF assms(5,6)]
  note s2 = stage2_values [OF bc(1,2) assms(7,8)]
  have d1: "dist2 (BX_expr p) (BY_expr p) 0 (L_sub p) = RAB p"
    using dist2_from_sq [OF B_AB_sq [OF nz assms(6)]] assms(1) by simp
  have d2: "dist2 (BX_expr p) (BY_expr p) (BCX_expr p) (BCY_expr p) = RBC p"
    using dist2_from_sq [OF B_BC_sq [OF nz assms(6)]] assms(2) by simp
  have d3: "dist2 cdx cdy (BCX_expr p) (BCY_expr p) = RBC p + RCD p"
    using dist2_from_sq [OF CD_BC_sq [of "BCX_expr p" p "BCY_expr p"]] s2 assms(2,3) by simp
  have "(cdx - 0) ^ 2 + (cdy - 0) ^ 2 = (PD p / 2 - PLD p - RCD p) ^ 2"
    using CD_norm_sq [of "BCX_expr p" p "BCY_expr p"] s2 by simp
  then have d4: "dist2 cdx cdy 0 0 = \<bar>PD p / 2 - PLD p - RCD p\<bar>"
    by (rule dist2_from_sq)
  show ?thesis
    using stage1_values_AB(3,4) [OF assms(5,6) nz] bc(1,2) d1 d2 d3 d4
    by (simp add: ABX_0 ABY_L)
qed

theorem tangency_distances_witness:
  "0 < RAB fixture_345 \<and> 0 < RBC fixture_345 \<and> 0 < RCD fixture_345
   \<and> RAB fixture_345 \<noteq> RBC fixture_345 \<and> PD fixture_345 \<noteq> 0 \<and> 0 \<le> radicand_1 fixture_345
   \<and> CDX fixture_345 = Some (- (16 / 5)) \<and> CDY fixture_345 = Some (12 / 5)
   \<and> dist2 (BX_expr fixture_345) (BY_expr fixture_345) 0 (L_sub fixture_345) = 6
   \<and> dist2 (BX_expr fixture_345) (BY_expr fixture_345) (BCX_expr fixture_345)
        (BCY_expr fixture_345) = 1
   \<and> dist2 (- (16 / 5)) (12 / 5) (BCX_expr fixture_345) (BCY_expr fixture_345) = 3
   \<and> dist2 (- (16 / 5)) (12 / 5) 0 0 = 4"
proof -
  have r: "0 \<le> radicand_1 fixture_345"
    by (simp add: fixture_345_1)
  show ?thesis
    using tangency_distances [OF fixture_345_valid r fixture_345_CD]
    by (simp add: fixture_345_valid r fixture_345_CD) (simp add: fixture_345_def)
qed

text \<open>
  C3 as stated, with \<open>|CD| = PD/2 - PLD - RCD\<close>, fails where the pitch line lies deep: all
  nine parameters are positive, \<open>RAB \<noteq> RBC\<close>, the discriminant is 25 and step 2 has the
  value \<open>CD = (-16/5, 12/5)\<close>, at distance 4 from the origin, while \<open>PD/2 - PLD - RCD = -4\<close>.
\<close>

theorem tangency_counterexample:
  "0 < RAB fixture_deep \<and> 0 < RBC fixture_deep \<and> 0 < RCD fixture_deep \<and> 0 < b fixture_deep
   \<and> 0 < h fixture_deep \<and> 0 < PLD fixture_deep \<and> 0 < t fixture_deep \<and> 0 < P fixture_deep
   \<and> 0 < PD fixture_deep \<and> PD fixture_deep = PD_sub fixture_deep
   \<and> RAB fixture_deep \<noteq> RBC fixture_deep \<and> 0 \<le> radicand_1 fixture_deep
   \<and> CDX fixture_deep = Some (- (16 / 5)) \<and> CDY fixture_deep = Some (12 / 5)
   \<and> dist2 (- (16 / 5)) (12 / 5) 0 0 = 4
   \<and> PD fixture_deep / 2 - PLD fixture_deep - RCD fixture_deep = - 4"
  by (simp add: fixture_deep_CD dist2_345 fixture_deep_1) (simp add: fixture_deep_def PD_sub_def)

text \<open>
  C4.  For every valid parameter set (positive radii, \<open>RAB \<noteq> RBC\<close>, \<open>PD \<noteq> 0\<close>, discriminant
  not negative) step 1 gives \<open>AX = -BX\<close> and \<open>AY = BY\<close>: the points \<open>A\<close> and \<open>B\<close> are mirror
  images across the y axis.  The two equations hold exactly, so within any tolerance.
\<close>

theorem mirror_symmetry:
  assumes "0 < RAB p" and "0 < RBC p" and "RAB p \<noteq> RBC p" and "PD p \<noteq> 0"
    and "0 \<le> radicand_1 p"
  shows "BX p = Some (BX_expr p) \<and> BY p = Some (BY_expr p)
       \<and> AX p = Some (- BX_expr p) \<and> AY p = Some (BY_expr p)"
  using stage1_values_AB [OF assms(4,5) radii_differ [OF assms(1,2,3)]]
  by (simp add: AX_BX_expr AY_BY_expr)

theorem mirror_symmetry_witness:
  "0 < RAB fixture_345 \<and> 0 < RBC fixture_345 \<and> RAB fixture_345 \<noteq> RBC fixture_345
   \<and> PD fixture_345 \<noteq> 0 \<and> 0 \<le> radicand_1 fixture_345
   \<and> BX fixture_345 = Some (BX_expr fixture_345) \<and> BY fixture_345 = Some (BY_expr fixture_345)
   \<and> AX fixture_345 = Some (- BX_expr fixture_345) \<and> AY fixture_345 = Some (BY_expr fixture_345)"
  using mirror_symmetry [of fixture_345]
  by (simp add: fixture_345_1) (simp add: fixture_345_def)

text \<open>
  C5.  The bisector angle.  For every \<open>B\<close> with \<open>BX^2 + BY^2 > 0\<close> and
  \<open>|BX| / sqrt(BX^2 + BY^2) \<le> 1\<close> the expression the cell writes,
  \<open>(-asin(BX/sqrt(BX^2+BY^2)) + (asin(BX/sqrt(BX^2+BY^2)) - 2 P/PD)) / 2\<close>, has the value of the
  entry \<open>TANG = -P/PD\<close> of the solution list, whatever \<open>B\<close> is: the two arc sines cancel.
\<close>

theorem bisector_angle:
  assumes "0 < bx ^ 2 + byy ^ 2" and "\<bar>bx\<bar> / sqrt (bx ^ 2 + byy ^ 2) \<le> 1"
  shows "TANG_of p bx byy = TANG p \<and> (PD p \<noteq> 0 \<longrightarrow> TANG p = Some (- P p / PD p))"
proof -
  have "sqrt (bx ^ 2 + byy ^ 2) \<noteq> 0"
    using radius_pos [OF assms(1)] by linarith
  moreover have "\<not> 1 < \<bar>bx / sqrt (bx ^ 2 + byy ^ 2)\<bar>"
    using assms(2) by simp
  ultimately show ?thesis
    unfolding TANG_of_def TANG_def by auto
qed

theorem bisector_angle_witness:
  "(0::real) < 3 ^ 2 + 4 ^ 2 \<and> \<bar>3::real\<bar> / sqrt (3 ^ 2 + 4 ^ 2) \<le> 1
   \<and> TANG_of fixture_345 3 4 = TANG fixture_345 \<and> TANG fixture_345 = Some (- (pi / 4))"
proof -
  have "\<bar>3::real\<bar> / sqrt (3 ^ 2 + 4 ^ 2) \<le> 1"
    using ratio_in_range [of 3 4] by simp
  then show ?thesis
    using bisector_angle [of 3 4 fixture_345] by (simp add: fixture_345_def)
qed

text \<open>
  C6.  The reflection applied twice.  For a point \<open>(x, y)\<close> with \<open>x^2 + y^2 > 0\<close> in the closed
  upper half plane (\<open>y \<ge> 0\<close>) and an angle \<open>theta\<close> for which the reflected point lies there
  too (\<open>cos(2 theta + asin(x/r)) \<ge> 0\<close>, that is \<open>y' \<ge> 0\<close>), reflecting twice over \<open>theta\<close>
  returns \<open>(x, y)\<close> exactly.
\<close>

theorem reflect_involution:
  assumes "0 < x ^ 2 + y ^ 2" and "0 \<le> y"
    and "0 \<le> cos (2 * theta + arcsin (x / sqrt (x ^ 2 + y ^ 2)))"
  shows "reflect_twice x y theta = Some (x, y)"
proof -
  let ?s = "sin (2 * theta)" and ?c = "cos (2 * theta)"
  let ?x1 = "- (y * ?s + x * ?c)" and ?y1 = "y * ?c - x * ?s"
  have y: "\<bar>y\<bar> = y" using assms(2) by simp
  have 1: "reflect_point x y theta = Some (?x1, ?y1)"
    using reflect_point_rotation [OF assms(1), of theta] unfolding y .
  have "?y1 = sqrt (x ^ 2 + y ^ 2) * cos (2 * theta + arcsin (x / sqrt (x ^ 2 + y ^ 2)))"
    using 1 unfolding reflect_point_defined [OF assms(1)] by simp
  then have y1: "0 \<le> ?y1"
    using assms(3) by simp
  have "?x1 ^ 2 + ?y1 ^ 2 = (x ^ 2 + y ^ 2) * (?s ^ 2 + ?c ^ 2)"
    by algebra
  then have pos: "0 < ?x1 ^ 2 + ?y1 ^ 2"
    using assms(1) by simp
  have ay1: "\<bar>?y1\<bar> = ?y1" using y1 by simp
  have sc: "?s ^ 2 + ?c ^ 2 = 1" by simp
  have 2: "reflect_point ?x1 ?y1 theta = Some (x, y)"
    unfolding reflect_point_rotation [OF pos] ay1 rotation_back [OF sc] ..
  show ?thesis
    unfolding reflect_twice_def 1 using 2 by simp
qed

theorem reflect_involution_witness:
  "(0::real) < 0 ^ 2 + 1 ^ 2 \<and> (0::real) \<le> 1
   \<and> 0 \<le> cos (2 * (pi / 4) + arcsin (0 / sqrt (0 ^ 2 + 1 ^ 2)))
   \<and> reflect_twice 0 1 (pi / 4) = Some (0, 1)"
  using reflect_involution [of 0 1 "pi / 4"] by simp

text \<open>
  C6 as stated, for every point off the origin and every angle, fails: the arc sine of
  \<open>x/r\<close> forgets the sign of \<open>y\<close>.  The point \<open>(0, 1)\<close> reflected over \<open>pi/2\<close> is
  \<open>(0, -1)\<close>, and \<open>(0, -1)\<close> reflected again is \<open>(0, -1)\<close>; the point \<open>(0, -1)\<close> reflected
  over the angle 0 is \<open>(0, 1)\<close>, and stays there.
\<close>

theorem reflect_involution_counterexample:
  "reflect_twice 0 1 (pi / 2) = Some (0, - 1) \<and> reflect_twice 0 (- 1) 0 = Some (0, 1)"
  by (simp add: reflect_twice_def reflect_point_def)

text \<open>
  C7.  Step 1 has no error of any kind: for every parameter set it returns its nine
  values.  For positive \<open>RAB\<close> and \<open>RBC\<close> and \<open>PD \<noteq> 0\<close> the values are, over the complex
  numbers, \<open>RBXY = L - 2 L S + sqrt Delta\<close>, \<open>BCX = -RBXY sin(2b/PD)\<close>,
  \<open>BCY = RBXY cos(2b/PD)\<close>, \<open>ABX = 0\<close>, \<open>ABY = L\<close>, and, unless the radii are equal,
  \<open>BX = RAB BCX / (RAB - RBC)\<close>, \<open>BY = (RAB BCY - RBC L) / (RAB - RBC)\<close>, \<open>AX = -BX\<close> and
  \<open>AY = BY\<close>.  With equal radii \<open>AX\<close>, \<open>AY\<close>, \<open>BX\<close> and \<open>BY\<close> are divisions by zero and the
  other five values are returned.  With a discriminant that is not negative the values are
  the real expressions.  With a negative discriminant the square root is imaginary:
  \<open>RBXY\<close>, \<open>BCX\<close>, \<open>AX\<close> and \<open>BX\<close> are not real numbers, while \<open>BCY\<close>, which is then zero,
  and \<open>AY = BY = RBC L / (RBC - RAB)\<close> are real exactly where \<open>cos(2b/PD) = 0\<close>.
\<close>

theorem stage1_definedness:
  assumes "PD p \<noteq> 0" and "0 < RAB p" and "0 < RBC p"
  shows
    "let r = complex_of_real (L_sub p - 2 * L_sub p * S_spec p)
             + csqrt (complex_of_real (Delta_spec p));
         bcx = - r * complex_of_real (sin (2 * b p / PD p));
         bcy = r * complex_of_real (cos (2 * b p / PD p));
         bx = complex_of_real (RAB p) * bcx / complex_of_real (RAB p - RBC p);
         byy = (complex_of_real (RAB p) * bcy - complex_of_real (RBC p * L_sub p))
               / complex_of_real (RAB p - RBC p)
     in res_1_sol p =
          (if RAB p = RBC p then [None, None, None, None]
           else [Some (- bx), Some byy, Some bx, Some byy])
          @ [Some 0, Some (complex_of_real (L_sub p)), Some bcx, Some bcy, Some r]
      \<and> ABX p = Some 0 \<and> ABY p = Some (L_sub p)
      \<and> (0 \<le> Delta_spec p \<longrightarrow>
           RBXY p = Some (RBXY_expr p) \<and> BCX p = Some (BCX_expr p)
           \<and> BCY p = Some (BCY_expr p)
           \<and> (if RAB p = RBC p
              then AX p = None \<and> AY p = None \<and> BX p = None \<and> BY p = None
              else AX p = Some (AX_expr p) \<and> AY p = Some (AY_expr p)
                 \<and> BX p = Some (BX_expr p) \<and> BY p = Some (BY_expr p)))
      \<and> (Delta_spec p < 0 \<longrightarrow>
           r = Complex (L_sub p - 2 * L_sub p * S_spec p) (sqrt (- Delta_spec p))
           \<and> RBXY p = None
           \<and> BCX p = None \<and> AX p = None \<and> BX p = None
           \<and> BCY p = (if cos (2 * b p / PD p) = 0 then Some 0 else None)
           \<and> AY p = (if RAB p \<noteq> RBC p \<and> cos (2 * b p / PD p) = 0
                     then Some (RBC p * L_sub p / (RBC p - RAB p)) else None)
           \<and> BY p = (if RAB p \<noteq> RBC p \<and> cos (2 * b p / PD p) = 0
                     then Some (RBC p * L_sub p / (RBC p - RAB p)) else None))"
proof -
  note eq = sq_diff_zero [OF assms(2,3)]
  have sol: "res_1_sol p =
      (if RAB p = RBC p then [None, None, None, None]
       else [Some (- (complex_of_real (RAB p) * BCX_cplx p / complex_of_real (RAB p - RBC p))),
             Some ((complex_of_real (RAB p) * BCY_cplx p - complex_of_real (RBC p * L_sub p))
                   / complex_of_real (RAB p - RBC p)),
             Some (complex_of_real (RAB p) * BCX_cplx p / complex_of_real (RAB p - RBC p)),
             Some ((complex_of_real (RAB p) * BCY_cplx p - complex_of_real (RBC p * L_sub p))
                   / complex_of_real (RAB p - RBC p))])
      @ [Some 0, Some (complex_of_real (L_sub p)), Some (BCX_cplx p), Some (BCY_cplx p),
         Some (RBXY_cplx p)]"
  proof (cases "RAB p = RBC p")
    case True
    then show ?thesis
      unfolding res_1_sol_closed [OF assms(1)] eq by simp
  next
    case False
    then have nz: "RAB p ^ 2 - RBC p ^ 2 \<noteq> 0"
      by (simp only: eq not_False_eq_True)
    show ?thesis
      unfolding res_1_sol_closed [OF assms(1)] eq
        BX_cplx_simp [OF nz, symmetric] BY_cplx_simp [OF nz, symmetric] ..
  qed
  have real: "0 \<le> Delta_spec p \<longrightarrow>
      RBXY p = Some (RBXY_expr p) \<and> BCX p = Some (BCX_expr p) \<and> BCY p = Some (BCY_expr p)
      \<and> (if RAB p = RBC p
         then AX p = None \<and> AY p = None \<and> BX p = None \<and> BY p = None
         else AX p = Some (AX_expr p) \<and> AY p = Some (AY_expr p)
            \<and> BX p = Some (BX_expr p) \<and> BY p = Some (BY_expr p))"
  proof (intro impI conjI)
    assume "0 \<le> Delta_spec p"
    then have r: "0 \<le> radicand_1 p"
      by (simp only: radicand_1_Delta)
    show "RBXY p = Some (RBXY_expr p)" "BCX p = Some (BCX_expr p)"
      "BCY p = Some (BCY_expr p)"
      by (rule stage1_values [OF assms(1) r])+
    show "if RAB p = RBC p
         then AX p = None \<and> AY p = None \<and> BX p = None \<and> BY p = None
         else AX p = Some (AX_expr p) \<and> AY p = Some (AY_expr p)
            \<and> BX p = Some (BX_expr p) \<and> BY p = Some (BY_expr p)"
    proof (cases "RAB p = RBC p")
      case True
      then have "RAB p ^ 2 - RBC p ^ 2 = 0"
        by (simp only: eq)
      then show ?thesis
        using True by (simp add: stage1_undefined_AB)
    next
      case False
      then have "RAB p ^ 2 - RBC p ^ 2 \<noteq> 0"
        by (simp only: eq not_False_eq_True)
      then show ?thesis
        using False by (simp add: stage1_values_AB [OF assms(1) r])
    qed
  qed
  have nonreal: "Delta_spec p < 0 \<longrightarrow>
      RBXY_cplx p = Complex (L_sub p - 2 * L_sub p * S_spec p) (sqrt (- Delta_spec p))
      \<and> RBXY p = None
      \<and> BCX p = None \<and> AX p = None \<and> BX p = None
      \<and> BCY p = (if cos (2 * b p / PD p) = 0 then Some 0 else None)
      \<and> AY p = (if RAB p \<noteq> RBC p \<and> cos (2 * b p / PD p) = 0
                then Some (RBC p * L_sub p / (RBC p - RAB p)) else None)
      \<and> BY p = (if RAB p \<noteq> RBC p \<and> cos (2 * b p / PD p) = 0
                then Some (RBC p * L_sub p / (RBC p - RAB p)) else None)"
  proof (intro impI conjI)
    assume "Delta_spec p < 0"
    then have neg: "radicand_1 p < 0"
      by (simp only: radicand_1_Delta)
    show "RBXY_cplx p = Complex (L_sub p - 2 * L_sub p * S_spec p) (sqrt (- Delta_spec p))"
      unfolding RBXY_cplx_neg [OF neg] radicand_1_Delta S_spec_def ..
    show "RBXY p = None" "BCX p = None"
      "BCY p = (if cos (2 * b p / PD p) = 0 then Some 0 else None)"
      by (rule stage1_nonreal [OF assms(1) neg])+
    have ra: "RAB p \<noteq> 0"
      using assms(2) by simp
    have four: "AX p = None \<and> BX p = None
        \<and> AY p = (if RAB p \<noteq> RBC p \<and> cos (2 * b p / PD p) = 0
                  then Some (RBC p * L_sub p / (RBC p - RAB p)) else None)
        \<and> BY p = (if RAB p \<noteq> RBC p \<and> cos (2 * b p / PD p) = 0
                  then Some (RBC p * L_sub p / (RBC p - RAB p)) else None)"
    proof (cases "RAB p = RBC p")
      case True
      then have z: "RAB p ^ 2 - RBC p ^ 2 = 0"
        by (simp only: eq)
      show ?thesis
        using True by (simp add: stage1_undefined_AB [OF z])
    next
      case False
      then have nz: "RAB p ^ 2 - RBC p ^ 2 \<noteq> 0"
        by (simp only: eq not_False_eq_True)
      show ?thesis
        using False by (simp add: stage1_nonreal_AB [OF assms(1) neg nz ra])
    qed
    from four
    show "AX p = None" "BX p = None"
      "AY p = (if RAB p \<noteq> RBC p \<and> cos (2 * b p / PD p) = 0
               then Some (RBC p * L_sub p / (RBC p - RAB p)) else None)"
      "BY p = (if RAB p \<noteq> RBC p \<and> cos (2 * b p / PD p) = 0
               then Some (RBC p * L_sub p / (RBC p - RAB p)) else None)"
      by blast+
  qed
  show ?thesis
    unfolding Let_def RBXY_cplx_spec [symmetric] BCX_cplx_RBXY [symmetric]
      BCY_cplx_RBXY [symmetric]
    using sol real nonreal ABX_0 [of p] ABY_L [of p] by blast
qed

theorem stage1_definedness_witness:
  "PD fixture_345 \<noteq> 0 \<and> 0 < RAB fixture_345 \<and> 0 < RBC fixture_345
   \<and> 0 \<le> Delta_spec fixture_345 \<and> RAB fixture_345 \<noteq> RBC fixture_345
   \<and> res_1_sol fixture_345 =
       [Some 6, Some 0, Some (- 6), Some 0, Some 0, Some 0, Some (- 5), Some 0, Some 5]
   \<and> RBXY fixture_345 = Some 5 \<and> BCX fixture_345 = Some (- 5) \<and> BCY fixture_345 = Some 0
   \<and> AX fixture_345 = Some (AX_expr fixture_345) \<and> AY fixture_345 = Some (AY_expr fixture_345)
   \<and> BX fixture_345 = Some (BX_expr fixture_345) \<and> BY fixture_345 = Some (BY_expr fixture_345)
   \<and> PD fixture_no_root \<noteq> 0 \<and> 0 < RAB fixture_no_root \<and> 0 < RBC fixture_no_root
   \<and> Delta_spec fixture_no_root < 0 \<and> RAB fixture_no_root \<noteq> RBC fixture_no_root
   \<and> res_1_sol fixture_no_root =
       [Some (Complex 0 (- sqrt 3)), Some 4, Some (Complex 0 (sqrt 3)), Some 4,
        Some 0, Some 2, Some (Complex 0 (- sqrt 3)), Some 0, Some (Complex 0 (sqrt 3))]
   \<and> RBXY fixture_no_root = None \<and> BCX fixture_no_root = None
   \<and> BCY fixture_no_root = Some 0
   \<and> AX fixture_no_root = None \<and> BX fixture_no_root = None
   \<and> AY fixture_no_root = Some 4 \<and> BY fixture_no_root = Some 4"
proof -
  have h1: "PD fixture_345 \<noteq> 0" "0 < RAB fixture_345" "0 < RBC fixture_345"
    and n1: "RAB fixture_345 \<noteq> RBC fixture_345"
    and f1: "RAB fixture_345 = 6" "RBC fixture_345 = 1"
    by (simp_all add: fixture_345_def)
  have h2: "PD fixture_no_root \<noteq> 0" "0 < RAB fixture_no_root" "0 < RBC fixture_no_root"
    and n2: "RAB fixture_no_root \<noteq> RBC fixture_no_root"
    and f2: "RAB fixture_no_root = 1" "RBC fixture_no_root = 2"
    by (simp_all add: fixture_no_root_def)
  have d1: "0 \<le> Delta_spec fixture_345"
    by (simp add: fixture_345_Delta)
  have d2: "Delta_spec fixture_no_root < 0"
    by (simp add: fixture_no_root_Delta)
  have r2: "complex_of_real (L_sub fixture_no_root - 2 * L_sub fixture_no_root * S_spec fixture_no_root)
            + csqrt (complex_of_real (Delta_spec fixture_no_root)) = Complex 0 (sqrt 3)"
    using stage1_definedness [OF h2] d2
    by (simp add: Let_def fixture_no_root_Delta fixture_no_root_1)
  have a: "res_1_sol fixture_345 =
       [Some 6, Some 0, Some (- 6), Some 0, Some 0, Some 0, Some (- 5), Some 0, Some 5]
     \<and> RBXY fixture_345 = Some 5 \<and> BCX fixture_345 = Some (- 5) \<and> BCY fixture_345 = Some 0
     \<and> AX fixture_345 = Some (AX_expr fixture_345) \<and> AY fixture_345 = Some (AY_expr fixture_345)
     \<and> BX fixture_345 = Some (BX_expr fixture_345) \<and> BY fixture_345 = Some (BY_expr fixture_345)"
    using stage1_definedness [OF h1] d1 n1
    by (simp add: Let_def fixture_345_Delta fixture_345_1 fixture_345_angle csqrt_25 f1)
  have b: "res_1_sol fixture_no_root =
       [Some (Complex 0 (- sqrt 3)), Some 4, Some (Complex 0 (sqrt 3)), Some 4,
        Some 0, Some 2, Some (Complex 0 (- sqrt 3)), Some 0, Some (Complex 0 (sqrt 3))]
     \<and> RBXY fixture_no_root = None \<and> BCX fixture_no_root = None
     \<and> BCY fixture_no_root = Some 0
     \<and> AX fixture_no_root = None \<and> BX fixture_no_root = None
     \<and> AY fixture_no_root = Some 4 \<and> BY fixture_no_root = Some 4"
    using stage1_definedness [OF h2] d2 n2
    unfolding Let_def r2
    by (simp add: fixture_no_root_1 fixture_no_root_angle f2 complex_eq_iff)
  show ?thesis
    using h1 h2 n1 n2 d1 d2 a b by blast
qed

text \<open>
  C7 as stated, an error \<open>InvalidParameter\<close> for equal radii and an error \<open>NoValidGeometry\<close>
  for a negative discriminant, and never a silent infinity or not-a-number, fails: at equal
  radii step 1 returns a list whose first four values are divisions by zero and whose other
  values are numbers, and at a negative discriminant it returns a list of nine complex
  numbers, of which \<open>AY = BY = 4\<close>, \<open>ABX = 0\<close>, \<open>ABY = 2\<close> and \<open>BCY = 0\<close> are real.
\<close>

theorem stage1_errors_counterexample:
  "PD fixture_equal \<noteq> 0 \<and> 0 < RAB fixture_equal \<and> RAB fixture_equal = RBC fixture_equal
   \<and> res_1_sol fixture_equal
       = [None, None, None, None, Some 0, Some 1, Some 0, Some 1, Some 1]
   \<and> PD fixture_no_root \<noteq> 0 \<and> 0 < RAB fixture_no_root \<and> 0 < RBC fixture_no_root
   \<and> radicand_1 fixture_no_root < 0
   \<and> res_1_sol fixture_no_root
       = [Some (Complex 0 (- sqrt 3)), Some 4, Some (Complex 0 (sqrt 3)), Some 4,
          Some 0, Some 2, Some (Complex 0 (- sqrt 3)), Some 0, Some (Complex 0 (sqrt 3))]
   \<and> AY fixture_no_root = Some 4 \<and> BY fixture_no_root = Some 4
   \<and> BCY fixture_no_root = Some 0"
  by (simp add: fixture_equal_sol fixture_no_root_sol fixture_no_root_names fixture_no_root_1)
     (simp add: fixture_equal_def fixture_no_root_def)

text \<open>
  C8.  The derived points.  Given a centre \<open>CD\<close> with \<open>|CD - BC| = RBC + RCD\<close> and
  \<open>CDR = |CD| > 0\<close>, and positive radii \<open>RBC\<close> and \<open>RCD\<close>: the point \<open>C\<close> is
  \<open>BC + lam (CD - BC)\<close> with \<open>lam = RBC/(RBC+RCD)\<close> between 0 and 1, so it lies on the segment
  from \<open>BC\<close> to \<open>CD\<close>, with \<open>|C - BC| = RBC\<close> and \<open>|C - CD| = RCD\<close>; the point \<open>D\<close> is
  \<open>mu CD\<close> with \<open>mu = (CDR + RCD)/CDR \<ge> 1\<close>, so it lies on the ray from the origin through
  \<open>CD\<close>, beyond \<open>CD\<close> by \<open>|D - CD| = RCD\<close>, and \<open>|D| = CDR + RCD\<close>.
\<close>

theorem derived_points:
  assumes "0 < RBC p" and "0 < RCD p"
    and "dist2 cdx cdy bcx bcy = RBC p + RCD p" and "0 < CDR_of cdx cdy"
  shows "let lam = RBC p / (RBC p + RCD p);
             cx = bcx + lam * (cdx - bcx); cy = bcy + lam * (cdy - bcy);
             cdr = CDR_of cdx cdy; mu = (cdr + RCD p) / cdr;
             dx = mu * cdx; dy = mu * cdy
         in CX_of p cdx bcx = Some cx \<and> CY_of p cdy bcy = Some cy
          \<and> 0 \<le> lam \<and> lam \<le> 1
          \<and> dist2 cx cy bcx bcy = RBC p \<and> dist2 cx cy cdx cdy = RCD p
          \<and> DX_of p cdx cdr = Some dx \<and> DY_of p cdy cdr = Some dy
          \<and> 1 \<le> mu
          \<and> dist2 dx dy 0 0 = cdr + RCD p \<and> dist2 dx dy cdx cdy = RCD p"
proof -
  define lam where "lam = RBC p / (RBC p + RCD p)"
  define nu where "nu = RCD p / (RCD p + RBC p)"
  define cdr where "cdr = CDR_of cdx cdy"
  define mu where "mu = (cdr + RCD p) / cdr"
  have sum: "0 < RBC p + RCD p"
    using assms(1,2) by simp
  have cdr: "0 < cdr"
    using assms(4) by (simp add: cdr_def)
  have lam: "0 \<le> lam" "lam \<le> 1" "lam = 1 - nu"
    using assms(1,2) sum by (simp_all add: lam_def nu_def field_simps)
  have nu: "0 \<le> nu"
    using assms(1,2) by (simp add: nu_def)
  have cx: "cdx - nu * (cdx - bcx) = bcx + lam * (cdx - bcx)"
    and cy: "cdy - nu * (cdy - bcy) = bcy + lam * (cdy - bcy)"
    unfolding lam(3) by (simp_all add: algebra_simps)
  have CX: "CX_of p cdx bcx = Some (bcx + lam * (cdx - bcx))"
    and CY: "CY_of p cdy bcy = Some (bcy + lam * (cdy - bcy))"
    using sum cx cy by (simp_all add: CX_of_def CY_of_def nu_def add.commute)
  have d1: "dist2 (bcx + lam * (cdx - bcx)) (bcy + lam * (cdy - bcy)) bcx bcy = RBC p"
    unfolding dist2_along assms(3) using assms(1) sum by (simp add: lam_def)
  have "dist2 (cdx + nu * (bcx - cdx)) (cdy + nu * (bcy - cdy)) cdx cdy = RCD p"
    unfolding dist2_along dist2_sym [of bcx bcy] assms(3) using assms(2) sum
    by (simp add: nu_def add.commute)
  moreover have "cdx + nu * (bcx - cdx) = bcx + lam * (cdx - bcx)"
    "cdy + nu * (bcy - cdy) = bcy + lam * (cdy - bcy)"
    unfolding lam(3) by (simp_all add: algebra_simps)
  ultimately have d2: "dist2 (bcx + lam * (cdx - bcx)) (bcy + lam * (cdy - bcy)) cdx cdy = RCD p"
    by simp
  have mu: "1 \<le> mu" "0 \<le> mu" "mu - 1 = RCD p / cdr" "mu * cdr = cdr + RCD p"
    using cdr assms(2) by (simp_all add: mu_def field_simps)
  have DX: "DX_of p cdx cdr = Some (mu * cdx)" and DY: "DY_of p cdy cdr = Some (mu * cdy)"
    using cdr by (simp_all add: DX_of_def DY_of_def mu_def)
  have d3: "dist2 (mu * cdx) (mu * cdy) 0 0 = cdr + RCD p"
    unfolding dist2_origin_scale using mu(2,4) by (simp add: cdr_def)
  have "\<bar>mu - 1\<bar> * cdr = RCD p"
    unfolding mu(3) using cdr assms(2) by simp
  then have d4: "dist2 (mu * cdx) (mu * cdy) cdx cdy = RCD p"
    unfolding dist2_ray by (simp add: cdr_def)
  show ?thesis
    unfolding Let_def lam_def [symmetric] cdr_def [symmetric] mu_def [symmetric]
    using CX CY lam(1,2) d1 d2 DX DY mu(1) d3 d4 by simp
qed

theorem derived_points_witness:
  "0 < RBC fixture_345 \<and> 0 < RCD fixture_345
   \<and> dist2 (- (16 / 5)) (12 / 5) (- 5) 0 = RBC fixture_345 + RCD fixture_345
   \<and> 0 < CDR_of (- (16 / 5)) (12 / 5)
   \<and> CX_of fixture_345 (- (16 / 5)) (- 5) = Some (- (22 / 5))
   \<and> CY_of fixture_345 (12 / 5) 0 = Some (4 / 5)
   \<and> dist2 (- (22 / 5)) (4 / 5) (- 5) 0 = 1
   \<and> dist2 (- (22 / 5)) (4 / 5) (- (16 / 5)) (12 / 5) = 2
   \<and> DX_of fixture_345 (- (16 / 5)) 4 = Some (- (24 / 5))
   \<and> DY_of fixture_345 (12 / 5) 4 = Some (18 / 5)
   \<and> dist2 (- (24 / 5)) (18 / 5) 0 0 = 6
   \<and> dist2 (- (24 / 5)) (18 / 5) (- (16 / 5)) (12 / 5) = 2"
proof -
  have h: "dist2 (- (16 / 5)) (12 / 5) (- 5) 0 = RBC fixture_345 + RCD fixture_345"
    "0 < CDR_of (- (16 / 5)) (12 / 5)" "0 < RBC fixture_345" "0 < RCD fixture_345"
    by (simp_all add: dist2_CD_BC_345 CDR_345) (simp_all add: fixture_345_def)
  have v: "RBC fixture_345 = 1" "RCD fixture_345 = 2"
    by (simp_all add: fixture_345_def)
  show ?thesis
    using derived_points [OF h(3,4,1,2)] h
    by (simp add: Let_def CDR_345 v)
qed

text \<open>
  C9.  The expressions of step 2 divide by \<open>8 BCX\<close> and by \<open>8 (BCX^2 + BCY^2)\<close>, and step 1
  gives \<open>BCX = -RBXY sin(2b/PD)\<close>.  So every parameter set with \<open>b = 0\<close> (and \<open>PD \<noteq> 0\<close>) has
  \<open>BCX = 0\<close>, and \<open>CDX\<close> has no value there: it divides by zero, whatever \<open>BCY\<close> is.
\<close>

theorem zero_b_divides_by_zero:
  assumes "b p = 0" and "PD p \<noteq> 0"
  shows "BCX_expr p = - RBXY_expr p * sin (2 * b p / PD p)
       \<and> BCX p = Some 0 \<and> CDX_of p 0 bcy = None \<and> CDX p = None"
proof -
  have r: "radicand_1 p = (RAB p - RBC p) ^ 2"
    using assms(1) by (simp add: radicand_1_def Let_def power2_eq_square algebra_simps)
  have "0 \<le> radicand_1 p"
    unfolding r by simp
  then have bc: "BCX p = Some (BCX_expr p)" "BCY p = Some (BCY_expr p)"
    by (rule stage1_values [OF assms(2)])+
  have "BCX_expr p = 0"
    using assms(1) by (simp add: BCX_expr_def)
  then have x: "BCX p = Some 0"
    using bc(1) by simp
  show ?thesis
    using BCX_RBXY [of p] by (simp add: x bc(2) CDX_def CDX_of_zero)
qed

theorem zero_b_divides_by_zero_witness:
  "b fixture_b0 = 0 \<and> PD fixture_b0 \<noteq> 0
   \<and> BCX fixture_b0 = Some 0 \<and> CDX_of fixture_b0 0 2 = None \<and> CDX fixture_b0 = None"
  using zero_b_divides_by_zero [of fixture_b0 2] by (simp add: fixture_b0_def)

text \<open>
  C10.  The reflection keeps the distance from the origin: for every \<open>(x, y)\<close> with
  \<open>x^2 + y^2 > 0\<close> and every \<open>theta\<close> the reflected point \<open>(x', y')\<close> has
  \<open>x'^2 + y'^2 = x^2 + y^2\<close>.  So each of \<open>E\<close>, \<open>F\<close>, \<open>EF\<close>, \<open>G\<close>, \<open>FG\<close> is as far from the origin
  as its source \<open>D\<close>, \<open>C\<close>, \<open>CD\<close>, \<open>B\<close>, \<open>BC\<close>; in particular \<open>|EF| = CDR\<close> and
  \<open>|FG| = |RBXY|\<close>, the absolute value of the flank radius.
\<close>

theorem reflection_preserves_norm:
  "(0 < x ^ 2 + y ^ 2 \<longrightarrow>
      map_option (\<lambda>(x', y'). x' ^ 2 + y' ^ 2) (reflect_point x y theta) = Some (x ^ 2 + y ^ 2))
   \<and> (DX p = Some dx \<and> DY p = Some dy \<and> EX_val p = Some ex \<and> EY p = Some ey
        \<longrightarrow> ex ^ 2 + ey ^ 2 = dx ^ 2 + dy ^ 2)
   \<and> (CX p = Some cx \<and> CY p = Some cy \<and> FX p = Some fx \<and> FY p = Some fy
        \<longrightarrow> fx ^ 2 + fy ^ 2 = cx ^ 2 + cy ^ 2)
   \<and> (CDX p = Some cdx \<and> CDY p = Some cdy \<and> EFX p = Some efx \<and> EFY p = Some efy
        \<longrightarrow> efx ^ 2 + efy ^ 2 = cdx ^ 2 + cdy ^ 2)
   \<and> (BX p = Some bx \<and> BY p = Some byy \<and> GX p = Some gx \<and> GY p = Some gy
        \<longrightarrow> gx ^ 2 + gy ^ 2 = bx ^ 2 + byy ^ 2)
   \<and> (BCX p = Some bcx \<and> BCY p = Some bcy \<and> FGX p = Some fgx \<and> FGY p = Some fgy
        \<longrightarrow> fgx ^ 2 + fgy ^ 2 = bcx ^ 2 + bcy ^ 2)
   \<and> (CDR p = Some cdr \<and> EFX p = Some efx \<and> EFY p = Some efy
        \<longrightarrow> sqrt (efx ^ 2 + efy ^ 2) = cdr)
   \<and> (RBXY p = Some r \<and> FGX p = Some fgx \<and> FGY p = Some fgy
        \<longrightarrow> sqrt (fgx ^ 2 + fgy ^ 2) = \<bar>r\<bar>)"
proof (intro conjI impI)
  assume "0 < x ^ 2 + y ^ 2"
  then show "map_option (\<lambda>(x', y'). x' ^ 2 + y' ^ 2) (reflect_point x y theta)
      = Some (x ^ 2 + y ^ 2)"
    using polar_norm [of "sqrt (x ^ 2 + y ^ 2)"] by (simp add: reflect_point_defined)
next
  assume "DX p = Some dx \<and> DY p = Some dy \<and> EX_val p = Some ex \<and> EY p = Some ey"
  then show "ex ^ 2 + ey ^ 2 = dx ^ 2 + dy ^ 2"
    unfolding EX_val_def EY_def by (rule reflected_pair_norm)
next
  assume "CX p = Some cx \<and> CY p = Some cy \<and> FX p = Some fx \<and> FY p = Some fy"
  then show "fx ^ 2 + fy ^ 2 = cx ^ 2 + cy ^ 2"
    unfolding FX_def FY_def by (rule reflected_pair_norm)
next
  assume "CDX p = Some cdx \<and> CDY p = Some cdy \<and> EFX p = Some efx \<and> EFY p = Some efy"
  then show "efx ^ 2 + efy ^ 2 = cdx ^ 2 + cdy ^ 2"
    unfolding EFX_def EFY_def by (rule reflected_pair_norm)
next
  assume "BX p = Some bx \<and> BY p = Some byy \<and> GX p = Some gx \<and> GY p = Some gy"
  then show "gx ^ 2 + gy ^ 2 = bx ^ 2 + byy ^ 2"
    unfolding GX_def GY_def by (rule reflected_pair_norm)
next
  assume "BCX p = Some bcx \<and> BCY p = Some bcy \<and> FGX p = Some fgx \<and> FGY p = Some fgy"
  then show "fgx ^ 2 + fgy ^ 2 = bcx ^ 2 + bcy ^ 2"
    unfolding FGX_def FGY_def by (rule reflected_pair_norm)
next
  assume a: "CDR p = Some cdr \<and> EFX p = Some efx \<and> EFY p = Some efy"
  then obtain cdx cdy where cd: "CDX p = Some cdx" "CDY p = Some cdy" "cdr = CDR_of cdx cdy"
    using CDR_Some [of p cdr] by blast
  have e: "map_option fst (reflected (CDX p) (CDY p) (TANG p)) = Some efx"
    "map_option snd (reflected (CDX p) (CDY p) (TANG p)) = Some efy"
    using a unfolding EFX_def EFY_def by blast+
  have "efx ^ 2 + efy ^ 2 = cdx ^ 2 + cdy ^ 2"
    by (rule reflected_norm [OF cd(1,2) e])
  then show "sqrt (efx ^ 2 + efy ^ 2) = cdr"
    by (simp add: cd(3) CDR_of_def)
next
  assume a: "RBXY p = Some r \<and> FGX p = Some fgx \<and> FGY p = Some fgy"
  then have r: "RBXY p = Some r" by blast
  note bc = stage1_values(1,2) [OF RBXY_Some(1,2) [OF r]]
  have e: "map_option fst (reflected (BCX p) (BCY p) (TANG p)) = Some fgx"
    "map_option snd (reflected (BCX p) (BCY p) (TANG p)) = Some fgy"
    using a unfolding FGX_def FGY_def by blast+
  have "fgx ^ 2 + fgy ^ 2 = BCX_expr p ^ 2 + BCY_expr p ^ 2"
    by (rule reflected_norm [OF bc e])
  also have "\<dots> = r ^ 2"
    by (rule BC_norm [OF bc r])
  finally show "sqrt (fgx ^ 2 + fgy ^ 2) = \<bar>r\<bar>"
    by simp
qed

theorem reflection_preserves_norm_witness:
  "(0::real) < 3 ^ 2 + 4 ^ 2
   \<and> DX fixture_345 = Some (- (24 / 5)) \<and> DY fixture_345 = Some (18 / 5)
   \<and> EX_val fixture_345 = Some (18 / 5) \<and> EY fixture_345 = Some (- (24 / 5))
   \<and> CX fixture_345 = Some (- (22 / 5)) \<and> CY fixture_345 = Some (4 / 5)
   \<and> FX fixture_345 = Some (4 / 5) \<and> FY fixture_345 = Some (- (22 / 5))
   \<and> CDX fixture_345 = Some (- (16 / 5)) \<and> CDY fixture_345 = Some (12 / 5)
   \<and> EFX fixture_345 = Some (12 / 5) \<and> EFY fixture_345 = Some (- (16 / 5))
   \<and> BX fixture_345 = Some (- 6) \<and> BY fixture_345 = Some 0
   \<and> GX fixture_345 = Some 0 \<and> GY fixture_345 = Some (- 6)
   \<and> BCX fixture_345 = Some (- 5) \<and> BCY fixture_345 = Some 0
   \<and> FGX fixture_345 = Some 0 \<and> FGY fixture_345 = Some (- 5)
   \<and> CDR fixture_345 = Some 4 \<and> RBXY fixture_345 = Some 5
   \<and> map_option (\<lambda>(x', y'). x' ^ 2 + y' ^ 2) (reflect_point 3 4 0) = Some (3 ^ 2 + 4 ^ 2)
   \<and> (18 / 5) ^ 2 + (- (24 / 5)) ^ 2 = (- (24 / 5)) ^ 2 + (18 / 5 :: real) ^ 2
   \<and> (4 / 5) ^ 2 + (- (22 / 5)) ^ 2 = (- (22 / 5)) ^ 2 + (4 / 5 :: real) ^ 2
   \<and> (12 / 5) ^ 2 + (- (16 / 5)) ^ 2 = (- (16 / 5)) ^ 2 + (12 / 5 :: real) ^ 2
   \<and> 0 ^ 2 + (- 6) ^ 2 = (- 6) ^ 2 + (0 :: real) ^ 2
   \<and> 0 ^ 2 + (- 5) ^ 2 = (- 5) ^ 2 + (0 :: real) ^ 2
   \<and> sqrt ((12 / 5) ^ 2 + (- (16 / 5)) ^ 2) = 4
   \<and> sqrt (0 ^ 2 + (- 5) ^ 2) = \<bar>5 :: real\<bar>"
proof -
  have r: "RBXY fixture_345 = Some 5"
    using stage1_values(3) [OF fixture_345_defined] by (simp add: fixture_345_1)
  show ?thesis
    using reflection_preserves_norm [where x = 3 and y = 4 and theta = 0 and p = fixture_345
        and dx = "- (24 / 5)" and dy = "18 / 5" and ex = "18 / 5" and ey = "- (24 / 5)"
        and cx = "- (22 / 5)" and cy = "4 / 5" and fx = "4 / 5" and fy = "- (22 / 5)"
        and cdx = "- (16 / 5)" and cdy = "12 / 5" and efx = "12 / 5" and efy = "- (16 / 5)"
        and bx = "- 6" and byy = 0 and gx = 0 and gy = "- 6"
        and bcx = "- 5" and bcy = 0 and fgx = 0 and fgy = "- 5" and cdr = 4 and r = 5]
    by (simp only: fixture_345_D fixture_345_C fixture_345_CD fixture_345_B fixture_345_BC
        fixture_345_reflected fixture_345_CDR r simp_thms) (simp add: add.commute)
qed

text \<open>
  C10 as stated, with \<open>|FG| = RBXY\<close>, fails where the expression of \<open>RBXY\<close> is negative: all
  nine parameters are positive, \<open>RAB \<noteq> RBC\<close>, the discriminant is 1, \<open>RBXY = -8\<close>,
  \<open>BC = (0, 8)\<close> and \<open>FG = (0, -8)\<close>, at distance 8 from the origin.
\<close>

theorem flank_radius_counterexample:
  "0 < RAB fixture_neg \<and> 0 < RBC fixture_neg \<and> 0 < RCD fixture_neg \<and> 0 < b fixture_neg
   \<and> 0 < h fixture_neg \<and> 0 < PLD fixture_neg \<and> 0 < t fixture_neg \<and> 0 < P fixture_neg
   \<and> 0 < PD fixture_neg \<and> PD fixture_neg = PD_sub fixture_neg
   \<and> RAB fixture_neg \<noteq> RBC fixture_neg \<and> 0 \<le> radicand_1 fixture_neg
   \<and> RBXY fixture_neg = Some (- 8)
   \<and> BCX fixture_neg = Some 0 \<and> BCY fixture_neg = Some 8
   \<and> FGX fixture_neg = Some 0 \<and> FGY fixture_neg = Some (- 8)
   \<and> sqrt (0 ^ 2 + (- 8) ^ 2) = (8::real)"
proof -
  have v: "RBXY fixture_neg = Some (- 8)" "BCX fixture_neg = Some 0" "BCY fixture_neg = Some 8"
    "TANG fixture_neg = Some (- (pi / 2))"
    using stage1_values [OF fixture_neg_defined]
    by (simp_all add: TANG_def fixture_neg_1) (simp add: fixture_neg_def)
  have fg: "FGX fixture_neg = Some 0" "FGY fixture_neg = Some (- 8)"
    by (simp_all add: FGX_def FGY_def v reflected_def fixture_neg_reflect)
  show ?thesis
    by (simp add: v fg fixture_neg_1) (simp add: fixture_neg_def PD_sub_def)
qed

end
